(* ===== verification/Prelude.thy ===== *)
theory Prelude
  imports Main "HOL-Library.Word"
begin

text \<open>
  What the components of the notification dispatcher share: the Go types the code uses
  (strings as byte lists, \<open>uuid.UUID\<close> as 128 bits, \<open>time.Time\<close> as nanoseconds counted
  from Go's zero time), Go's error values with \<open>fmt.Errorf\<close> wrapping and \<open>errors.Is\<close>,
  the collections of rewrite rules, and lemmas on lists that several components use.
\<close>

section \<open>Collections\<close>

named_theorems go_defs \<open>definitions of the small Go helpers, unfolded by the component proofs\<close>
named_theorems branch_simps \<open>one equation per branch of an operation\<close>
named_theorems frame_simps \<open>what an operation leaves unchanged\<close>

section \<open>Go types\<close>

type_synonym go_string = string
type_synonym uuid = "128 word"
type_synonym go_int = "64 word"
type_synonym go_int32 = "32 word"
type_synonym time = int
type_synonym duration = "64 word"

text \<open>A byte of a Go string as a number.\<close>

abbreviation byte :: "char \<Rightarrow> nat" where
  "byte c \<equiv> of_char c"

definition Second :: duration where
  "Second = 1000000000"

definition uuid_Nil :: uuid where
  "uuid_Nil = 0"

definition time_IsZero :: "time \<Rightarrow> bool" where
  [simp]: "time_IsZero t \<longleftrightarrow> t = 0"

section \<open>Errors\<close>

text \<open>
  \<open>ErrorNew name text\<close> is a package-level sentinel (its identity is its qualified name),
  \<open>ErrorText text\<close> an error that nothing compares by identity, and
  \<open>ErrorWrap pre e post\<close> the result of \<open>fmt.Errorf\<close> with one \<open>%w\<close> verb: its text is
  \<open>pre\<close>, the text of \<open>e\<close> and \<open>post\<close>, and it unwraps to \<open>e\<close>.
\<close>

datatype goerror =
    ErrorNew string string
  | ErrorText string
  | ErrorWrap string goerror string

fun error_text :: "goerror \<Rightarrow> string" where
  "error_text (ErrorNew name txt) = txt"
| "error_text (ErrorText txt) = txt"
| "error_text (ErrorWrap pre e post) = pre @ error_text e @ post"

fun errors_Is :: "goerror \<Rightarrow> goerror \<Rightarrow> bool" where
  "errors_Is (ErrorWrap pre e post) t = (ErrorWrap pre e post = t \<or> errors_Is e t)"
| "errors_Is e t = (e = t)"

lemma errors_Is_refl [simp]: "errors_Is e e"
  by (cases e) simp_all

lemma errors_Is_New [simp]: "errors_Is (ErrorNew a b) t \<longleftrightarrow> t = ErrorNew a b"
  by auto

lemma errors_Is_wrap_New [simp]:
  "errors_Is (ErrorWrap pre e post) (ErrorNew a b) \<longleftrightarrow> errors_Is e (ErrorNew a b)"
  by simp

text \<open>A Go call that returns \<open>(T, error)\<close> returns \<open>goerror + 'a\<close>; one that returns only
  \<open>error\<close> returns \<open>goerror option\<close>, with \<open>None\<close> for \<open>nil\<close>. \<open>nilerr\<close> turns the first into
  the second.\<close>

abbreviation nil_error :: "goerror option" where
  "nil_error \<equiv> None"

fun wrap_error :: "string \<Rightarrow> goerror + 'a \<Rightarrow> goerror + 'a" where
  "wrap_error pre (Inl e) = Inl (ErrorWrap pre e [])"
| "wrap_error pre (Inr x) = Inr x"

lemma wrap_error_Inr_iff [simp]: "wrap_error pre r = Inr x \<longleftrightarrow> r = Inr x"
  by (cases r) auto

lemma wrap_error_Inl_iff: "wrap_error pre r = Inl e \<longleftrightarrow> (\<exists>e'. r = Inl e' \<and> e = ErrorWrap pre e' [])"
  by (cases r) auto

section \<open>Lists\<close>

lemma distinct_map_filter_id: "distinct (map f xs) \<Longrightarrow> distinct (map f (filter P xs))"
  by (induction xs) auto

lemma map_update_same:
  "(\<And>x. x \<in> set xs \<Longrightarrow> g (f x) = g x) \<Longrightarrow> map g (map f xs) = map g xs"
  by simp

lemma length_filter_split:
  "length xs = length (filter P xs) + length (filter (\<lambda>x. \<not> P x) xs)"
  by (rule sum_length_filter_compl [symmetric])

lemma distinct_map_find:
  "distinct (map f xs) \<Longrightarrow> x \<in> set xs \<Longrightarrow> find (\<lambda>y. f y = f x) xs = Some x"
  by (induction xs) (auto simp: image_iff)

lemma find_Some_mem: "find P xs = Some x \<Longrightarrow> x \<in> set xs \<and> P x"
  by (induction xs) (auto split: if_splits)

lemma find_None_append: "find P xs = None \<Longrightarrow> find P (xs @ ys) = find P ys"
  by (induction xs) (auto split: if_splits)

lemma filter_unique:
  "distinct (map f xs) \<Longrightarrow> filter (\<lambda>x. f x = v \<and> P x) xs =
     (case find (\<lambda>x. f x = v) xs of None \<Rightarrow> [] | Some x \<Rightarrow> if P x then [x] else [])"
proof (induction xs)
  case (Cons a xs)
  show ?case
  proof (cases "f a = v")
    case True
    then have "filter (\<lambda>x. f x = v \<and> P x) xs = []"
      using Cons.prems by (simp add: filter_empty_conv) (metis imageI)
    then show ?thesis using True by simp
  next
    case False
    then show ?thesis using Cons by simp
  qed
qed simp

lemma mem_map_filter: "k \<in> set (List.map_filter f xs) \<longleftrightarrow> Some k \<in> f ` set xs"
  by (induction xs) (auto simp: map_filter_simps image_iff split: option.splits)

lemma distinct_option_find:
  "distinct (List.map_filter f xs) \<Longrightarrow> x \<in> set xs \<Longrightarrow> f x = Some k
     \<Longrightarrow> find (\<lambda>y. f y = Some k) xs = Some x"
proof (induction xs)
  case (Cons a xs)
  have d: "distinct (List.map_filter f xs)" using Cons.prems(1) by (auto simp: map_filter_simps split: option.splits)
  show ?case
  proof (cases "f a = Some k")
    case True
    then have "k \<notin> set (List.map_filter f xs)" using Cons.prems(1) by (simp add: map_filter_simps)
    then have "x = a" using Cons.prems(2,3) by (auto simp: mem_map_filter image_iff)
    then show ?thesis using True by simp
  next
    case False
    then show ?thesis using Cons d by auto
  qed
qed simp

end
