(* ===== verification/Go_Text.thy ===== *)
theory Go_Text
  imports Prelude
begin

text \<open>
  The parts of Go's \<open>unicode/utf8\<close> that the dispatcher relies on: \<open>DecodeRune\<close>,
  \<open>EncodeRune\<close>, iteration over the runes of a string and \<open>RuneCountInString\<close>. A Go string
  is a byte list; a rune is a natural number. The lemmas say that decoding is inverse to
  encoding on well-formed input, and that ASCII bytes are rune boundaries.
\<close>

section \<open>UTF-8\<close>

definition RuneError :: nat where
  [simp]: "RuneError = 0xFFFD"

definition cont :: "char \<Rightarrow> bool" where
  "cont c \<longleftrightarrow> 0x80 \<le> byte c \<and> byte c \<le> 0xBF"

text \<open>The range of the second byte, by the first one (Go's \<open>acceptRanges\<close>).\<close>

definition accept_second :: "char \<Rightarrow> char \<Rightarrow> bool" where
  "accept_second a b \<longleftrightarrow>
     (if byte a = 0xE0 then 0xA0 \<le> byte b \<and> byte b \<le> 0xBF
      else if byte a = 0xED then 0x80 \<le> byte b \<and> byte b \<le> 0x9F
      else if byte a = 0xF0 then 0x90 \<le> byte b \<and> byte b \<le> 0xBF
      else if byte a = 0xF4 then 0x80 \<le> byte b \<and> byte b \<le> 0x8F
      else cont b)"

text \<open>\<open>DecodeRuneInString\<close>: the first rune and its width; a malformed sequence is
  \<open>RuneError\<close> of width 1, the empty string \<open>RuneError\<close> of width 0.\<close>

definition DecodeRune :: "go_string \<Rightarrow> nat \<times> nat" where
  "DecodeRune s = (case s of
     [] \<Rightarrow> (RuneError, 0)
   | a # rest \<Rightarrow>
      if byte a < 0x80 then (byte a, 1)
      else if byte a < 0xC2 \<or> 0xF4 < byte a then (RuneError, 1)
      else (case rest of
         [] \<Rightarrow> (RuneError, 1)
       | b # rest2 \<Rightarrow>
          if \<not> accept_second a b then (RuneError, 1)
          else if byte a < 0xE0 then ((byte a mod 32) * 64 + byte b mod 64, 2)
          else (case rest2 of
             [] \<Rightarrow> (RuneError, 1)
           | c # rest3 \<Rightarrow>
              if \<not> cont c then (RuneError, 1)
              else if byte a < 0xF0
                then ((byte a mod 16) * 4096 + (byte b mod 64) * 64 + byte c mod 64, 3)
              else (case rest3 of
                 [] \<Rightarrow> (RuneError, 1)
               | d # rest4 \<Rightarrow>
                  if \<not> cont d then (RuneError, 1)
                  else ((byte a mod 8) * 262144 + (byte b mod 64) * 4096
                        + (byte c mod 64) * 64 + byte d mod 64, 4)))))"

text \<open>\<open>EncodeRune\<close>: surrogates and numbers above \<open>0x10FFFF\<close> encode as \<open>RuneError\<close>.\<close>

definition EncodeRune :: "nat \<Rightarrow> go_string" where
  "EncodeRune r =
     (if r < 0x80 then [char_of r]
      else if r < 0x800 then [char_of (0xC0 + r div 64), char_of (0x80 + r mod 64)]
      else if 0x10FFFF < r \<or> (0xD800 \<le> r \<and> r \<le> 0xDFFF)
        then [char_of (0xEF::nat), char_of (0xBF::nat), char_of (0xBD::nat)]
      else if r < 0x10000
        then [char_of (0xE0 + r div 4096), char_of (0x80 + (r div 64) mod 64), char_of (0x80 + r mod 64)]
      else [char_of (0xF0 + r div 262144), char_of (0x80 + (r div 4096) mod 64),
            char_of (0x80 + (r div 64) mod 64), char_of (0x80 + r mod 64)])"

lemma char_eq_byte: "c = d \<longleftrightarrow> byte c = byte d"
  by simp

lemma byte_char_of [simp]: "byte (char_of (n::nat)) = n mod 256"
  by simp

lemma DecodeRune_Nil [simp]: "DecodeRune [] = (RuneError, 0)"
  by (simp add: DecodeRune_def)

lemma DecodeRune_ascii [simp]: "byte a < 0x80 \<Longrightarrow> DecodeRune (a # s) = (byte a, 1)"
  by (simp add: DecodeRune_def)

lemma DecodeRune_width:
  "s \<noteq> [] \<Longrightarrow> 1 \<le> snd (DecodeRune s) \<and> snd (DecodeRune s) \<le> length s"
  by (auto simp: DecodeRune_def split: list.splits if_splits)

lemma DecodeRune_width_le_4: "snd (DecodeRune s) \<le> 4"
  by (auto simp: DecodeRune_def split: list.splits if_splits)


text \<open>The five shapes of a call to \<open>DecodeRune\<close>, with the runes by subtraction.\<close>

lemma lead_mod:
  "192 \<le> n \<Longrightarrow> n < 224 \<Longrightarrow> n mod 32 = n - (192::nat)"
  "224 \<le> n \<Longrightarrow> n < 240 \<Longrightarrow> n mod 16 = n - (224::nat)"
  "240 \<le> n \<Longrightarrow> n < 248 \<Longrightarrow> n mod 8 = n - (240::nat)"
  "128 \<le> n \<Longrightarrow> n < 192 \<Longrightarrow> n mod 64 = n - (128::nat)"
  by (auto intro!: mod_nat_eqI)

lemma div_mod_digit:
  "t < k \<Longrightarrow> (x * k + t) div k = (x::nat)"
  "t < k \<Longrightarrow> (x * k + t) mod k = (t::nat)"
  by auto

lemma accept_second_cont: "accept_second a b \<Longrightarrow> cont b"
  by (auto simp: accept_second_def cont_def split: if_splits)

lemma cont_mod: "cont c \<Longrightarrow> byte c mod 64 = byte c - 128"
  by (rule lead_mod) (auto simp: cont_def)

lemma DecodeRune_cases [case_names empty ascii bad two three four]:
  obtains "s = []"
  | a r where "s = a # r" "byte a < 0x80" "DecodeRune s = (byte a, 1)"
  | a r where "s = a # r" "0x80 \<le> byte a" "DecodeRune s = (RuneError, 1)"
  | a b r where "s = a # b # r" "0xC2 \<le> byte a" "byte a < 0xE0" "accept_second a b"
      "cont b"
      "DecodeRune s = ((byte a - 0xC0) * 64 + (byte b - 0x80), 2)"
  | a b c r where "s = a # b # c # r" "0xE0 \<le> byte a" "byte a < 0xF0" "accept_second a b"
      "cont b" "cont c"
      "DecodeRune s = ((byte a - 0xE0) * 4096 + (byte b - 0x80) * 64 + (byte c - 0x80), 3)"
  | a b c d r where "s = a # b # c # d # r" "0xF0 \<le> byte a" "byte a \<le> 0xF4"
      "accept_second a b" "cont b" "cont c" "cont d"
      "DecodeRune s = ((byte a - 0xF0) * 262144 + (byte b - 0x80) * 4096
                       + (byte c - 0x80) * 64 + (byte d - 0x80), 4)"
proof (cases s)
  case Nil
  then show ?thesis using that(1) by simp
next
  case (Cons a r)
  show ?thesis
  proof (cases "byte a < 0x80")
    case True
    then show ?thesis using that(2) Cons by simp
  next
    case na: False
    show ?thesis
    proof (cases "DecodeRune s = (RuneError, 1)")
      case True
      then show ?thesis using that(3) Cons na by simp
    next
      case ok: False
      from ok na Cons have lead: "0xC2 \<le> byte a" "byte a \<le> 0xF4"
        by (auto simp: DecodeRune_def split: if_splits)
      from ok na Cons lead obtain b r2 where r: "r = b # r2" and ab: "accept_second a b"
        by (auto simp: DecodeRune_def split: list.splits if_splits)
      from ab have b: "cont b" by (rule accept_second_cont)
      show ?thesis
      proof (cases "byte a < 0xE0")
        case True
        then show ?thesis
          using that(4) [of a b r2] Cons r ab b lead na
          by (simp add: DecodeRune_def cont_mod lead_mod)
      next
        case na2: False
        from ok na Cons lead r ab na2 obtain c r3 where r2: "r2 = c # r3" and c: "cont c"
          by (auto simp: DecodeRune_def split: list.splits if_splits)
        show ?thesis
        proof (cases "byte a < 0xF0")
          case True
          then show ?thesis
            using that(5) [of a b c r3] Cons r r2 ab b c lead na na2
            by (simp add: DecodeRune_def cont_mod lead_mod)
        next
          case na3: False
          from ok na Cons lead r r2 ab c na2 na3 obtain d r4 where r3: "r3 = d # r4" and d: "cont d"
            by (auto simp: DecodeRune_def split: list.splits if_splits)
          from lead na3 have "byte a mod 8 = byte a - 0xF0" by (intro lead_mod) auto
          then show ?thesis
            using that(6) [of a b c d r4] Cons r r2 r3 ab b c d lead na na2 na3
            by (simp add: DecodeRune_def cont_mod)
        qed
      qed
    qed
  qed
qed

lemma DecodeRune_ascii_result:
  assumes "fst (DecodeRune s) < 0x80" and "s \<noteq> []"
  obtains a rest where "s = a # rest" "byte a < 0x80" "DecodeRune s = (byte a, 1)"
proof (cases s rule: DecodeRune_cases)
  case (three a b c r)
  then have "32 \<le> byte b - 0x80 \<or> 1 \<le> byte a - 0xE0"
    by (auto simp: accept_second_def split: if_splits)
  then have "0x80 \<le> (byte a - 0xE0) * 4096 + (byte b - 0x80) * 64" by linarith
  with three assms show thesis by simp
next
  case (four a b c d r)
  then have "16 \<le> byte b - 0x80 \<or> 1 \<le> byte a - 0xF0"
    by (auto simp: accept_second_def split: if_splits)
  then have "0x80 \<le> (byte a - 0xF0) * 262144 + (byte b - 0x80) * 4096" by linarith
  with four assms show thesis by simp
qed (use assms that in auto)

text \<open>Decoding a well-formed sequence and encoding the rune gives the sequence back.\<close>

lemma EncodeRune_DecodeRune:
  assumes "s \<noteq> []" and "DecodeRune s = (r, w)" and "\<not> (r = RuneError \<and> w = 1)"
  shows "EncodeRune r = take w s"
proof (cases s rule: DecodeRune_cases)
  case empty
  with assms show ?thesis by simp
next
  case (ascii a r)
  with assms show ?thesis by (auto simp: EncodeRune_def)
next
  case bad
  with assms show ?thesis by auto
next
  case (two a b rest)
  define x y where "x = byte a - 0xC0" and "y = byte b - 0x80"
  have a: "byte a = 0xC0 + x" and b: "byte b = 0x80 + y" and x: "2 \<le> x" "x < 32" and y: "y < 64"
    using two by (auto simp: x_def y_def cont_def)
  have r: "r = x * 64 + y" "w = 2" using assms two by (auto simp: x_def y_def)
  have "r div 64 = x" "r mod 64 = y" "r < 0x800" "\<not> r < 0x80"
    using div_mod_digit [of y 64 x] r x y by auto
  moreover have "char_of (0xC0 + x) = a" "char_of (0x80 + y) = b"
    by (simp_all flip: a b)
  ultimately show ?thesis using two(1) r(2)
    by (simp add: EncodeRune_def)
next
  case (three a b c rest)
  define x y z where "x = byte a - 0xE0" and "y = byte b - 0x80" and "z = byte c - 0x80"
  have a: "byte a = 0xE0 + x" and b: "byte b = 0x80 + y" and c: "byte c = 0x80 + z"
    and x: "x < 16" and y: "y < 64" and z: "z < 64"
    using three by (auto simp: x_def y_def z_def cont_def)
  have ab: "32 \<le> y \<or> 1 \<le> x" "x = 13 \<Longrightarrow> y < 32"
    using three by (auto simp: x_def y_def accept_second_def split: if_splits)
  have r: "r = x * 4096 + y * 64 + z" "w = 3" using assms three by (auto simp: x_def y_def z_def)
  have "\<not> r < 0x800" "\<not> 0x10FFFF < r" "r < 0x10000"
    using r ab(1) x y z by linarith+
  moreover have "\<not> (0xD800 \<le> r \<and> r \<le> 0xDFFF)"
  proof
    assume "0xD800 \<le> r \<and> r \<le> 0xDFFF"
    with r y z have "x = 13" by linarith
    with ab(2) r \<open>0xD800 \<le> r \<and> r \<le> 0xDFFF\<close> z show False by linarith
  qed
  moreover have "r div 4096 = x" "r mod 64 = z" "r div 64 = x * 64 + y"
    using div_mod_digit [of "y * 64 + z" 4096 x] div_mod_digit [of z 64 "x * 64 + y"] r y z
    by (simp_all add: algebra_simps)
  moreover from this(3) have "r div 64 mod 64 = y" using y by simp
  moreover have "char_of (0xE0 + x) = a" "char_of (0x80 + y) = b" "char_of (0x80 + z) = c"
    by (simp_all flip: a b c)
  ultimately show ?thesis using three(1) r(2)
    by (auto simp: EncodeRune_def)
next
  case (four a b c d rest)
  define x y z u where "x = byte a - 0xF0" and "y = byte b - 0x80" and "z = byte c - 0x80"
    and "u = byte d - 0x80"
  have a: "byte a = 0xF0 + x" and b: "byte b = 0x80 + y" and c: "byte c = 0x80 + z"
    and d: "byte d = 0x80 + u"
    and x: "x \<le> 4" and y: "y < 64" and z: "z < 64" and u: "u < 64"
    using four by (auto simp: x_def y_def z_def u_def cont_def)
  have ab: "16 \<le> y \<or> 1 \<le> x" "x = 4 \<Longrightarrow> y < 16"
    using four by (auto simp: x_def y_def accept_second_def split: if_splits)
  have r: "r = x * 262144 + y * 4096 + z * 64 + u" "w = 4"
    using assms four by (auto simp: x_def y_def z_def u_def)
  have "\<not> r < 0x10000"
    using r ab(1) x y z u by linarith
  moreover have "\<not> 0x10FFFF < r"
    using r ab(2) x y z u by (cases "x = 4") linarith+
  moreover have "r div 262144 = x" "r div 4096 = x * 64 + y" "r div 64 = (x * 64 + y) * 64 + z"
      "r mod 64 = u"
    using div_mod_digit [of "y * 4096 + z * 64 + u" 262144 x]
      div_mod_digit [of "z * 64 + u" 4096 "x * 64 + y"]
      div_mod_digit [of u 64 "(x * 64 + y) * 64 + z"] r y z u
    by (simp_all add: algebra_simps)
  moreover from this(2,3) have "r div 4096 mod 64 = y" "r div 64 mod 64 = z"
    using y z div_mod_digit(2) [of z 64 "x * 64 + y"] by (simp_all only: div_mod_digit)
  moreover have "char_of (0xF0 + x) = a" "char_of (0x80 + y) = b" "char_of (0x80 + z) = c"
      "char_of (0x80 + u) = d"
    by (simp_all flip: a b c d)
  ultimately show ?thesis using four(1) r(2)
    by (simp add: EncodeRune_def)
qed


section \<open>Iterating over the runes of a string\<close>

text \<open>\<open>for _, r := range s\<close>: each rune with the bytes it was decoded from.\<close>

function rune_chunks :: "go_string \<Rightarrow> (nat \<times> go_string) list" where
  "rune_chunks s =
     (if s = [] then []
      else (fst (DecodeRune s), take (snd (DecodeRune s)) s)
             # rune_chunks (drop (snd (DecodeRune s)) s))"
  by pat_completeness auto
termination
proof (relation "measure length")
  fix s :: go_string assume "s \<noteq> []"
  with DecodeRune_width [of s]
  show "(drop (snd (DecodeRune s)) s, s) \<in> measure length" by auto
qed simp

declare rune_chunks.simps [simp del]

definition runes :: "go_string \<Rightarrow> nat list" where
  "runes s = map fst (rune_chunks s)"

definition RuneCountInString :: "go_string \<Rightarrow> nat" where
  "RuneCountInString s = length (runes s)"

lemma runes_Nil [simp]: "runes [] = []"
  by (simp add: runes_def rune_chunks.simps)

lemma runes_step:
  "s \<noteq> [] \<Longrightarrow> runes s = fst (DecodeRune s) # runes (drop (snd (DecodeRune s)) s)"
  by (simp add: runes_def rune_chunks.simps [of s])

lemma runes_eq_Nil_iff [simp]: "runes s = [] \<longleftrightarrow> s = []"
  by (cases "s = []") (simp_all add: runes_step)

lemma runes_ascii_Cons [simp]: "byte c < 0x80 \<Longrightarrow> runes (c # s) = byte c # runes s"
  by (simp add: runes_step)

lemma concat_rune_chunks: "concat (map snd (rune_chunks s)) = s"
  by (induction s rule: rune_chunks.induct) (subst rune_chunks.simps, simp)

lemma runes_induct [case_names Nil step]:
  assumes "P []"
    and "\<And>s. s \<noteq> [] \<Longrightarrow> P (drop (snd (DecodeRune s)) s) \<Longrightarrow> P s"
  shows "P s"
proof (induction s rule: rune_chunks.induct)
  case (1 s)
  with assms show ?case by (cases "s = []") simp_all
qed

lemma RuneCount_le_length: "RuneCountInString s \<le> length s"
proof (induction s rule: runes_induct)
  case (step s)
  from step.IH have "length (runes s) \<le> Suc (length s - snd (DecodeRune s))"
    by (simp add: RuneCountInString_def runes_step [OF step.hyps])
  then show ?case using DecodeRune_width [OF step.hyps]
    unfolding RuneCountInString_def by linarith
qed (simp add: RuneCountInString_def)

text \<open>A well-formed prefix decodes the same with anything behind it, and an ASCII byte is
  never swallowed by what stands before it.\<close>

lemma DecodeRune_append_valid:
  assumes "s \<noteq> []" and "DecodeRune s \<noteq> (RuneError, 1)"
  shows "DecodeRune (s @ t) = DecodeRune s"
proof (cases s rule: DecodeRune_cases)
  case (two a b r)
  then show ?thesis by (simp add: DecodeRune_def)
next
  case (three a b c r)
  then show ?thesis by (simp add: DecodeRune_def)
next
  case (four a b c d r)
  then show ?thesis by (simp add: DecodeRune_def)
qed (use assms in auto)

lemma DecodeRune_append_ascii:
  assumes "s \<noteq> []" and "byte c < 0x80"
  shows "DecodeRune (s @ c # t) = DecodeRune s"
proof -
  have nc: "\<not> cont c" using assms(2) by (simp add: cont_def)
  then have na: "\<not> accept_second a c" for a using accept_second_cont by blast
  show ?thesis
    using assms(1) by (auto simp: DecodeRune_def nc na split: list.splits if_splits)
qed

lemma runes_append_ascii:
  "byte c < 0x80 \<Longrightarrow> runes (s @ c # t) = runes s @ byte c # runes t"
proof (induction s rule: runes_induct)
  case (step s)
  then have "runes (s @ c # t) = fst (DecodeRune s) # runes (drop (snd (DecodeRune s)) (s @ c # t))"
    by (simp add: runes_step DecodeRune_append_ascii)
  also have "drop (snd (DecodeRune s)) (s @ c # t) = drop (snd (DecodeRune s)) s @ c # t"
    using DecodeRune_width [OF step.hyps] by simp
  finally show ?case using step by (simp add: runes_step [of s])
qed simp

lemma runes_split_ascii:
  "runes s = u @ k # v \<Longrightarrow> k < 0x80 \<Longrightarrow>
   \<exists>s1 c s2. s = s1 @ c # s2 \<and> byte c = k \<and> runes s1 = u \<and> runes s2 = v"
proof (induction s arbitrary: u rule: runes_induct)
  case (step s)
  let ?w = "snd (DecodeRune s)"
  from step.prems(1) have rs: "fst (DecodeRune s) # runes (drop ?w s) = u @ k # v"
    by (simp only: runes_step [OF step.hyps])
  show ?case
  proof (cases u)
    case Nil
    with rs have k: "fst (DecodeRune s) = k" and v: "runes (drop ?w s) = v" by auto
    have "fst (DecodeRune s) < 0x80" using k step.prems(2) by simp
    then obtain a rest where a: "s = a # rest" "DecodeRune s = (byte a, 1)"
      using DecodeRune_ascii_result step.hyps by blast
    with v k have "runes rest = v" "byte a = k" by simp_all
    with a Nil show ?thesis by (intro exI [of _ "[]"] exI [of _ a] exI [of _ rest]) simp
  next
    case (Cons r u')
    with rs have "runes (drop ?w s) = u' @ k # v" and r: "fst (DecodeRune s) = r" by auto
    with step obtain s1 c s2 where IH: "drop ?w s = s1 @ c # s2" "byte c = k" "runes s1 = u'"
      "runes s2 = v" by blast
    let ?p = "take ?w s @ s1"
    have s: "s = ?p @ c # s2" using IH(1) by (metis append.assoc append_take_drop_id)
    have w: "1 \<le> ?w" "?w \<le> length s" using DecodeRune_width [OF step.hyps] by auto
    then have p: "?p \<noteq> []" using step.hyps by auto
    have "byte c < 0x80" using IH(2) step.prems(2) by simp
    from DecodeRune_append_ascii [OF p this, of s2] s
    have dp: "DecodeRune ?p = DecodeRune s" by simp
    have "drop ?w ?p = s1" using w by simp
    with runes_step [OF p] dp r IH(3) Cons have "runes ?p = u" by simp
    with s IH show ?thesis by blast
  qed
qed simp

lemma set_runes_ascii:
  assumes "k < 0x80"
  shows "k \<in> set (runes s) \<longleftrightarrow> (\<exists>c \<in> set s. byte c = k)"
proof
  assume "k \<in> set (runes s)"
  then obtain u v where "runes s = u @ k # v" by (auto dest: split_list)
  from runes_split_ascii [OF this assms] show "\<exists>c \<in> set s. byte c = k" by auto
next
  assume "\<exists>c \<in> set s. byte c = k"
  then obtain c s1 s2 where "s = s1 @ c # s2" "byte c = k" by (auto dest: split_list)
  then show "k \<in> set (runes s)" using assms by (simp add: runes_append_ascii)
qed

lemma runes_all_ascii: "\<forall>c \<in> set s. byte c < 0x80 \<Longrightarrow> runes s = map byte s"
  by (induction s) auto

lemma all_ascii_runes:
  "\<forall>r \<in> set (runes s). r < 0x80 \<Longrightarrow> (\<forall>c \<in> set s. byte c < 0x80)"
proof (induction s rule: runes_induct)
  case (step s)
  from step.prems have "fst (DecodeRune s) < 0x80" by (simp add: runes_step [OF step.hyps])
  then obtain a rest where s: "s = a # rest" "byte a < 0x80"
    using DecodeRune_ascii_result step.hyps by blast
  then have d: "drop (snd (DecodeRune s)) s = rest" by simp
  have r: "runes s = byte a # runes rest" unfolding s(1) using s(2) by (rule runes_ascii_Cons)
  from step.prems r have "\<forall>r \<in> set (runes rest). r < 0x80" by simp
  with step.IH have "\<forall>c \<in> set rest. byte c < 0x80" unfolding d by blast
  with s show ?case by simp
qed simp

end
