(* ===== verification/Go_Strings.thy ===== *)
theory Go_Strings
  imports Go_Text
begin

text \<open>
  What the dispatcher uses of Go's \<open>strings\<close> (\<open>TrimSpace\<close>, \<open>SplitN\<close>, \<open>HasPrefix\<close>) and
  \<open>strconv\<close> (\<open>Itoa\<close>, \<open>Atoi\<close>), with their laws.
\<close>

section \<open>\<open>strings\<close> and \<open>strconv\<close>\<close>

definition unicode_IsSpace :: "nat \<Rightarrow> bool" where
  "unicode_IsSpace r \<longleftrightarrow>
     (9 \<le> r \<and> r \<le> 13) \<or> r = 0x20 \<or> r = 0x85 \<or> r = 0xA0 \<or> r = 0x1680
     \<or> (0x2000 \<le> r \<and> r \<le> 0x200A) \<or> r = 0x2028 \<or> r = 0x2029 \<or> r = 0x202F \<or> r = 0x205F \<or> r = 0x3000"

definition RuneStart :: "char \<Rightarrow> bool" where
  "RuneStart c \<longleftrightarrow> \<not> cont c"

text \<open>\<open>DecodeLastRuneInString\<close> walks back at most four bytes to one that starts a rune and
  accepts what it decodes there only if it ends at the end of the string.\<close>

definition last_start :: "go_string \<Rightarrow> nat" where
  "last_start s =
     (let n = length s;
          k = length (takeWhile (\<lambda>c. \<not> RuneStart c) (take 3 (tl (rev s))))
      in n - 1 - Suc k)"

definition DecodeLastRune :: "go_string \<Rightarrow> nat \<times> nat" where
  "DecodeLastRune s =
     (if s = [] then (RuneError, 0)
      else if byte (last s) < 0x80 then (byte (last s), 1)
      else let start = last_start s; (r, w) = DecodeRune (drop start s)
           in if start + w = length s then (r, w) else (RuneError, 1))"

fun TrimLeftSpace :: "go_string \<Rightarrow> go_string" where
  "TrimLeftSpace s = concat (map snd (dropWhile (\<lambda>c. unicode_IsSpace (fst c)) (rune_chunks s)))"

lemma DecodeLastRune_width:
  "s \<noteq> [] \<Longrightarrow> 1 \<le> snd (DecodeLastRune s) \<and> snd (DecodeLastRune s) \<le> length s"
proof -
  assume s: "s \<noteq> []"
  then have "last_start s < length s" by (auto simp: last_start_def Let_def)
  then have "drop (last_start s) s \<noteq> []" by simp
  from DecodeRune_width [OF this] s show ?thesis
    by (auto simp: DecodeLastRune_def Let_def split: prod.splits)
qed

function TrimRightSpace :: "go_string \<Rightarrow> go_string" where
  "TrimRightSpace s =
     (if s \<noteq> [] \<and> unicode_IsSpace (fst (DecodeLastRune s))
      then TrimRightSpace (take (length s - snd (DecodeLastRune s)) s) else s)"
  by pat_completeness auto
termination
proof (relation "measure length")
  fix s :: go_string assume "s \<noteq> [] \<and> unicode_IsSpace (fst (DecodeLastRune s))"
  with DecodeLastRune_width [of s]
  show "(take (length s - snd (DecodeLastRune s)) s, s) \<in> measure length" by auto
qed simp

declare TrimRightSpace.simps [simp del]

definition TrimSpace :: "go_string \<Rightarrow> go_string" where
  "TrimSpace s = TrimRightSpace (TrimLeftSpace s)"

lemma last_start_less: "s \<noteq> [] \<Longrightarrow> last_start s < length s"
  by (auto simp: last_start_def Let_def)

lemma DecodeLastRune_ok:
  assumes "s \<noteq> []" and "DecodeLastRune s \<noteq> (RuneError, 1)"
  obtains p e where "s = p @ e" "e \<noteq> []" "DecodeRune e = DecodeLastRune s"
    "snd (DecodeLastRune s) = length e"
proof (cases "byte (last s) < 0x80")
  case True
  have "s = butlast s @ [last s]" using assms(1) by simp
  moreover have "DecodeLastRune s = (byte (last s), 1)" using True assms(1)
    by (simp add: DecodeLastRune_def)
  ultimately show thesis using that [of "butlast s" "[last s]"] True by simp
next
  case False
  let ?e = "drop (last_start s) s"
  obtain r w where rw: "DecodeRune ?e = (r, w)" by fastforce
  with False assms have "DecodeLastRune s = (r, w)" "last_start s + w = length s"
    by (auto simp: DecodeLastRune_def Let_def split: if_splits)
  with that [of "take (last_start s) s" ?e] rw last_start_less [OF assms(1)]
  show thesis by simp
qed

lemma IsSpace_not_RuneError [simp]: "\<not> unicode_IsSpace 0xFFFD"
  by (simp add: unicode_IsSpace_def)

text \<open>Trimming from the right never empties a string whose first rune is no space.\<close>

lemma TrimRightSpace_Nil:
  "TrimRightSpace s = [] \<Longrightarrow> s \<noteq> [] \<Longrightarrow> unicode_IsSpace (fst (DecodeRune s))"
proof (induction s rule: TrimRightSpace.induct)
  case (1 s)
  from 1(2,3) have sp: "unicode_IsSpace (fst (DecodeLastRune s))"
    by (subst (asm) TrimRightSpace.simps) (auto split: if_splits)
  then have "DecodeLastRune s \<noteq> (RuneError, 1)" by auto
  from DecodeLastRune_ok [OF 1(3) this] obtain p e where
    s: "s = p @ e" "e \<noteq> []" "DecodeRune e = DecodeLastRune s" "snd (DecodeLastRune s) = length e"
    by blast
  show ?case
  proof (cases "p = []")
    case True
    with s sp show ?thesis by simp
  next
    case False
    have tp: "take (length s - snd (DecodeLastRune s)) s = p" using s by simp
    with 1(2,3) sp have "TrimRightSpace p = []"
      by (subst (asm) TrimRightSpace.simps) simp
    with 1(1) 1(3) sp tp False have spp: "unicode_IsSpace (fst (DecodeRune p))" by simp
    then have "DecodeRune p \<noteq> (RuneError, 1)" by auto
    from DecodeRune_append_valid [OF False this] s(1) spp show ?thesis by simp
  qed
qed

lemma TrimRightSpace_Nil_Nil [simp]: "TrimRightSpace [] = []"
  by (simp add: TrimRightSpace.simps)

lemma rune_chunks_suffix:
  "rune_chunks s = xs @ ys \<Longrightarrow> rune_chunks (concat (map snd ys)) = ys"
proof (induction s arbitrary: xs rule: runes_induct)
  case Nil
  then show ?case by (simp add: rune_chunks.simps)
next
  case (step s)
  show ?case
  proof (cases xs)
    case Nil
    with step.prems concat_rune_chunks [of s] show ?thesis by simp
  next
    case (Cons x xs')
    with step.prems step.hyps have "rune_chunks (drop (snd (DecodeRune s)) s) = xs' @ ys"
      by (subst (asm) rune_chunks.simps) simp
    with step.IH show ?thesis by blast
  qed
qed

declare TrimLeftSpace.simps [simp del]

text \<open>\<open>strings.TrimSpace(s) == ""\<close> says that every rune of \<open>s\<close> is white space.\<close>

lemma TrimSpace_empty_iff:
  "TrimSpace s = [] \<longleftrightarrow> (\<forall>r \<in> set (runes s). unicode_IsSpace r)"
proof -
  let ?P = "\<lambda>c. unicode_IsSpace (fst c)"
  let ?d = "dropWhile ?P (rune_chunks s)"
  have all: "(\<forall>r \<in> set (runes s). unicode_IsSpace r) \<longleftrightarrow> ?d = []"
    by (simp add: runes_def)
  have suf: "rune_chunks (concat (map snd ?d)) = ?d"
    by (rule rune_chunks_suffix [of s "takeWhile ?P (rune_chunks s)"]) simp
  show ?thesis
  proof (cases "?d = []")
    case True
    then have "TrimLeftSpace s = []" by (simp only: TrimLeftSpace.simps) simp
    with all True show ?thesis by (simp add: TrimSpace_def)
  next
    case False
    let ?t = "concat (map snd ?d)"
    have t: "?t \<noteq> []" using False suf by (metis rune_chunks.simps)
    then have "hd (runes ?t) = fst (DecodeRune ?t)" by (simp add: runes_step)
    moreover have "hd (runes ?t) = fst (hd ?d)" using False suf by (simp add: runes_def hd_map)
    moreover have "\<not> ?P (hd ?d)" using False by (rule hd_dropWhile)
    ultimately have "TrimRightSpace ?t \<noteq> []" using TrimRightSpace_Nil t by metis
    with False all show ?thesis by (simp add: TrimSpace_def TrimLeftSpace.simps)
  qed
qed

text \<open>\<open>strings.SplitN(s, sep, n)\<close> for a one-byte separator and \<open>n > 0\<close>.\<close>

fun SplitN :: "go_string \<Rightarrow> char \<Rightarrow> nat \<Rightarrow> go_string list" where
  "SplitN s c 0 = []"
| "SplitN s c (Suc 0) = [s]"
| "SplitN s c (Suc (Suc n)) =
     (case dropWhile (\<lambda>x. x \<noteq> c) s of
        [] \<Rightarrow> [s]
      | _ # rest \<Rightarrow> takeWhile (\<lambda>x. x \<noteq> c) s # SplitN rest c (Suc n))"

lemma SplitN_no_sep: "c \<notin> set s \<Longrightarrow> SplitN s c (Suc n) = [s]"
proof (cases n)
  case (Suc m)
  assume "c \<notin> set s"
  then have "dropWhile (\<lambda>x. x \<noteq> c) s = []" by (auto simp: dropWhile_eq_Nil_conv)
  with Suc show ?thesis by (simp del: dropWhile_eq_Nil_conv)
qed simp

lemma SplitN_sep: "c \<notin> set p \<Longrightarrow> SplitN (p @ c # q) c (Suc (Suc n)) = p # SplitN q c (Suc n)"
proof -
  assume "c \<notin> set p"
  then have "dropWhile (\<lambda>x. x \<noteq> c) (p @ c # q) = c # q" "takeWhile (\<lambda>x. x \<noteq> c) (p @ c # q) = p"
    by (induction p) auto
  then show ?thesis by simp
qed

text \<open>\<open>strings.Join\<close>, and the words of a text between blanks and line breaks.\<close>

fun strings_Join :: "go_string list \<Rightarrow> go_string \<Rightarrow> go_string" where
  "strings_Join [] sep = []"
| "strings_Join [s] sep = s"
| "strings_Join (s # t # ss) sep = s @ sep @ strings_Join (t # ss) sep"

definition is_blank :: "char \<Rightarrow> bool" where
  "is_blank c \<longleftrightarrow> c = CHR '' '' \<or> c = CHR 0x0A"

fun blank_split :: "go_string \<Rightarrow> go_string list" where
  "blank_split [] = [[]]"
| "blank_split (c # s) =
     (if is_blank c then [] # blank_split s
      else case blank_split s of w # ws \<Rightarrow> (c # w) # ws | [] \<Rightarrow> [[c]])"

definition text_words :: "go_string \<Rightarrow> go_string list" where
  "text_words s = filter (\<lambda>w. w \<noteq> []) (blank_split s)"

lemma blank_split_append: "is_blank c \<Longrightarrow> blank_split (s @ c # t) = blank_split s @ blank_split t"
proof (induction s)
  case (Cons a s)
  have "blank_split s \<noteq> []" by (cases s) (auto split: list.split)
  with Cons show ?case by (auto split: list.splits)
qed simp

lemma text_words_single:
  assumes "w \<noteq> []" and "\<forall>c \<in> set w. \<not> is_blank c"
  shows "text_words w = [w]"
proof -
  have "blank_split w = [w]" using assms(2) by (induction w) auto
  then show ?thesis using assms(1) by (simp add: text_words_def)
qed

lemma text_words_append: "is_blank c \<Longrightarrow> text_words (s @ c # t) = text_words s @ text_words t"
  by (simp add: text_words_def blank_split_append)

definition HasPrefix :: "go_string \<Rightarrow> go_string \<Rightarrow> bool" where
  "HasPrefix s p \<longleftrightarrow> length p \<le> length s \<and> take (length p) s = p"

lemma HasPrefix_append [simp]: "HasPrefix (p @ s) p"
  by (simp add: HasPrefix_def)

section \<open>Decimal numbers\<close>

definition digit_char :: "nat \<Rightarrow> char" where
  "digit_char d = char_of (48 + d)"

definition is_digit :: "char \<Rightarrow> bool" where
  "is_digit c \<longleftrightarrow> 48 \<le> byte c \<and> byte c \<le> 57"

fun nat_decimal :: "nat \<Rightarrow> go_string" where
  "nat_decimal n = (if n < 10 then [digit_char n] else nat_decimal (n div 10) @ [digit_char (n mod 10)])"

declare nat_decimal.simps [simp del]

text \<open>\<open>strconv.Itoa\<close> and the \<open>%d\<close> verb of \<open>fmt\<close>.\<close>

definition Itoa :: "int \<Rightarrow> go_string" where
  "Itoa i = (if i < 0 then CHR ''-'' # nat_decimal (nat (- i)) else nat_decimal (nat i))"

definition decimal_value :: "go_string \<Rightarrow> nat" where
  "decimal_value s = foldl (\<lambda>n c. n * 10 + (byte c - 48)) 0 s"

text \<open>\<open>strconv.Atoi\<close> on a 64-bit platform: an optional sign and at least one decimal digit,
  in the range of \<open>int64\<close>; anything else is an error.\<close>

definition Atoi :: "go_string \<Rightarrow> int option" where
  "Atoi s =
     (let (neg, ds) = (case s of [] \<Rightarrow> (False, [])
          | c # cs \<Rightarrow> if c = CHR ''-'' then (True, cs) else if c = CHR ''+'' then (False, cs)
                     else (False, c # cs))
      in if ds = [] \<or> \<not> list_all is_digit ds then None
         else let v = (if neg then - int (decimal_value ds) else int (decimal_value ds))
              in if - (2 ^ 63) \<le> v \<and> v < 2 ^ 63 then Some v else None)"

lemma is_digit_digit_char: "d < 10 \<Longrightarrow> is_digit (digit_char d)"
  by (simp add: digit_char_def is_digit_def)

lemma nat_decimal_digits: "list_all is_digit (nat_decimal n)"
  by (induction n rule: nat_decimal.induct)
    (subst nat_decimal.simps, simp add: is_digit_digit_char)

lemma nat_decimal_nonempty [simp]: "nat_decimal n \<noteq> []"
  by (subst nat_decimal.simps) simp

lemma decimal_value_nat_decimal: "decimal_value (nat_decimal n) = n"
proof (induction n rule: nat_decimal.induct)
  case (1 n)
  then show ?case
    by (subst nat_decimal.simps) (auto simp: decimal_value_def digit_char_def)
qed

lemma nat_decimal_hd: "nat_decimal n = c # cs \<Longrightarrow> c \<noteq> CHR ''-'' \<and> c \<noteq> CHR ''+''"
  using nat_decimal_digits [of n] by (auto simp: is_digit_def)

lemma Atoi_Itoa: "- (2 ^ 63) \<le> i \<Longrightarrow> i < 2 ^ 63 \<Longrightarrow> Atoi (Itoa i) = Some i"
  using nat_decimal_digits [of "nat i"] nat_decimal_digits [of "nat (- i)"]
    decimal_value_nat_decimal [of "nat i"] decimal_value_nat_decimal [of "nat (- i)"]
    nat_decimal_hd [of "nat i"]
  by (cases "nat_decimal (nat i)") (auto simp: Atoi_def Itoa_def)

lemma Itoa_not_blank: "c \<in> set (Itoa i) \<Longrightarrow> \<not> is_blank c"
  using nat_decimal_digits [of "nat i"] nat_decimal_digits [of "nat (- i)"]
  by (auto simp: Itoa_def is_digit_def is_blank_def list_all_iff split: if_splits)

end
