(* ===== verification/Go_Regexp.thy ===== *)
theory Go_Regexp
  imports Go_Text
begin

text \<open>
  The fragment of Go's \<open>regexp\<close> syntax that the dispatcher's two patterns use: literals and
  classes of runes, concatenation, the repetitions \<open>{m,n}\<close> and \<open>+\<close>, all between
  \<open>^\<close> and \<open>$\<close> (so a match is a match of the whole text). The matcher works by derivatives
  over the runes of the text and is proved equal to the language of the pattern.
\<close>

datatype rx =
    Zero
  | Eps
  | Class "nat \<Rightarrow> bool"
  | Alt rx rx
  | Conc rx rx
  | Star rx

fun nullable :: "rx \<Rightarrow> bool" where
  "nullable Zero = False"
| "nullable Eps = True"
| "nullable (Class p) = False"
| "nullable (Alt r s) = (nullable r \<or> nullable s)"
| "nullable (Conc r s) = (nullable r \<and> nullable s)"
| "nullable (Star r) = True"

fun deriv :: "nat \<Rightarrow> rx \<Rightarrow> rx" where
  "deriv c Zero = Zero"
| "deriv c Eps = Zero"
| "deriv c (Class p) = (if p c then Eps else Zero)"
| "deriv c (Alt r s) = Alt (deriv c r) (deriv c s)"
| "deriv c (Conc r s) =
     (if nullable r then Alt (Conc (deriv c r) s) (deriv c s) else Conc (deriv c r) s)"
| "deriv c (Star r) = Conc (deriv c r) (Star r)"

fun rx_match :: "rx \<Rightarrow> nat list \<Rightarrow> bool" where
  "rx_match r [] = nullable r"
| "rx_match r (c # w) = rx_match (deriv c r) w"

text \<open>The surface syntax, expanded as RE2 does.\<close>

definition Lit :: "nat \<Rightarrow> rx" where
  "Lit k = Class (\<lambda>c. c = k)"

fun Repeat :: "nat \<Rightarrow> nat \<Rightarrow> rx \<Rightarrow> rx" where
  "Repeat (Suc m) (Suc n) r = Conc r (Repeat m n r)"
| "Repeat 0 (Suc n) r = Alt Eps (Conc r (Repeat 0 n r))"
| "Repeat 0 0 r = Eps"
| "Repeat (Suc m) 0 r = Zero"

definition Plus :: "rx \<Rightarrow> rx" where
  "Plus r = Conc r (Star r)"

text \<open>The language of a pattern.\<close>

inductive_set star :: "nat list set \<Rightarrow> nat list set" for A where
  star_Nil: "[] \<in> star A"
| star_step: "u \<in> A \<Longrightarrow> v \<in> star A \<Longrightarrow> u @ v \<in> star A"

fun rx_lang :: "rx \<Rightarrow> nat list set" where
  "rx_lang Zero = {}"
| "rx_lang Eps = {[]}"
| "rx_lang (Class p) = {[c] |c. p c}"
| "rx_lang (Alt r s) = rx_lang r \<union> rx_lang s"
| "rx_lang (Conc r s) = {u @ v |u v. u \<in> rx_lang r \<and> v \<in> rx_lang s}"
| "rx_lang (Star r) = star (rx_lang r)"

lemma nullable_iff: "nullable r \<longleftrightarrow> [] \<in> rx_lang r"
  by (induction r) (auto intro: star_Nil)

lemma star_Cons:
  "c # w \<in> star A \<longleftrightarrow> (\<exists>u v. w = u @ v \<and> c # u \<in> A \<and> v \<in> star A)"
proof
  assume "c # w \<in> star A"
  then show "\<exists>u v. w = u @ v \<and> c # u \<in> A \<and> v \<in> star A"
  proof (induction "c # w" arbitrary: w)
    case (star_step u v)
    then show ?case by (cases u) auto
  qed
next
  assume "\<exists>u v. w = u @ v \<and> c # u \<in> A \<and> v \<in> star A"
  then obtain u v where "w = u @ v" "c # u \<in> A" "v \<in> star A" by blast
  with star_step [of "c # u" A v] show "c # w \<in> star A" by simp
qed

lemma deriv_lang: "w \<in> rx_lang (deriv c r) \<longleftrightarrow> c # w \<in> rx_lang r"
proof (induction r arbitrary: w)
  case (Conc r s)
  then show ?case by (auto simp: nullable_iff Cons_eq_append_conv)
next
  case (Star r)
  then show ?case by (auto simp: star_Cons)
qed auto

lemma rx_match_lang: "rx_match r w \<longleftrightarrow> w \<in> rx_lang r"
  by (induction w arbitrary: r) (simp_all add: nullable_iff deriv_lang)

declare rx_match.simps [simp del]

lemma split_single:
  "(\<exists>u v. w = u @ v \<and> (\<exists>c. u = [c] \<and> p c) \<and> Q v) \<longleftrightarrow> (\<exists>c v. w = c # v \<and> p c \<and> Q v)"
proof
  assume "\<exists>c v. w = c # v \<and> p c \<and> Q v"
  then obtain c v where "w = [c] @ v" "p c" "Q v" by auto
  then show "\<exists>u v. w = u @ v \<and> (\<exists>c. u = [c] \<and> p c) \<and> Q v" by blast
qed auto

lemma star_Class: "star {[c] |c. p c} = {w. \<forall>c \<in> set w. p c}"
proof (intro set_eqI iffI)
  fix w assume "w \<in> star {[c] |c. p c}"
  then show "w \<in> {w. \<forall>c \<in> set w. p c}" by induction auto
next
  fix w assume "w \<in> {w. \<forall>c \<in> set w. p c}"
  then show "w \<in> star {[c] |c. p c}"
  proof (induction w)
    case Nil
    show ?case by (rule star_Nil)
  next
    case (Cons c w)
    then show ?case using star_step [of "[c]" "{[c] |c. p c}" w] by auto
  qed
qed

lemma match_Class [simp]: "rx_match (Class p) w \<longleftrightarrow> (\<exists>c. w = [c] \<and> p c)"
  by (auto simp: rx_match_lang)

lemma match_Lit [simp]: "rx_match (Lit k) w \<longleftrightarrow> w = [k]"
  by (auto simp: Lit_def)

lemma match_Conc: "rx_match (Conc r s) w \<longleftrightarrow> (\<exists>u v. w = u @ v \<and> rx_match r u \<and> rx_match s v)"
  by (auto simp: rx_match_lang)

lemma match_ConcI: "rx_match r u \<Longrightarrow> rx_match s v \<Longrightarrow> rx_match (Conc r s) (u @ v)"
  by (auto simp: match_Conc)

lemma match_Class_Conc [simp]:
  "rx_match (Conc (Class p) s) w \<longleftrightarrow> (\<exists>c v. w = c # v \<and> p c \<and> rx_match s v)"
  by (simp add: match_Conc split_single)

lemma match_Plus_Class [simp]:
  "rx_match (Plus (Class p)) w \<longleftrightarrow> w \<noteq> [] \<and> (\<forall>c \<in> set w. p c)"
  by (cases w) (auto simp: Plus_def rx_match_lang [of "Star _"] star_Class)

lemma match_Repeat_Class:
  "rx_match (Repeat m n (Class p)) w \<longleftrightarrow> m \<le> length w \<and> length w \<le> n \<and> (\<forall>c \<in> set w. p c)"
proof (induction m n "Class p" arbitrary: w rule: Repeat.induct)
  case (1 m n)
  then show ?case by (cases w) auto
next
  case (2 n)
  have "rx_match (Repeat 0 (Suc n) (Class p)) w \<longleftrightarrow>
      w = [] \<or> rx_match (Conc (Class p) (Repeat 0 n (Class p))) w"
    by (simp only: rx_match_lang Repeat.simps) auto
  with 2 show ?case by (cases w) auto
next
  case 3
  then show ?case by (auto simp: rx_match_lang)
next
  case (4 m)
  then show ?case by (auto simp: rx_match_lang)
qed

end
