(* ===== verification/Domain.thy ===== *)
theory Domain
  imports Go_Strings Go_Regexp
begin

text \<open>
  \<open>internal/domain\<close>: channels, priorities and statuses (Go string types with named
  constants), the \<open>Notification\<close> struct and \<open>Notification.Validate\<close> with its two patterns.
\<close>

section \<open>notification.go\<close>

type_synonym Channel = go_string
type_synonym Priority = go_string
type_synonym Status = go_string

definition ChannelSMS :: Channel where [simp]: "ChannelSMS = ''sms''"
definition ChannelEmail :: Channel where [simp]: "ChannelEmail = ''email''"
definition ChannelPush :: Channel where [simp]: "ChannelPush = ''push''"

definition Channel_Valid :: "Channel \<Rightarrow> bool" where
  "Channel_Valid c = (if c = ChannelSMS \<or> c = ChannelEmail \<or> c = ChannelPush then True else False)"

definition PriorityHigh :: Priority where [simp]: "PriorityHigh = ''high''"
definition PriorityNormal :: Priority where [simp]: "PriorityNormal = ''normal''"
definition PriorityLow :: Priority where [simp]: "PriorityLow = ''low''"

definition Priority_Valid :: "Priority \<Rightarrow> bool" where
  "Priority_Valid p = (if p = PriorityHigh \<or> p = PriorityNormal \<or> p = PriorityLow then True else False)"

definition StatusPending :: Status where [simp]: "StatusPending = ''pending''"
definition StatusDelivered :: Status where [simp]: "StatusDelivered = ''delivered''"
definition StatusFailed :: Status where [simp]: "StatusFailed = ''failed''"
definition StatusCancelled :: Status where [simp]: "StatusCancelled = ''cancelled''"

definition Status_Valid :: "Status \<Rightarrow> bool" where
  "Status_Valid s =
     (if s = StatusPending \<or> s = StatusDelivered \<or> s = StatusFailed \<or> s = StatusCancelled
      then True else False)"

record Notification =
  n_ID :: uuid
  n_Recipient :: go_string
  n_Channel :: Channel
  n_Content :: go_string
  n_Priority :: Priority
  n_Status :: Status
  n_CorrelationID :: uuid
  n_BatchID :: "uuid option"
  n_IdempotencyKey :: "go_string option"
  n_CreatedAt :: time
  n_UpdatedAt :: time

text \<open>The zero value \<open>domain.Notification{}\<close>.\<close>

definition Notification_zero :: Notification where
  "Notification_zero =
     \<lparr>n_ID = 0, n_Recipient = [], n_Channel = [], n_Content = [], n_Priority = [], n_Status = [],
      n_CorrelationID = 0, n_BatchID = None, n_IdempotencyKey = None, n_CreatedAt = 0,
      n_UpdatedAt = 0\<rparr>"

section \<open>provider.go\<close>

definition ErrDeliveryFailed :: goerror where
  "ErrDeliveryFailed = ErrorNew ''domain.ErrDeliveryFailed'' ''delivery failed''"

section \<open>validation.go\<close>

definition MaxContentLength :: nat where
  "MaxContentLength = 500"

definition ErrRecipientRequired :: goerror where
  "ErrRecipientRequired = ErrorNew ''domain.ErrRecipientRequired'' ''recipient is required''"
definition ErrChannelInvalid :: goerror where
  "ErrChannelInvalid =
     ErrorNew ''domain.ErrChannelInvalid'' ''channel must be one of: sms, email, push''"
definition ErrContentRequired :: goerror where
  "ErrContentRequired = ErrorNew ''domain.ErrContentRequired'' ''content is required''"
definition ErrContentTooLong :: goerror where
  "ErrContentTooLong =
     ErrorNew ''domain.ErrContentTooLong''
       (''content exceeds '' @ Itoa (int MaxContentLength) @ '' characters'')"
definition ErrRecipientFormat :: goerror where
  "ErrRecipientFormat =
     ErrorNew ''domain.ErrRecipientFormat'' ''recipient format invalid for channel''"
definition ErrPriorityInvalid :: goerror where
  "ErrPriorityInvalid =
     ErrorNew ''domain.ErrPriorityInvalid'' ''priority must be one of: high, normal, low''"

text \<open>The pattern \<open>^\+[1-9]\d{7,14}$\<close>.\<close>

definition rx_digit :: "nat \<Rightarrow> bool" where
  "rx_digit r \<longleftrightarrow> 0x30 \<le> r \<and> r \<le> 0x39"

definition phoneRegex :: rx where
  "phoneRegex =
     Conc (Lit 0x2B) (Conc (Class (\<lambda>r. 0x31 \<le> r \<and> r \<le> 0x39)) (Repeat 7 14 (Class rx_digit)))"

text \<open>The pattern \<open>^[^@\s]+@[^@\s]+\.[^@\s]+$\<close>; RE2's \<open>\s\<close> is \<open>[\t\n\f\r ]\<close>.\<close>

definition rx_not_at_space :: "nat \<Rightarrow> bool" where
  "rx_not_at_space r \<longleftrightarrow> r \<noteq> 0x40 \<and> r \<noteq> 9 \<and> r \<noteq> 10 \<and> r \<noteq> 12 \<and> r \<noteq> 13 \<and> r \<noteq> 0x20"

definition emailRegex :: rx where
  "emailRegex =
     Conc (Plus (Class rx_not_at_space))
       (Conc (Lit 0x40)
         (Conc (Plus (Class rx_not_at_space))
           (Conc (Lit 0x2E) (Plus (Class rx_not_at_space)))))"

definition MatchString :: "rx \<Rightarrow> go_string \<Rightarrow> bool" where
  "MatchString r s = rx_match r (runes s)"

text \<open>The dash of the push message is \<open>U+2013\<close>, three bytes in the source.\<close>

definition en_dash :: go_string where
  "en_dash = [char_of (0xE2::nat), char_of (0x80::nat), char_of (0x93::nat)]"

definition validateRecipient :: "Channel \<Rightarrow> go_string \<Rightarrow> goerror option" where
  "validateRecipient ch recipient =
     (if ch = ChannelSMS then
        (if \<not> MatchString phoneRegex recipient
         then Some (ErrorWrap [] ErrRecipientFormat '': sms recipient must be E.164 (e.g. +905551234567)'')
         else None)
      else if ch = ChannelEmail then
        (if \<not> MatchString emailRegex recipient
         then Some (ErrorWrap [] ErrRecipientFormat '': email recipient must contain a valid address'')
         else None)
      else if ch = ChannelPush then
        (if length recipient < 8 \<or> length recipient > 4096
         then Some (ErrorWrap [] ErrRecipientFormat ('': push recipient must be 8'' @ en_dash @ ''4096 chars''))
         else None)
      else None)"

definition Validate :: "Notification \<Rightarrow> goerror option" where
  "Validate n =
     (if TrimSpace (n_Recipient n) = [] then Some ErrRecipientRequired
      else if \<not> Channel_Valid (n_Channel n) then Some ErrChannelInvalid
      else if TrimSpace (n_Content n) = [] then Some ErrContentRequired
      else if RuneCountInString (n_Content n) > MaxContentLength then Some ErrContentTooLong
      else if n_Priority n \<noteq> [] \<and> \<not> Priority_Valid (n_Priority n) then Some ErrPriorityInvalid
      else case validateRecipient (n_Channel n) (n_Recipient n) of
             Some err \<Rightarrow> Some err
           | None \<Rightarrow> None)"


section \<open>What validation accepts\<close>

text \<open>The phone pattern, read off the bytes: \<open>+\<close>, a non-zero digit, seven to fourteen digits.\<close>

definition is_E164 :: "go_string \<Rightarrow> bool" where
  "is_E164 s \<longleftrightarrow>
     (\<exists>d ds. s = CHR ''+'' # d # ds \<and> is_digit d \<and> d \<noteq> CHR ''0'' \<and> list_all is_digit ds
             \<and> 7 \<le> length ds \<and> length ds \<le> 14)"

lemma rx_digit_byte: "rx_digit (byte c) \<longleftrightarrow> is_digit c"
  by (simp add: rx_digit_def is_digit_def)

lemma byte_neq_48: "d \<noteq> CHR ''0'' \<longleftrightarrow> byte d \<noteq> 48"
  using char_eq_byte [of d "CHR ''0''"] by simp

lemma phoneRegex_match:
  "MatchString phoneRegex s \<longleftrightarrow> is_E164 s"
proof
  assume "MatchString phoneRegex s"
  then obtain r v where w: "runes s = 0x2B # r # v" "0x31 \<le> r" "r \<le> 0x39"
    "7 \<le> length v" "length v \<le> 14" "\<forall>c \<in> set v. rx_digit c"
    by (auto simp: MatchString_def phoneRegex_def Lit_def match_Repeat_Class)
  then have "\<forall>x \<in> set (runes s). x < 0x80" by (auto simp: rx_digit_def)
  then have "\<forall>c \<in> set s. byte c < 0x80" by (rule all_ascii_runes)
  then have "runes s = map byte s" by (rule runes_all_ascii)
  with w obtain c d ds where s: "s = c # d # ds" "byte c = 0x2B" "byte d = r" "map byte ds = v"
    by (auto simp: Cons_eq_map_conv)
  moreover have "c = CHR ''+''" using s(2) char_eq_byte [of c "CHR ''+''"] by simp
  moreover have "list_all is_digit ds"
    using w(6) s(4) by (auto simp: list_all_iff simp flip: rx_digit_byte)
  ultimately show "is_E164 s"
    using w by (auto simp: is_E164_def is_digit_def byte_neq_48)
next
  assume "is_E164 s"
  then obtain d ds where s: "s = CHR ''+'' # d # ds" "is_digit d" "byte d \<noteq> 48"
    "list_all is_digit ds" "7 \<le> length ds" "length ds \<le> 14"
    by (auto simp: is_E164_def byte_neq_48)
  then have "\<forall>c \<in> set s. byte c < 0x80" by (auto simp: is_digit_def list_all_iff)
  then have "runes s = map byte s" by (rule runes_all_ascii)
  with s show "MatchString phoneRegex s"
    by (auto simp: MatchString_def phoneRegex_def Lit_def match_Repeat_Class list_all_iff
        rx_digit_byte is_digit_def)
qed

text \<open>The email pattern, read off the bytes: a local part, one \<open>@\<close>, and a domain that a dot
  splits into two non-empty halves, with no further \<open>@\<close> and no ASCII white space.\<close>

definition plain_email_byte :: "char \<Rightarrow> bool" where
  "plain_email_byte c \<longleftrightarrow> rx_not_at_space (byte c)"

definition is_simple_email :: "go_string \<Rightarrow> bool" where
  "is_simple_email s \<longleftrightarrow>
     (\<exists>l d1 d2. s = l @ CHR ''@'' # d1 @ CHR ''.'' # d2 \<and> l \<noteq> [] \<and> d1 \<noteq> [] \<and> d2 \<noteq> []
        \<and> list_all plain_email_byte l \<and> list_all plain_email_byte d1 \<and> list_all plain_email_byte d2)"

lemma runes_not_at_space:
  "(\<forall>r \<in> set (runes s). rx_not_at_space r) \<longleftrightarrow> list_all plain_email_byte s"
proof -
  have "(\<exists>r \<in> set (runes s). \<not> rx_not_at_space r) \<longleftrightarrow> (\<exists>c \<in> set s. \<not> plain_email_byte c)"
  proof
    assume "\<exists>r \<in> set (runes s). \<not> rx_not_at_space r"
    then obtain r where r: "r \<in> set (runes s)" "\<not> rx_not_at_space r" by blast
    then have "r < 0x80" by (auto simp: rx_not_at_space_def)
    with r show "\<exists>c \<in> set s. \<not> plain_email_byte c"
      by (auto simp: set_runes_ascii plain_email_byte_def)
  next
    assume "\<exists>c \<in> set s. \<not> plain_email_byte c"
    then obtain c where c: "c \<in> set s" "\<not> rx_not_at_space (byte c)"
      by (auto simp: plain_email_byte_def)
    then have "byte c < 0x80" by (auto simp: rx_not_at_space_def)
    with c set_runes_ascii [of "byte c" s] show "\<exists>r \<in> set (runes s). \<not> rx_not_at_space r"
      by auto
  qed
  then show ?thesis by (auto simp: list_all_iff)
qed

lemma emailRegex_match:
  "MatchString emailRegex s \<longleftrightarrow> is_simple_email s"
proof
  assume "MatchString emailRegex s"
  then obtain a b c where w: "runes s = a @ 0x40 # b @ 0x2E # c" "a \<noteq> []" "b \<noteq> []" "c \<noteq> []"
    "\<forall>r \<in> set a. rx_not_at_space r" "\<forall>r \<in> set b. rx_not_at_space r" "\<forall>r \<in> set c. rx_not_at_space r"
    by (auto simp: MatchString_def emailRegex_def match_Conc Lit_def)
  from runes_split_ascii [OF w(1)] obtain l x t where
    s: "s = l @ x # t" "byte x = 0x40" "runes l = a" "runes t = b @ 0x2E # c" by auto
  from runes_split_ascii [OF s(4)] obtain d1 y d2 where
    t: "t = d1 @ y # d2" "byte y = 0x2E" "runes d1 = b" "runes d2 = c" by auto
  have "x = CHR ''@''" "y = CHR ''.''"
    using s(2) t(2) char_eq_byte [of x "CHR ''@''"] char_eq_byte [of y "CHR ''.''"] by simp_all
  then have "s = l @ CHR ''@'' # d1 @ CHR ''.'' # d2" using s t by simp
  moreover have "l \<noteq> []" "d1 \<noteq> []" "d2 \<noteq> []" using s t w by auto
  moreover have "list_all plain_email_byte l" "list_all plain_email_byte d1"
      "list_all plain_email_byte d2"
    using s t w by (simp_all flip: runes_not_at_space)
  ultimately show "is_simple_email s" unfolding is_simple_email_def by blast
next
  assume "is_simple_email s"
  then obtain l d1 d2 where s: "s = l @ CHR ''@'' # d1 @ CHR ''.'' # d2"
    and ne: "l \<noteq> []" "d1 \<noteq> []" "d2 \<noteq> []"
    and all: "list_all plain_email_byte l" "list_all plain_email_byte d1" "list_all plain_email_byte d2"
    by (auto simp: is_simple_email_def)
  have "runes s = runes l @ [0x40] @ runes d1 @ [0x2E] @ runes d2"
    unfolding s by (simp add: runes_append_ascii)
  moreover have "rx_match emailRegex (runes l @ [0x40] @ runes d1 @ [0x2E] @ runes d2)"
    unfolding emailRegex_def
    using ne all by (intro match_ConcI) (simp_all add: runes_not_at_space)
  ultimately show "MatchString emailRegex s" by (simp add: MatchString_def)
qed

text \<open>What an accepted recipient is, per channel.\<close>

fun recipient_ok :: "Channel \<Rightarrow> go_string \<Rightarrow> bool" where
  "recipient_ok ch r =
     (if ch = ChannelSMS then is_E164 r
      else if ch = ChannelEmail then is_simple_email r
      else 8 \<le> length r \<and> length r \<le> 4096)"

declare recipient_ok.simps [simp del]

lemma Channel_Valid_iff: "Channel_Valid c \<longleftrightarrow> c \<in> {''sms'', ''email'', ''push''}"
  by (simp add: Channel_Valid_def)

lemma Priority_Valid_iff: "Priority_Valid p \<longleftrightarrow> p \<in> {''high'', ''normal'', ''low''}"
  by (simp add: Priority_Valid_def)

lemma Status_Valid_iff:
  "Status_Valid s \<longleftrightarrow> s \<in> {''pending'', ''delivered'', ''failed'', ''cancelled''}"
  by (simp add: Status_Valid_def)

lemma validateRecipient_None:
  "Channel_Valid ch \<Longrightarrow> validateRecipient ch r = None \<longleftrightarrow> recipient_ok ch r"
  by (auto simp: validateRecipient_def recipient_ok.simps Channel_Valid_iff phoneRegex_match
      emailRegex_match)

lemma validateRecipient_Is:
  "validateRecipient ch r = Some e \<Longrightarrow> errors_Is e ErrRecipientFormat"
  by (auto simp: validateRecipient_def ErrRecipientFormat_def split: if_splits)

definition all_white :: "go_string \<Rightarrow> bool" where
  "all_white s \<longleftrightarrow> (\<forall>r \<in> set (runes s). unicode_IsSpace r)"

text \<open>A well-formed notification: what \<open>Validate\<close> is there to guarantee.\<close>

definition well_formed :: "Notification \<Rightarrow> bool" where
  "well_formed n \<longleftrightarrow>
     \<not> all_white (n_Recipient n) \<and> Channel_Valid (n_Channel n)
     \<and> \<not> all_white (n_Content n) \<and> length (runes (n_Content n)) \<le> 500
     \<and> (n_Priority n = [] \<or> Priority_Valid (n_Priority n))
     \<and> recipient_ok (n_Channel n) (n_Recipient n)"

lemma Validate_None_iff: "Validate n = None \<longleftrightarrow> well_formed n"
proof -
  have "validateRecipient (n_Channel n) (n_Recipient n) = None \<longleftrightarrow>
      recipient_ok (n_Channel n) (n_Recipient n)" if "Channel_Valid (n_Channel n)"
    using that by (rule validateRecipient_None)
  then show ?thesis
    by (auto simp: Validate_def well_formed_def all_white_def TrimSpace_empty_iff
        RuneCountInString_def MaxContentLength_def not_less
        simp del: not_None_eq split: option.splits)
qed

lemma Validate_channel: "Validate n = None \<Longrightarrow> Channel_Valid (n_Channel n)"
  by (simp add: Validate_None_iff well_formed_def)

lemma Validate_priority: "Validate n = None \<Longrightarrow> n_Priority n = [] \<or> Priority_Valid (n_Priority n)"
  by (simp add: Validate_None_iff well_formed_def)

end
