(* ===== verification/Json.thy ===== *)
theory Json
  imports Go_Strings
begin

text \<open>
  The part of Go's \<open>encoding/json\<close> that the message and request types use: the encoder for
  objects of string members (\<open>json.Marshal\<close>, HTML escaping included), the full syntax of
  JSON texts with Go's nesting limit, string unquoting with surrogates and replacement of
  malformed UTF-8, and decoding into structs with exact and case-folded field names. The
  encoder followed by the decoder gives every string back with malformed UTF-8 replaced
  (\<open>sanitize\<close>).
\<close>

datatype json =
    JNull
  | JBool bool
  | JNum go_string
  | JStr go_string
  | JArr "json list"
  | JObj "(go_string \<times> json) list"

section \<open>Strings\<close>

definition QUOTE :: char where [simp]: "QUOTE = CHR 0x22"
definition BACKSLASH :: char where [simp]: "BACKSLASH = CHR 0x5C"

definition hex_char :: "nat \<Rightarrow> char" where
  "hex_char d = (if d < 10 then char_of (48 + d) else char_of (87 + d))"

definition hex_value :: "char \<Rightarrow> nat option" where
  "hex_value c =
     (if 48 \<le> byte c \<and> byte c \<le> 57 then Some (byte c - 48)
      else if 97 \<le> byte c \<and> byte c \<le> 102 then Some (byte c - 87)
      else if 65 \<le> byte c \<and> byte c \<le> 70 then Some (byte c - 55)
      else None)"

text \<open>\<open>htmlSafeSet\<close>: ASCII bytes that \<open>json.Marshal\<close> copies.\<close>

definition htmlSafe :: "nat \<Rightarrow> bool" where
  "htmlSafe b \<longleftrightarrow> 0x20 \<le> b \<and> b < 0x80 \<and> b \<noteq> 0x22 \<and> b \<noteq> 0x5C \<and> b \<noteq> 0x3C \<and> b \<noteq> 0x3E \<and> b \<noteq> 0x26"

definition escape_ascii :: "nat \<Rightarrow> go_string" where
  "escape_ascii b =
     (if b = 0x22 \<or> b = 0x5C then [BACKSLASH, char_of b]
      else if b = 8 then [BACKSLASH, CHR ''b'']
      else if b = 12 then [BACKSLASH, CHR ''f'']
      else if b = 10 then [BACKSLASH, CHR ''n'']
      else if b = 13 then [BACKSLASH, CHR ''r'']
      else if b = 9 then [BACKSLASH, CHR ''t'']
      else [BACKSLASH, CHR ''u'', CHR ''0'', CHR ''0'', hex_char (b div 16), hex_char (b mod 16)])"

definition encode_chunk :: "nat \<times> go_string \<Rightarrow> go_string" where
  "encode_chunk c = (case c of (r, bs) \<Rightarrow>
     if r < 0x80 then (if htmlSafe r then bs else escape_ascii r)
     else if r = RuneError \<and> length bs = 1 then BACKSLASH # ''ufffd''
     else if r = 0x2028 then BACKSLASH # ''u2028''
     else if r = 0x2029 then BACKSLASH # ''u2029''
     else bs)"

definition encode_string :: "go_string \<Rightarrow> go_string" where
  "encode_string s = QUOTE # concat (map encode_chunk (rune_chunks s)) @ [QUOTE]"

definition getu4 :: "go_string \<Rightarrow> (nat \<times> go_string) option" where
  "getu4 s = (case s of
      a # b # c # d # rest \<Rightarrow>
        (case (hex_value a, hex_value b, hex_value c, hex_value d) of
           (Some w, Some x, Some y, Some z) \<Rightarrow> Some (w * 4096 + x * 256 + y * 16 + z, rest)
         | _ \<Rightarrow> None)
    | _ \<Rightarrow> None)"

definition is_surrogate :: "nat \<Rightarrow> bool" where
  "is_surrogate r \<longleftrightarrow> 0xD800 \<le> r \<and> r < 0xE000"

text \<open>A second \<open>\uXXXX\<close> that completes a surrogate pair, as \<open>utf16.DecodeRune\<close> accepts it.\<close>

definition low_surrogate :: "nat \<Rightarrow> go_string \<Rightarrow> (nat \<times> go_string) option" where
  "low_surrogate hi s = (case s of
      a # b # rest \<Rightarrow>
        if a = BACKSLASH \<and> b = CHR ''u'' \<and> hi < 0xDC00 then
          (case getu4 rest of
             Some (lo, rest') \<Rightarrow>
               if 0xDC00 \<le> lo \<and> lo < 0xE000
               then Some ((hi - 0xD800) * 1024 + (lo - 0xDC00) + 0x10000, rest') else None
           | None \<Rightarrow> None)
        else None
    | _ \<Rightarrow> None)"

definition simple_escape :: "char \<Rightarrow> char option" where
  "simple_escape e =
     (if e = QUOTE \<or> e = BACKSLASH \<or> e = CHR ''/'' then Some e
      else if e = CHR ''b'' then Some (CHR 0x08)
      else if e = CHR ''f'' then Some (CHR 0x0C)
      else if e = CHR ''n'' then Some (CHR 0x0A)
      else if e = CHR ''r'' then Some (CHR 0x0D)
      else if e = CHR ''t'' then Some (CHR 0x09)
      else None)"

lemma getu4_length: "getu4 s = Some (r, t) \<Longrightarrow> length t < length s"
  by (auto simp: getu4_def split: list.splits option.splits)

lemma low_surrogate_length: "low_surrogate hi s = Some (r, t) \<Longrightarrow> length t < length s"
  by (auto simp: low_surrogate_def split: list.splits option.splits if_splits dest!: getu4_length)

text \<open>\<open>unquote_body s\<close> reads a string literal behind its opening quote: the value and what
  follows the closing quote.\<close>

function unquote_body :: "go_string \<Rightarrow> (go_string \<times> go_string) option" where
  "unquote_body s = (case s of
     [] \<Rightarrow> None
   | c # t \<Rightarrow>
      if c = QUOTE then Some ([], t)
      else if c = BACKSLASH then
        (case t of
           [] \<Rightarrow> None
         | e # t' \<Rightarrow>
            if e = CHR ''u'' then
              (case getu4 t' of
                 None \<Rightarrow> None
               | Some (r, u) \<Rightarrow>
                  if is_surrogate r then
                    (case low_surrogate r u of
                       Some (r', u') \<Rightarrow> map_option (\<lambda>(v, x). (EncodeRune r' @ v, x)) (unquote_body u')
                     | None \<Rightarrow> map_option (\<lambda>(v, x). (EncodeRune RuneError @ v, x)) (unquote_body u))
                  else map_option (\<lambda>(v, x). (EncodeRune r @ v, x)) (unquote_body u))
            else (case simple_escape e of
                 None \<Rightarrow> None
               | Some b \<Rightarrow> map_option (\<lambda>(v, x). (b # v, x)) (unquote_body t')))
      else if byte c < 0x20 then None
      else map_option (\<lambda>(v, x). (EncodeRune (fst (DecodeRune s)) @ v, x))
             (unquote_body (drop (snd (DecodeRune s)) s)))"
  by pat_completeness auto
termination
proof (relation "measure length", goal_cases)
  case (6 s c t)
  then have "1 \<le> snd (DecodeRune s)" "length s > 0" using DecodeRune_width [of s] by auto
  then show ?case by simp
qed (auto dest!: getu4_length low_surrogate_length)

declare unquote_body.simps [simp del]

lemma unquote_body_shorter: "unquote_body s = Some (v, t) \<Longrightarrow> length t < length s"
proof (induction s arbitrary: v t rule: unquote_body.induct)
  case (1 s)
  show ?case
  proof (cases s)
    case Nil
    with 1(6) show ?thesis by (simp add: unquote_body.simps)
  next
    case (Cons c u)
    have w: "1 \<le> snd (DecodeRune s)" using DecodeRune_width [of s] Cons by simp
    from 1(6) show ?thesis
      using 1(1-5) Cons w
      by (subst (asm) unquote_body.simps)
        (fastforce split: if_splits list.splits option.splits prod.splits
          dest!: getu4_length low_surrogate_length)
  qed
qed


text \<open>A string with every malformed byte replaced by \<open>U+FFFD\<close>; well-formed UTF-8 is unchanged.\<close>

definition sanitize :: "go_string \<Rightarrow> go_string" where
  "sanitize s = concat (map EncodeRune (runes s))"

definition valid_utf8 :: "go_string \<Rightarrow> bool" where
  "valid_utf8 s \<longleftrightarrow> list_all (\<lambda>(r, bs). \<not> (r = RuneError \<and> length bs = 1)) (rune_chunks s)"

text \<open>What a chunk of \<open>rune_chunks\<close> can be.\<close>

definition chunk_ok :: "nat \<times> go_string \<Rightarrow> bool" where
  "chunk_ok c \<longleftrightarrow>
     snd c \<noteq> [] \<and> DecodeRune (snd c) = (fst c, length (snd c))"

lemma DecodeRune_take: "s \<noteq> [] \<Longrightarrow> DecodeRune (take (snd (DecodeRune s)) s) = DecodeRune s"
  by (cases s rule: DecodeRune_cases) (auto simp: DecodeRune_def)

lemma rune_chunks_ok: "list_all chunk_ok (rune_chunks s)"
proof (induction s rule: runes_induct)
  case (step s)
  have "chunk_ok (fst (DecodeRune s), take (snd (DecodeRune s)) s)"
    using DecodeRune_width [OF step.hyps] step.hyps
    by (simp add: chunk_ok_def DecodeRune_take)
  with step show ?case by (subst rune_chunks.simps) simp
qed (simp add: rune_chunks.simps)

lemma sanitize_valid: "valid_utf8 s \<Longrightarrow> sanitize s = s"
proof -
  assume v: "valid_utf8 s"
  have "EncodeRune (fst c) = snd c" if "c \<in> set (rune_chunks s)" for c
  proof -
    from that rune_chunks_ok have "chunk_ok c" by (auto simp: list_all_iff)
    moreover from that v have "\<not> (fst c = RuneError \<and> length (snd c) = 1)"
      by (auto simp: valid_utf8_def list_all_iff)
    ultimately show ?thesis
      using EncodeRune_DecodeRune [of "snd c" "fst c" "length (snd c)"] by (simp add: chunk_ok_def)
  qed
  then have "map EncodeRune (runes s) = map snd (rune_chunks s)"
    by (simp add: runes_def)
  then show ?thesis by (simp add: sanitize_def concat_rune_chunks)
qed

lemma rune_chunks_ascii:
  "\<forall>c \<in> set s. byte c < 0x80 \<Longrightarrow> rune_chunks s = map (\<lambda>c. (byte c, [c])) s"
  by (induction s) (simp_all add: rune_chunks.simps [of "_ # _"] rune_chunks.simps [of "[]"])

lemma valid_utf8_ascii: "\<forall>c \<in> set s. byte c < 0x80 \<Longrightarrow> valid_utf8 s"
  by (auto simp: valid_utf8_def rune_chunks_ascii list_all_iff)

lemma hex_value_char: "d < 16 \<Longrightarrow> hex_value (hex_char d) = Some d"
  by (auto simp: hex_value_def hex_char_def)

lemma getu4_00:
  "b < 256 \<Longrightarrow> getu4 (CHR ''0'' # CHR ''0'' # hex_char (b div 16) # hex_char (b mod 16) # t) = Some (b, t)"
proof -
  assume "b < 256"
  then have "hex_value (hex_char (b div 16)) = Some (b div 16)"
    "hex_value (hex_char (b mod 16)) = Some (b mod 16)" by (auto intro: hex_value_char)
  moreover have "hex_value CHR ''0'' = Some 0" by (simp add: hex_value_def)
  ultimately show ?thesis by (simp add: getu4_def)
qed

lemma EncodeRune_ascii [simp]: "r < 0x80 \<Longrightarrow> EncodeRune r = [char_of r]"
  by (simp add: EncodeRune_def)

lemma EncodeRune_byte [simp]: "byte c < 0x80 \<Longrightarrow> EncodeRune (byte c) = [c]"
  by simp

lemma char_of_controls [simp]:
  "char_of (8::nat) = CHR 0x08" "char_of (9::nat) = CHR 0x09" "char_of (10::nat) = CHR 0x0A"
  "char_of (12::nat) = CHR 0x0C" "char_of (13::nat) = CHR 0x0D" "char_of (0x22::nat) = CHR 0x22"
  "char_of (0x5C::nat) = CHR 0x5C"
  by (simp_all add: char_of_eq_iff)

lemma unquote_escape_ascii:
  assumes "b < 0x80" and "\<not> htmlSafe b" and "unquote_body t = Some (v, x)"
  shows "unquote_body (escape_ascii b @ t) = Some (EncodeRune b @ v, x)"
proof -
  have "unquote_body (BACKSLASH # CHR ''u'' # CHR ''0'' # CHR ''0'' # hex_char (b div 16)
          # hex_char (b mod 16) # t) = Some (EncodeRune b @ v, x)"
    using assms getu4_00 [of b t] by (subst unquote_body.simps) (simp add: is_surrogate_def)
  then show ?thesis
    using assms(3) by (auto simp: escape_ascii_def unquote_body.simps [of "_ # _"] simple_escape_def)
qed

lemma unquote_u2028:
  "unquote_body t = Some (v, x) \<Longrightarrow>
     unquote_body (BACKSLASH # ''u2028'' @ t) = Some (EncodeRune 0x2028 @ v, x)"
  "unquote_body t = Some (v, x) \<Longrightarrow>
     unquote_body (BACKSLASH # ''u2029'' @ t) = Some (EncodeRune 0x2029 @ v, x)"
  "unquote_body t = Some (v, x) \<Longrightarrow>
     unquote_body (BACKSLASH # ''ufffd'' @ t) = Some (EncodeRune RuneError @ v, x)"
  by (subst unquote_body.simps, simp add: getu4_def hex_value_def is_surrogate_def)+

lemma unquote_encode_chunk:
  assumes ok: "chunk_ok c" and t: "unquote_body t = Some (v, x)"
  shows "unquote_body (encode_chunk c @ t) = Some (EncodeRune (fst c) @ v, x)"
proof -
  obtain r bs where c: "c = (r, bs)" by fastforce
  with ok have bs: "bs \<noteq> []" "DecodeRune bs = (r, length bs)" by (auto simp: chunk_ok_def)
  show ?thesis
  proof (cases "r < 0x80")
    case True
    with bs have "fst (DecodeRune bs) < 0x80" by simp
    then obtain a rest where a': "bs = a # rest" "DecodeRune bs = (byte a, 1)"
      using DecodeRune_ascii_result bs(1) by blast
    with bs have a: "bs = [a]" "byte a = r" by simp_all
    show ?thesis
    proof (cases "htmlSafe r")
      case safe: True
      with a True have "a \<noteq> QUOTE" "a \<noteq> BACKSLASH" "\<not> byte a < 0x20"
        by (auto simp: htmlSafe_def)
      then show ?thesis
        using a True safe t c by (simp add: encode_chunk_def) (subst unquote_body.simps, simp)
    next
      case False
      then show ?thesis using c True t unquote_escape_ascii [of r t v x]
        by (simp add: encode_chunk_def)
    qed
  next
    case big: False
    show ?thesis
    proof (cases "r = RuneError \<and> length bs = 1")
      case True
      then show ?thesis using c t unquote_u2028(3) by (simp add: encode_chunk_def)
    next
      case valid: False
      then have d: "DecodeRune (bs @ t) = (r, length bs)"
        using DecodeRune_append_valid [of bs t] bs by auto
      obtain a bs' where a: "bs = a # bs'" using bs(1) by (cases bs) auto
      have "\<not> byte a < 0x80" using big bs(2) a by auto
      then have "a \<noteq> QUOTE" "a \<noteq> BACKSLASH" "\<not> byte a < 0x20" by auto
      then have "unquote_body (bs @ t) = Some (EncodeRune r @ v, x)"
        using d t a by (subst unquote_body.simps) simp
      moreover consider "r = 0x2028" | "r = 0x2029" | "r \<noteq> 0x2028" "r \<noteq> 0x2029" by blast
      ultimately show ?thesis
        using valid big c t unquote_u2028 by cases (auto simp: encode_chunk_def)
    qed
  qed
qed

theorem unquote_encode_string:
  "unquote_body (concat (map encode_chunk (rune_chunks s)) @ QUOTE # rest) = Some (sanitize s, rest)"
proof -
  have "unquote_body (concat (map encode_chunk cs) @ QUOTE # rest)
          = Some (concat (map (EncodeRune \<circ> fst) cs), rest)"
    if "list_all chunk_ok cs" for cs
    using that
  proof (induction cs)
    case Nil
    then show ?case by (subst unquote_body.simps) simp
  next
    case (Cons c cs)
    then show ?case using unquote_encode_chunk [of c] by simp
  qed
  from this [OF rune_chunks_ok] show ?thesis by (simp add: sanitize_def runes_def)
qed

section \<open>JSON texts\<close>

definition is_ws :: "char \<Rightarrow> bool" where
  "is_ws c \<longleftrightarrow> c = CHR '' '' \<or> c = CHR 0x09 \<or> c = CHR 0x0A \<or> c = CHR 0x0D"

definition skip_ws :: "go_string \<Rightarrow> go_string" where
  "skip_ws s = dropWhile is_ws s"

definition maxNestingDepth :: nat where
  "maxNestingDepth = 10000"

text \<open>Numbers: \<open>-? (0 | [1-9][0-9]*) (\.[0-9]+)? ([eE][+-]?[0-9]+)?\<close>; the value is the literal.\<close>

definition take_digits :: "go_string \<Rightarrow> (go_string \<times> go_string) option" where
  "take_digits s =
     (case takeWhile is_digit s of [] \<Rightarrow> None | ds \<Rightarrow> Some (ds, dropWhile is_digit s))"

definition number_int :: "go_string \<Rightarrow> (go_string \<times> go_string) option" where
  "number_int s = (case s of
      c # t \<Rightarrow> if c = CHR ''0'' then Some ([c], t) else take_digits s
    | [] \<Rightarrow> None)"

definition number_frac :: "go_string \<Rightarrow> (go_string \<times> go_string) option" where
  "number_frac s = (case s of
      c # t \<Rightarrow> if c = CHR ''.'' then map_option (\<lambda>(ds, u). (c # ds, u)) (take_digits t)
              else Some ([], s)
    | [] \<Rightarrow> Some ([], []))"

definition number_exp :: "go_string \<Rightarrow> (go_string \<times> go_string) option" where
  "number_exp s = (case s of
      c # t \<Rightarrow>
        if c = CHR ''e'' \<or> c = CHR ''E'' then
          (case t of
             g # u \<Rightarrow> if g = CHR ''+'' \<or> g = CHR ''-''
                     then map_option (\<lambda>(ds, w). (c # g # ds, w)) (take_digits u)
                     else map_option (\<lambda>(ds, w). (c # ds, w)) (take_digits t)
           | [] \<Rightarrow> None)
        else Some ([], s)
    | [] \<Rightarrow> Some ([], []))"

definition parse_number :: "go_string \<Rightarrow> (json \<times> go_string) option" where
  "parse_number s =
     (let (sign, t) = (case s of c # t \<Rightarrow> if c = CHR ''-'' then ([c], t) else ([], s) | [] \<Rightarrow> ([], []))
      in case number_int t of None \<Rightarrow> None
         | Some (i, u) \<Rightarrow>
           (case number_frac u of None \<Rightarrow> None
            | Some (f, w) \<Rightarrow>
              (case number_exp w of None \<Rightarrow> None
               | Some (e, x) \<Rightarrow> Some (JNum (sign @ i @ f @ e), x))))"

definition parse_literal :: "go_string \<Rightarrow> json \<Rightarrow> go_string \<Rightarrow> (json \<times> go_string) option" where
  "parse_literal lit v s = (if HasPrefix s lit then Some (v, drop (length lit) s) else None)"

text \<open>
  The value parser. \<open>n\<close> is fuel for the recursion, \<open>d\<close> what is left of the nesting limit.
  \<open>parse_elems\<close> and \<open>parse_members\<close> read what follows the opening bracket of a non-empty
  array or object, up to and including the closing one.
\<close>

fun parse_value :: "nat \<Rightarrow> nat \<Rightarrow> go_string \<Rightarrow> (json \<times> go_string) option"
and parse_elems :: "nat \<Rightarrow> nat \<Rightarrow> go_string \<Rightarrow> (json list \<times> go_string) option"
and parse_members :: "nat \<Rightarrow> nat \<Rightarrow> go_string \<Rightarrow> ((go_string \<times> json) list \<times> go_string) option"
where
  "parse_value 0 d s = None"
| "parse_value (Suc n) d s = (case skip_ws s of
     [] \<Rightarrow> None
   | c # t \<Rightarrow>
      if c = CHR ''{'' then
        (if d = 0 then None
         else case skip_ws t of
            [] \<Rightarrow> None
          | e # u \<Rightarrow> if e = CHR ''}'' then Some (JObj [], u)
                    else map_option (\<lambda>(ms, x). (JObj ms, x)) (parse_members n (d - 1) (e # u)))
      else if c = CHR ''['' then
        (if d = 0 then None
         else case skip_ws t of
            [] \<Rightarrow> None
          | e # u \<Rightarrow> if e = CHR '']'' then Some (JArr [], u)
                    else map_option (\<lambda>(vs, x). (JArr vs, x)) (parse_elems n (d - 1) (e # u)))
      else if c = QUOTE then map_option (\<lambda>(v, x). (JStr v, x)) (unquote_body t)
      else if c = CHR ''t'' then parse_literal ''true'' (JBool True) (c # t)
      else if c = CHR ''f'' then parse_literal ''false'' (JBool False) (c # t)
      else if c = CHR ''n'' then parse_literal ''null'' JNull (c # t)
      else parse_number (c # t))"
| "parse_elems 0 d s = None"
| "parse_elems (Suc n) d s = (case parse_value n d s of
     None \<Rightarrow> None
   | Some (v, t) \<Rightarrow>
      (case skip_ws t of
         [] \<Rightarrow> None
       | c # u \<Rightarrow> if c = CHR '','' then map_option (\<lambda>(vs, x). (v # vs, x)) (parse_elems n d u)
                 else if c = CHR '']'' then Some ([v], u)
                 else None))"
| "parse_members 0 d s = None"
| "parse_members (Suc n) d s = (case skip_ws s of
     [] \<Rightarrow> None
   | q # t \<Rightarrow>
      if q \<noteq> QUOTE then None
      else (case unquote_body t of
         None \<Rightarrow> None
       | Some (k, u) \<Rightarrow>
          (case skip_ws u of
             [] \<Rightarrow> None
           | c # w \<Rightarrow>
              if c \<noteq> CHR '':'' then None
              else (case parse_value n d w of
                 None \<Rightarrow> None
               | Some (v, x) \<Rightarrow>
                  (case skip_ws x of
                     [] \<Rightarrow> None
                   | e # y \<Rightarrow>
                      if e = CHR '','' then map_option (\<lambda>(ms, z). ((k, v) # ms, z)) (parse_members n d y)
                      else if e = CHR ''}'' then Some ([(k, v)], y)
                      else None)))))"

definition parse_prefix :: "go_string \<Rightarrow> (json \<times> go_string) option" where
  "parse_prefix s = parse_value (2 * length s) maxNestingDepth s"

text \<open>\<open>json.Unmarshal\<close> first checks that the whole input is one JSON value.\<close>

definition parse_json :: "go_string \<Rightarrow> json option" where
  "parse_json s = (case parse_prefix s of
      None \<Rightarrow> None
    | Some (v, t) \<Rightarrow> if skip_ws t = [] then Some v else None)"

lemma skip_ws_length: "length (skip_ws s) \<le> length s"
  by (simp add: skip_ws_def length_dropWhile_le)

lemma skip_ws_Cons_length: "skip_ws s = c # t \<Longrightarrow> length t < length s"
  using skip_ws_length [of s] by simp

lemma take_digits_length: "take_digits s = Some (ds, t) \<Longrightarrow> length t < length s"
proof -
  assume a: "take_digits s = Some (ds, t)"
  then have "takeWhile is_digit s \<noteq> []" "t = dropWhile is_digit s"
    by (auto simp: take_digits_def split: list.splits)
  moreover have "length s = length (takeWhile is_digit s) + length (dropWhile is_digit s)"
    by (metis length_append takeWhile_dropWhile_id)
  ultimately show ?thesis by simp
qed

lemma number_int_length: "number_int s = Some (ds, t) \<Longrightarrow> length t < length s"
  by (auto simp: number_int_def split: list.splits if_splits dest: take_digits_length)

lemma number_frac_length: "number_frac s = Some (ds, t) \<Longrightarrow> length t \<le> length s"
  by (fastforce simp: number_frac_def split: list.splits if_splits dest: take_digits_length)

lemma number_exp_length: "number_exp s = Some (ds, t) \<Longrightarrow> length t \<le> length s"
  by (fastforce simp: number_exp_def split: list.splits if_splits dest: take_digits_length)

lemma parse_number_length: "parse_number s = Some (v, t) \<Longrightarrow> length t < length s"
  by (fastforce simp: parse_number_def Let_def split: list.splits if_splits option.splits prod.splits
      dest!: number_int_length number_frac_length number_exp_length)

lemma parse_literal_length: "parse_literal l v s = Some (w, t) \<Longrightarrow> l \<noteq> [] \<Longrightarrow> length t < length s"
  by (cases s) (auto simp: parse_literal_def HasPrefix_def split: if_splits)

lemmas piece_lengths = parse_number_length parse_literal_length unquote_body_shorter
  skip_ws_Cons_length

text \<open>The parsers consume input, and more fuel never changes a result.\<close>


lemma parse_consumes:
  shows parse_value_consumes: "parse_value n d s = Some (v, t) \<Longrightarrow> length t < length s"
    and parse_elems_consumes: "parse_elems n d s = Some (vs, t) \<Longrightarrow> length t < length s"
    and parse_members_consumes: "parse_members n d s = Some (ms, t) \<Longrightarrow> length t < length s"
proof (induction n arbitrary: d s v t vs ms)
  case (Suc n)
  { case 1
    then show ?case
      by (auto split: list.splits if_splits simp del: QUOTE_def
          dest!: piece_lengths Suc.IH(2) Suc.IH(3)) }
  { case 2
    then show ?case
      by (auto split: list.splits if_splits option.splits simp del: QUOTE_def
          dest!: skip_ws_Cons_length Suc.IH(1) Suc.IH(2)) }
  { case 3
    then show ?case
      by (auto split: list.splits if_splits option.splits simp del: QUOTE_def
          dest!: skip_ws_Cons_length unquote_body_shorter Suc.IH(1) Suc.IH(3)) }
qed simp_all


lemma parse_fuel:
  shows parse_value_fuel:
      "parse_value n d s = Some (v, t) \<Longrightarrow> 2 * length s \<le> m \<Longrightarrow> parse_value m d s = Some (v, t)"
    and parse_elems_fuel:
      "parse_elems n d s = Some (vs, t) \<Longrightarrow> 2 * length s + 1 \<le> m \<Longrightarrow> parse_elems m d s = Some (vs, t)"
    and parse_members_fuel:
      "parse_members n d s = Some (ms, t) \<Longrightarrow> 2 * length s \<le> m \<Longrightarrow> parse_members m d s = Some (ms, t)"
proof (induction n arbitrary: m d s v t vs ms)
  case (Suc n)
  { case 1
    note P = 1(1)
    from 1 have "0 < length s" using parse_value_consumes by fastforce
    with 1(2) obtain k where m: "m = Suc k" by (cases m) auto
    from 1(1) obtain c u where s: "skip_ws s = c # u" by (auto split: list.splits)
    then have u: "2 * length u + 1 \<le> k" using m 1(2) skip_ws_Cons_length by fastforce
    have k: "2 * length (e # w) + 1 \<le> k" if "skip_ws u = e # w" for e w
      using u skip_ws_length [of u] that by simp
    consider "c = CHR ''{''" | "c = CHR ''[''" | "c \<noteq> CHR ''{''" "c \<noteq> CHR ''[''" by blast
    then show ?case
    proof cases
      case 1
      with P s obtain e w where e: "skip_ws u = e # w" and d: "d \<noteq> 0"
        by (auto split: list.splits if_splits)
      show ?thesis
      proof (cases "e = CHR ''}''")
        case False
        with P s e d 1 obtain ms where "parse_members n (d - 1) (e # w) = Some (ms, t)"
          "v = JObj ms" by auto
        with Suc.IH(3) [OF this(1), of k] k [OF e] False s e d 1 m show ?thesis by simp
      qed (use P s e d 1 m in simp)
    next
      case 2
      with P s obtain e w where e: "skip_ws u = e # w" and d: "d \<noteq> 0"
        by (auto split: list.splits if_splits)
      show ?thesis
      proof (cases "e = CHR '']''")
        case False
        with P s e d 2 obtain vs where "parse_elems n (d - 1) (e # w) = Some (vs, t)"
          "v = JArr vs" by auto
        with Suc.IH(2) [OF this(1), of k] k [OF e] False s e d 2 m show ?thesis by simp
      qed (use P s e d 2 m in simp)
    next
      case 3
      with P s m show ?thesis by simp
    qed }
  { case 2
    then obtain k where m: "m = Suc k" by (cases m) auto
    from 2(1) obtain x y where xy: "parse_value n d s = Some (x, y)"
      by (auto split: option.splits)
    then have k: "parse_value k d s = Some (x, y)" using Suc.IH(1) [OF xy] 2(2) m by simp
    from 2(1) xy obtain c u where y: "skip_ws y = c # u" by (auto split: list.splits)
    have u: "2 * length u + 1 \<le> k"
      using parse_value_consumes [OF xy] m 2(2) skip_ws_Cons_length [OF y] by simp
    show ?case
    proof (cases "c = CHR '',''")
      case True
      with 2(1) xy y obtain ws where "parse_elems n d u = Some (ws, t)" "vs = x # ws" by auto
      with Suc.IH(2) [OF this(1) u] True k y m show ?thesis by simp
    qed (use 2(1) xy y k m in \<open>simp split: if_splits\<close>) }
  { case 3
    then have "0 < length s" using parse_members_consumes by fastforce
    with 3(2) obtain k where m: "m = Suc k" by (cases m) auto
    from 3(1) obtain q a where s: "skip_ws s = q # a" "q = QUOTE"
      by (auto split: list.splits if_splits)
    from 3(1) s obtain key b where key: "unquote_body a = Some (key, b)"
      by (auto split: option.splits)
    from 3(1) s key obtain c w where b: "skip_ws b = c # w" "c = CHR '':''"
      by (auto split: list.splits if_splits)
    from 3(1) s key b obtain x y where xy: "parse_value n d w = Some (x, y)"
      by (auto split: option.splits)
    from 3(1) s key b xy obtain e z where y: "skip_ws y = e # z" by (auto split: list.splits)
    have w: "2 * length w + 2 \<le> k"
      using m 3(2) skip_ws_Cons_length [OF s(1)] unquote_body_shorter [OF key]
        skip_ws_Cons_length [OF b(1)] by simp
    then have k: "parse_value k d w = Some (x, y)" using Suc.IH(1) [OF xy] by simp
    have z: "2 * length z \<le> k"
      using w parse_value_consumes [OF xy] skip_ws_Cons_length [OF y] by simp
    show ?case
    proof (cases "e = CHR '',''")
      case True
      with 3(1) s key b xy y obtain ns where "parse_members n d z = Some (ns, t)"
        "ms = (key, x) # ns" by auto
      with Suc.IH(3) [OF this(1) z] True k y m s key b show ?thesis by simp
    qed (use 3(1) s key b xy y k m in \<open>simp split: if_splits\<close>) }
qed simp_all

lemma parse_prefix_any_fuel: "parse_value n maxNestingDepth s = Some r \<Longrightarrow> parse_prefix s = Some r"
  using parse_value_fuel [of n maxNestingDepth s "fst r" "snd r"] by (simp add: parse_prefix_def)

section \<open>Objects of strings\<close>

text \<open>\<open>json.Marshal\<close> of a struct whose members are all strings.\<close>

fun encode_members :: "(go_string \<times> go_string) list \<Rightarrow> go_string" where
  "encode_members [] = []"
| "encode_members [(k, v)] = encode_string k @ CHR '':'' # encode_string v"
| "encode_members ((k, v) # m # ms) =
     encode_string k @ CHR '':'' # encode_string v @ CHR '','' # encode_members (m # ms)"

definition encode_object :: "(go_string \<times> go_string) list \<Rightarrow> go_string" where
  "encode_object ms = CHR ''{'' # encode_members ms @ ''}''"

lemma skip_ws_Cons [simp]: "\<not> is_ws c \<Longrightarrow> skip_ws (c # s) = c # s"
  by (simp add: skip_ws_def)

lemma not_ws [simp]:
  "\<not> is_ws CHR 0x22" "\<not> is_ws CHR '':''" "\<not> is_ws CHR '',''" "\<not> is_ws CHR ''}''" "\<not> is_ws CHR ''{''"
  by (simp_all add: is_ws_def)

lemma parse_value_string:
  "parse_value (Suc n) d (encode_string s @ t) = Some (JStr (sanitize s), t)"
  using unquote_encode_string [of s t] by (simp add: encode_string_def)

lemma parse_encoded_members:
  "ms \<noteq> [] \<Longrightarrow> 2 * length ms \<le> n \<Longrightarrow>
   parse_members n d (encode_members ms @ CHR ''}'' # t)
     = Some (map (\<lambda>(k, v). (sanitize k, JStr (sanitize v))) ms, t)"
proof (induction ms arbitrary: n rule: encode_members.induct)
  case (2 k v)
  then obtain j where "n = Suc (Suc j)" by (cases n; cases "n - 1") auto
  then show ?case
    using unquote_encode_string [of k "CHR '':'' # encode_string v @ CHR ''}'' # t"]
      parse_value_string [of j d v "CHR ''}'' # t"]
    by (simp add: encode_string_def del: parse_value.simps(2))
next
  case (3 k v m ms)
  then obtain j where "n = Suc (Suc j)" by (cases n; cases "n - 1") auto
  moreover from 3 calculation have "parse_members (Suc j) d (encode_members (m # ms) @ CHR ''}'' # t)
     = Some (map (\<lambda>(k, v). (sanitize k, JStr (sanitize v))) (m # ms), t)"
    by (intro 3) auto
  ultimately show ?case
    using unquote_encode_string
        [of k "CHR '':'' # encode_string v @ CHR '','' # encode_members (m # ms) @ CHR ''}'' # t"]
      parse_value_string [of j d v "CHR '','' # encode_members (m # ms) @ CHR ''}'' # t"]
    by (simp add: encode_string_def del: parse_value.simps(2) parse_members.simps(2) 
         add: parse_members.simps(2) [of "Suc j" d "CHR 0x22 # _"])
qed simp

lemma encode_members_hd: "ms \<noteq> [] \<Longrightarrow> \<exists>u. encode_members ms @ t = QUOTE # u"
  by (cases ms rule: encode_members.cases) (simp_all add: encode_string_def)

theorem parse_encode_object:
  assumes "ms \<noteq> []"
  shows "parse_json (encode_object ms) = Some (JObj (map (\<lambda>(k, v). (sanitize k, JStr (sanitize v))) ms))"
proof -
  let ?r = "Some (JObj (map (\<lambda>(k, v). (sanitize k, JStr (sanitize v))) ms), [])"
  obtain u where u: "encode_members ms @ ''}'' = QUOTE # u" using encode_members_hd assms by blast
  have "parse_members (2 * length ms) (maxNestingDepth - 1) (QUOTE # u)
     = Some (map (\<lambda>(k, v). (sanitize k, JStr (sanitize v))) ms, [])"
    using parse_encoded_members [OF assms order_refl, of "maxNestingDepth - 1" "[]"] u by simp
  then have "parse_value (Suc (2 * length ms)) maxNestingDepth (encode_object ms) = ?r"
    by (simp add: encode_object_def u maxNestingDepth_def del: parse_members.simps)
  then have "parse_prefix (encode_object ms) = ?r" by (rule parse_prefix_any_fuel)
  then show ?thesis by (simp add: parse_json_def skip_ws_def)
qed

section \<open>Decoding into structs\<close>

text \<open>
  \<open>foldName\<close>: the key with each rune folded to the smallest of its case orbit; the only
  orbits that meet ASCII letters beyond the two cases are those of \<open>U+017F\<close> and
  \<open>U+212A\<close>. A member is stored in the field of exactly its name, else in the first field
  whose folded name it has, else it is ignored. A member whose value does not fit its field
  makes \<open>Unmarshal\<close> return an error; \<open>null\<close> leaves a field as it is.
\<close>

definition fold_rune :: "nat \<Rightarrow> nat" where
  "fold_rune r =
     (if 97 \<le> r \<and> r \<le> 122 then r - 32
      else if r = 0x17F then 0x53
      else if r = 0x212A then 0x4B
      else r)"

definition fold_name :: "go_string \<Rightarrow> nat list" where
  "fold_name s = map fold_rune (runes s)"

type_synonym 'a fields = "(go_string \<times> ('a \<Rightarrow> json \<Rightarrow> 'a option)) list"

definition find_field :: "'a fields \<Rightarrow> go_string \<Rightarrow> ('a \<Rightarrow> json \<Rightarrow> 'a option) option" where
  "find_field fs k =
     (case map_of fs k of
        Some f \<Rightarrow> Some f
      | None \<Rightarrow> map_option snd (find (\<lambda>f. fold_name (fst f) = fold_name k) fs))"

fun decode_members :: "'a fields \<Rightarrow> 'a \<Rightarrow> (go_string \<times> json) list \<Rightarrow> 'a option" where
  "decode_members fs x [] = Some x"
| "decode_members fs x ((k, v) # ms) =
     (case find_field fs k of
        None \<Rightarrow> decode_members fs x ms
      | Some f \<Rightarrow> (case f x v of None \<Rightarrow> None | Some x' \<Rightarrow> decode_members fs x' ms))"

definition decode_struct :: "'a fields \<Rightarrow> 'a \<Rightarrow> json \<Rightarrow> 'a option" where
  "decode_struct fs x v = (case v of
      JNull \<Rightarrow> Some x
    | JObj ms \<Rightarrow> decode_members fs x ms
    | _ \<Rightarrow> None)"

definition string_field :: "(go_string \<Rightarrow> 'a \<Rightarrow> 'a) \<Rightarrow> 'a \<Rightarrow> json \<Rightarrow> 'a option" where
  "string_field upd x v = (case v of JNull \<Rightarrow> Some x | JStr s \<Rightarrow> Some (upd s x) | _ \<Rightarrow> None)"

text \<open>A field whose type implements \<open>encoding.TextUnmarshaler\<close>.\<close>

definition text_field ::
  "(go_string \<Rightarrow> 't option) \<Rightarrow> ('t \<Rightarrow> 'a \<Rightarrow> 'a) \<Rightarrow> 'a \<Rightarrow> json \<Rightarrow> 'a option" where
  "text_field parse upd x v = (case v of
      JNull \<Rightarrow> Some x
    | JStr s \<Rightarrow> map_option (\<lambda>t. upd t x) (parse s)
    | _ \<Rightarrow> None)"

lemma find_field_exact [simp]: "map_of fs k = Some f \<Longrightarrow> find_field fs k = Some f"
  by (simp add: find_field_def)

end
