(* ===== verification/Message.thy ===== *)
theory Message
  imports Domain Json
begin

text \<open>
  \<open>internal/app/message.go\<close>: the wire format between API and worker, its conversions, its
  JSON encoding and decoding, and the routing key. \<open>google/uuid\<close> is a parameter: a printer
  and a parser, of which the code relies on what \<open>uuid_lib_ok\<close> states.
\<close>

section \<open>The uuid library\<close>

record uuid_lib =
  uuid_String :: "uuid \<Rightarrow> go_string"
  uuid_Parse :: "go_string \<Rightarrow> uuid option"

definition ascii :: "go_string \<Rightarrow> bool" where
  "ascii s \<longleftrightarrow> (\<forall>c \<in> set s. byte c < 0x80)"

definition uuid_lib_ok :: "uuid_lib \<Rightarrow> bool" where
  "uuid_lib_ok U \<longleftrightarrow>
     (\<forall>u. ascii (uuid_String U u)) \<and> (\<forall>u. uuid_Parse U (uuid_String U u) = Some u)"

section \<open>The message\<close>

record NotificationMessage =
  m_ID :: uuid
  m_Recipient :: go_string
  m_Channel :: Channel
  m_Content :: go_string
  m_Priority :: Priority
  m_CorrelationID :: uuid

definition NotificationMessage_zero :: NotificationMessage where
  "NotificationMessage_zero =
     \<lparr>m_ID = 0, m_Recipient = [], m_Channel = [], m_Content = [], m_Priority = [],
      m_CorrelationID = 0\<rparr>"

definition MessageFrom :: "Notification \<Rightarrow> NotificationMessage" where
  "MessageFrom n =
     \<lparr>m_ID = n_ID n,
      m_Recipient = n_Recipient n,
      m_Channel = n_Channel n,
      m_Content = n_Content n,
      m_Priority = n_Priority n,
      m_CorrelationID = n_CorrelationID n\<rparr>"

definition ToNotification :: "NotificationMessage \<Rightarrow> Notification" where
  "ToNotification m =
     Notification_zero
       \<lparr>n_ID := m_ID m,
        n_Recipient := m_Recipient m,
        n_Channel := m_Channel m,
        n_Content := m_Content m,
        n_Priority := m_Priority m,
        n_CorrelationID := m_CorrelationID m\<rparr>"

definition RoutingKey :: "Channel \<Rightarrow> Priority \<Rightarrow> go_string" where
  "RoutingKey channel priority =
     (let priority = (if priority = [] then PriorityNormal else priority)
      in channel @ ''.'' @ priority)"

section \<open>JSON\<close>

text \<open>\<open>json.Marshal\<close> and \<open>json.Unmarshal\<close> with the struct tags of \<open>NotificationMessage\<close>.\<close>

definition message_members :: "uuid_lib \<Rightarrow> NotificationMessage \<Rightarrow> (go_string \<times> go_string) list" where
  "message_members U m =
     [(''id'', uuid_String U (m_ID m)),
      (''recipient'', m_Recipient m),
      (''channel'', m_Channel m),
      (''content'', m_Content m),
      (''priority'', m_Priority m),
      (''correlation_id'', uuid_String U (m_CorrelationID m))]"

definition Marshal :: "uuid_lib \<Rightarrow> NotificationMessage \<Rightarrow> go_string" where
  "Marshal U m = encode_object (message_members U m)"

definition message_fields :: "uuid_lib \<Rightarrow> NotificationMessage fields" where
  "message_fields U =
     [(''id'', text_field (uuid_Parse U) (\<lambda>u m. m\<lparr>m_ID := u\<rparr>)),
      (''recipient'', string_field (\<lambda>s m. m\<lparr>m_Recipient := s\<rparr>)),
      (''channel'', string_field (\<lambda>s m. m\<lparr>m_Channel := s\<rparr>)),
      (''content'', string_field (\<lambda>s m. m\<lparr>m_Content := s\<rparr>)),
      (''priority'', string_field (\<lambda>s m. m\<lparr>m_Priority := s\<rparr>)),
      (''correlation_id'', text_field (uuid_Parse U) (\<lambda>u m. m\<lparr>m_CorrelationID := u\<rparr>))]"

definition Unmarshal :: "uuid_lib \<Rightarrow> go_string \<Rightarrow> NotificationMessage option" where
  "Unmarshal U body = (case parse_json body of
      None \<Rightarrow> None
    | Some v \<Rightarrow> decode_struct (message_fields U) NotificationMessage_zero v)"

definition sanitize_message :: "NotificationMessage \<Rightarrow> NotificationMessage" where
  "sanitize_message m =
     m\<lparr>m_Recipient := sanitize (m_Recipient m), m_Channel := sanitize (m_Channel m),
       m_Content := sanitize (m_Content m), m_Priority := sanitize (m_Priority m)\<rparr>"

lemma sanitize_ascii: "ascii s \<Longrightarrow> sanitize s = s"
  by (simp add: ascii_def sanitize_valid valid_utf8_ascii)

lemma sanitize_concrete_keys [simp]:
  "sanitize ''id'' = ''id''" "sanitize ''recipient'' = ''recipient''"
  "sanitize ''channel'' = ''channel''" "sanitize ''content'' = ''content''"
  "sanitize ''priority'' = ''priority''" "sanitize ''correlation_id'' = ''correlation_id''"
  by (simp_all add: sanitize_ascii ascii_def)

lemma Unmarshal_Marshal:
  assumes "uuid_lib_ok U"
  shows "Unmarshal U (Marshal U m) = Some (sanitize_message m)"
proof -
  have u: "sanitize (uuid_String U x) = uuid_String U x" "uuid_Parse U (uuid_String U x) = Some x" for x
    using assms by (auto simp: uuid_lib_ok_def sanitize_ascii)
  have "parse_json (Marshal U m)
      = Some (JObj (map (\<lambda>(k, v). (sanitize k, JStr (sanitize v))) (message_members U m)))"
    unfolding Marshal_def by (rule parse_encode_object) (simp add: message_members_def)
  then show ?thesis
    by (simp add: Unmarshal_def message_members_def decode_struct_def message_fields_def
        string_field_def text_field_def u sanitize_message_def NotificationMessage_zero_def)
qed

text \<open>Fields of a validated notification that are plain ASCII survive unchanged.\<close>

lemma ascii_valid_channel: "Channel_Valid c \<Longrightarrow> ascii c"
  by (auto simp: Channel_Valid_iff ascii_def)

lemma ascii_valid_priority: "Priority_Valid p \<Longrightarrow> ascii p"
  by (auto simp: Priority_Valid_iff ascii_def)

lemma sanitize_message_valid:
  assumes "valid_utf8 (m_Recipient m)" and "valid_utf8 (m_Content m)"
    and "Channel_Valid (m_Channel m)" and "Priority_Valid (m_Priority m)"
  shows "sanitize_message m = m"
  using assms
  by (simp add: sanitize_message_def sanitize_valid sanitize_ascii ascii_valid_channel
      ascii_valid_priority)

text \<open>A uuid library that meets the contract: one binary digit for each bit.\<close>

definition binary_uuid :: uuid_lib where
  "binary_uuid =
     \<lparr>uuid_String = (\<lambda>u. map (\<lambda>i. if bit u i then CHR ''1'' else CHR ''0'') [0..<128]),
      uuid_Parse = (\<lambda>s. Some (horner_sum of_bool 2 (map ((=) CHR ''1'') s)))\<rparr>"

lemma binary_uuid_ok: "uuid_lib_ok binary_uuid"
proof -
  have "horner_sum of_bool 2 (map ((=) CHR ''1'' \<circ> (\<lambda>i. if bit u i then CHR ''1'' else CHR ''0'')) [0..<128])
      = u" for u :: uuid
  proof -
    have "((=) CHR ''1'' \<circ> (\<lambda>i. if bit u i then CHR ''1'' else CHR ''0'')) = bit u" by (simp add: fun_eq_iff)
    then show ?thesis by (simp add: horner_sum_bit_eq_take_bit take_bit_word_eq_self)
  qed
  then show ?thesis by (auto simp: uuid_lib_ok_def binary_uuid_def ascii_def)
qed

end
