(* ===== verification/Metrics.thy ===== *)
theory Metrics
  imports Go_Strings
begin

text \<open>
  \<open>internal/platform/metrics\<close>: the Prometheus collectors with their names and label names,
  the operations the code performs on them, and the state of a registry. Observed durations
  are clock readings and are not modelled: an observation carries its labels only.
\<close>

datatype collector =
    HTTPRequestsTotal
  | HTTPRequestDuration
  | HTTPRequestsInFlight
  | NotificationsEnqueued
  | RateLimitRejected
  | NotificationsDelivered
  | NotificationsRetried
  | NotificationsDLQ
  | DeliveryDuration
  | NotificationsInFlight
  | CircuitBreakerState
  | ConsumerRestarts

text \<open>\<open>Name\<close> and the label names of each collector, as \<open>New\<close> constructs them.\<close>

fun collector_name :: "collector \<Rightarrow> go_string" where
  "collector_name HTTPRequestsTotal = ''http_requests_total''"
| "collector_name HTTPRequestDuration = ''http_request_duration_seconds''"
| "collector_name HTTPRequestsInFlight = ''http_requests_in_flight''"
| "collector_name NotificationsEnqueued = ''notifications_enqueued_total''"
| "collector_name RateLimitRejected = ''rate_limit_rejected_total''"
| "collector_name NotificationsDelivered = ''notifications_delivered_total''"
| "collector_name NotificationsRetried = ''notifications_retried_total''"
| "collector_name NotificationsDLQ = ''notifications_dlq_total''"
| "collector_name DeliveryDuration = ''notification_delivery_duration_seconds''"
| "collector_name NotificationsInFlight = ''notifications_in_flight''"
| "collector_name CircuitBreakerState = ''circuit_breaker_state''"
| "collector_name ConsumerRestarts = ''consumer_restarts_total''"

fun collector_labels :: "collector \<Rightarrow> go_string list" where
  "collector_labels HTTPRequestsTotal = [''method'', ''route'', ''status'']"
| "collector_labels HTTPRequestDuration = [''method'', ''route'']"
| "collector_labels HTTPRequestsInFlight = []"
| "collector_labels NotificationsEnqueued = [''channel'', ''priority'']"
| "collector_labels RateLimitRejected = [''channel'']"
| "collector_labels NotificationsDelivered = [''channel'', ''outcome'']"
| "collector_labels NotificationsRetried = [''channel'', ''next_attempt'']"
| "collector_labels NotificationsDLQ = [''channel'', ''reason'']"
| "collector_labels DeliveryDuration = [''channel'', ''outcome'']"
| "collector_labels NotificationsInFlight = []"
| "collector_labels CircuitBreakerState = [''channel'']"
| "collector_labels ConsumerRestarts = [''queue'']"

text \<open>The collectors that \<open>New\<close> registers, in the order of \<open>MustRegister\<close>; registering two
  collectors of one name panics.\<close>

definition registered :: "collector list" where
  "registered =
     [HTTPRequestsTotal, HTTPRequestDuration, HTTPRequestsInFlight, NotificationsEnqueued,
      RateLimitRejected, NotificationsDelivered, NotificationsRetried, NotificationsDLQ,
      DeliveryDuration, NotificationsInFlight, CircuitBreakerState, ConsumerRestarts]"

fun MustRegister_all :: "go_string list \<Rightarrow> collector list \<Rightarrow> go_string list option" where
  "MustRegister_all names [] = Some names"
| "MustRegister_all names (c # cs) =
     (if collector_name c \<in> set names then None
      else MustRegister_all (names @ [collector_name c]) cs)"

text \<open>What the code does with a collector. \<open>WithLabelValues\<close> panics when the number of values
  is not the number of label names.\<close>

datatype metric_op =
    MInc collector "go_string list"
  | MDec collector "go_string list"
  | MObserve collector "go_string list"
  | MSet collector "go_string list" int

fun op_collector :: "metric_op \<Rightarrow> collector" where
  "op_collector (MInc c ls) = c"
| "op_collector (MDec c ls) = c"
| "op_collector (MObserve c ls) = c"
| "op_collector (MSet c ls v) = c"

fun op_labels :: "metric_op \<Rightarrow> go_string list" where
  "op_labels (MInc c ls) = ls"
| "op_labels (MDec c ls) = ls"
| "op_labels (MObserve c ls) = ls"
| "op_labels (MSet c ls v) = ls"

definition op_ok :: "metric_op \<Rightarrow> bool" where
  "op_ok m \<longleftrightarrow> length (op_labels m) = length (collector_labels (op_collector m))"

text \<open>A registry: the value of every series (for a histogram, its count).\<close>

type_synonym registry = "collector \<times> go_string list \<Rightarrow> int"

definition empty_registry :: registry where
  "empty_registry = (\<lambda>_. 0)"

fun apply_op :: "metric_op \<Rightarrow> registry \<Rightarrow> registry" where
  "apply_op (MInc c ls) r = r((c, ls) := r (c, ls) + 1)"
| "apply_op (MDec c ls) r = r((c, ls) := r (c, ls) - 1)"
| "apply_op (MObserve c ls) r = r((c, ls) := r (c, ls) + 1)"
| "apply_op (MSet c ls v) r = r((c, ls) := v)"

lemma registered_all: "set registered = UNIV"
proof -
  have "c \<in> set registered" for c by (cases c) (simp_all add: registered_def)
  then show ?thesis by blast
qed

lemma collector_name_inj: "inj collector_name"
proof (rule injI)
  fix a b assume "collector_name a = collector_name b"
  then show "a = b" by (cases a; cases b) simp_all
qed

end
