(* ===== verification/Deliver.thy ===== *)
theory Deliver
  imports Message Metrics
begin

text \<open>
  \<open>internal/app/deliver.go\<close>: the delivery use case of the worker. The struct
  \<open>DeliverUseCase\<close> is a record of its ports; each port is a function on the state \<open>'w\<close> of the
  outside world, an optional port is an option. \<open>ctx_Err\<close> reads \<open>ctx.Err()\<close> off that state.
  Log lines are not modelled.
\<close>

section \<open>Ports\<close>

definition ErrCircuitOpen :: goerror where
  "ErrCircuitOpen = ErrorNew ''app.ErrCircuitOpen'' ''circuit breaker open''"

type_synonym 'w Provider = "Notification \<Rightarrow> 'w \<Rightarrow> goerror option \<times> 'w"
type_synonym 'w StatusUpdater = "uuid \<Rightarrow> Status \<Rightarrow> 'w \<Rightarrow> goerror option \<times> 'w"

record 'w ProcessedMarker =
  MarkIfUnprocessed :: "uuid \<Rightarrow> 'w \<Rightarrow> (goerror + bool) \<times> 'w"
  DeleteProcessed :: "uuid \<Rightarrow> 'w \<Rightarrow> goerror option \<times> 'w"

type_synonym 'w AttemptRecorder =
  "uuid \<Rightarrow> go_int \<Rightarrow> go_string \<Rightarrow> go_string \<Rightarrow> go_string \<Rightarrow> 'w \<Rightarrow> goerror option \<times> 'w"

text \<open>\<open>PublishRetry channel priority level attempt correlationID body\<close> and
  \<open>PublishDLQ channel attempt correlationID originalRoutingKey body\<close>.\<close>

record 'w RetryPublisher =
  PublishRetry :: "go_string \<Rightarrow> go_string \<Rightarrow> go_int \<Rightarrow> go_int \<Rightarrow> go_string \<Rightarrow> go_string
     \<Rightarrow> 'w \<Rightarrow> goerror option \<times> 'w"
  PublishDLQ :: "go_string \<Rightarrow> go_int \<Rightarrow> go_string \<Rightarrow> go_string \<Rightarrow> go_string
     \<Rightarrow> 'w \<Rightarrow> goerror option \<times> 'w"

definition maxAttempts :: int where
  "maxAttempts = 3"

record 'w DeliverUseCase =
  uc_provider :: "'w Provider"
  uc_updater :: "'w StatusUpdater"
  uc_processed :: "'w ProcessedMarker option"
  uc_retryPublisher :: "'w RetryPublisher option"
  uc_attempts :: "'w AttemptRecorder option"
  uc_metrics :: "(metric_op \<Rightarrow> 'w \<Rightarrow> 'w) option"

definition NewDeliverUseCase :: "'w Provider \<Rightarrow> 'w StatusUpdater \<Rightarrow> 'w DeliverUseCase" where
  "NewDeliverUseCase provider updater =
     \<lparr>uc_provider = provider, uc_updater = updater, uc_processed = None,
      uc_retryPublisher = None, uc_attempts = None, uc_metrics = None\<rparr>"

definition WithProcessedMarker :: "'w ProcessedMarker \<Rightarrow> 'w DeliverUseCase \<Rightarrow> 'w DeliverUseCase" where
  "WithProcessedMarker pm u = u\<lparr>uc_processed := Some pm\<rparr>"
definition WithRetryPublisher :: "'w RetryPublisher \<Rightarrow> 'w DeliverUseCase \<Rightarrow> 'w DeliverUseCase" where
  "WithRetryPublisher rp u = u\<lparr>uc_retryPublisher := Some rp\<rparr>"
definition WithAttemptRecorder :: "'w AttemptRecorder \<Rightarrow> 'w DeliverUseCase \<Rightarrow> 'w DeliverUseCase" where
  "WithAttemptRecorder ar u = u\<lparr>uc_attempts := Some ar\<rparr>"
definition WithMetrics :: "(metric_op \<Rightarrow> 'w \<Rightarrow> 'w) \<Rightarrow> 'w DeliverUseCase \<Rightarrow> 'w DeliverUseCase" where
  "WithMetrics m u = u\<lparr>uc_metrics := Some m\<rparr>"

section \<open>Routing keys\<close>

definition channelFromRoutingKey :: "go_string \<Rightarrow> go_string" where
  "channelFromRoutingKey key =
     (case find (\<lambda>ch. length ch \<le> length key \<and> take (length ch) key = ch)
        [''email'', ''sms'', ''push''] of
        Some ch \<Rightarrow> ch
      | None \<Rightarrow> ''unknown'')"

definition priorityFromRoutingKey :: "go_string \<Rightarrow> go_string" where
  "priorityFromRoutingKey key =
     (let parts = SplitN key CHR ''.'' 3
      in if length parts < 2 then []
         else if parts ! 1 = PriorityHigh \<or> parts ! 1 = PriorityNormal \<or> parts ! 1 = PriorityLow
              then parts ! 1
              else [])"

definition resolvePriority :: "go_string \<Rightarrow> Priority \<Rightarrow> go_string" where
  "resolvePriority routingKey msgPriority =
     (let p = priorityFromRoutingKey routingKey
      in if p \<noteq> [] then p
         else if Priority_Valid msgPriority then msgPriority
         else PriorityNormal)"

section \<open>Handle\<close>

definition emit :: "'w DeliverUseCase \<Rightarrow> metric_op \<Rightarrow> 'w \<Rightarrow> 'w" where
  "emit u m w = (case uc_metrics u of None \<Rightarrow> w | Some f \<Rightarrow> f m w)"

definition recordAttempt ::
  "'w DeliverUseCase \<Rightarrow> uuid \<Rightarrow> go_int \<Rightarrow> go_string \<Rightarrow> go_string \<Rightarrow> go_string \<Rightarrow> 'w \<Rightarrow> 'w" where
  "recordAttempt u mid attempt status errReason provResp w =
     (case uc_attempts u of
        None \<Rightarrow> w
      | Some rec \<Rightarrow> snd (rec mid attempt status errReason provResp w))"

text \<open>The provider returned \<open>nil\<close>.\<close>

definition on_sent ::
  "'w DeliverUseCase \<Rightarrow> NotificationMessage \<Rightarrow> go_int \<Rightarrow> 'w \<Rightarrow> goerror option \<times> 'w" where
  "on_sent u msg attempt w =
     (let w = emit u (MObserve DeliveryDuration [m_Channel msg, ''success'']) w;
          w = emit u (MInc NotificationsDelivered [m_Channel msg, ''success'']) w
      in case uc_updater u (m_ID msg) StatusDelivered w of
           (Some err, w) \<Rightarrow> (Some err, w)
         | (None, w) \<Rightarrow> (None, recordAttempt u (m_ID msg) attempt ''success'' [] [] w))"

text \<open>Without a retry publisher: a terminal failure is acked, any other is returned.\<close>

definition fail_without_retry ::
  "'w DeliverUseCase \<Rightarrow> NotificationMessage \<Rightarrow> goerror \<Rightarrow> 'w \<Rightarrow> goerror option \<times> 'w" where
  "fail_without_retry u msg sendErr w =
     (if errors_Is sendErr ErrDeliveryFailed then
        (let (_, w) = uc_updater u (m_ID msg) StatusFailed w;
             w = emit u (MInc NotificationsDelivered [m_Channel msg, ''failed'']) w
         in (None, w))
      else (Some sendErr, w))"

text \<open>The next level exists: publish to the retry exchange.\<close>

definition route_retry ::
  "'w DeliverUseCase \<Rightarrow> 'w RetryPublisher \<Rightarrow> go_string \<Rightarrow> go_string \<Rightarrow> go_int \<Rightarrow> go_string
     \<Rightarrow> NotificationMessage \<Rightarrow> goerror \<Rightarrow> 'w \<Rightarrow> goerror option \<times> 'w" where
  "route_retry u rp body correlationID attempt priorityStr msg sendErr w =
     (let isCircuitOpen = errors_Is sendErr ErrCircuitOpen;
          isDeliveryFailed = errors_Is sendErr ErrDeliveryFailed;
          retryLevel = attempt + 1;
          (status, errReason, provResp) =
            (if isCircuitOpen then (''circuit_open'', ''circuit_breaker_open'', [])
             else if isDeliveryFailed then (''retrying'', error_text sendErr, error_text sendErr)
             else (''retrying'', error_text sendErr, []))
      in case PublishRetry rp (m_Channel msg) priorityStr retryLevel retryLevel correlationID body w of
           (Some pubErr, w) \<Rightarrow> (Some (ErrorWrap ''retry publish: '' pubErr []), w)
         | (None, w) \<Rightarrow>
            (let w = recordAttempt u (m_ID msg) attempt status errReason provResp w;
                 w = emit u (MInc NotificationsRetried [m_Channel msg, Itoa (sint retryLevel)]) w
             in (None, w)))"

text \<open>The levels are exhausted: publish to the DLQ, mark failed, drop the dedup record.\<close>

definition route_dlq ::
  "'w DeliverUseCase \<Rightarrow> 'w RetryPublisher \<Rightarrow> go_string \<Rightarrow> go_string \<Rightarrow> go_int \<Rightarrow> go_string \<Rightarrow> go_string
     \<Rightarrow> NotificationMessage \<Rightarrow> goerror \<Rightarrow> 'w \<Rightarrow> goerror option \<times> 'w" where
  "route_dlq u rp body correlationID attempt originalRoutingKey priorityStr msg sendErr w =
     (let isCircuitOpen = errors_Is sendErr ErrCircuitOpen;
          routingKey = (if originalRoutingKey = [] then m_Channel msg @ ''.'' @ priorityStr
                        else originalRoutingKey)
      in case PublishDLQ rp (m_Channel msg) attempt correlationID routingKey body w of
           (Some pubErr, w) \<Rightarrow> (Some (ErrorWrap ''dlq publish: '' pubErr []), w)
         | (None, w) \<Rightarrow>
            (let (_, w) = uc_updater u (m_ID msg) StatusFailed w;
                 w = (case uc_processed u of
                        None \<Rightarrow> w
                      | Some pm \<Rightarrow> snd (DeleteProcessed pm (m_ID msg) w));
                 w = recordAttempt u (m_ID msg) attempt ''dlq'' (error_text sendErr) [] w;
                 reason = (if isCircuitOpen then ''circuit_open'' else ''failed'');
                 w = emit u (MInc NotificationsDLQ [m_Channel msg, reason]) w;
                 w = emit u (MInc NotificationsDelivered [m_Channel msg, ''failed'']) w
             in (None, w)))"

text \<open>The provider returned an error.\<close>

definition on_send_error ::
  "'w DeliverUseCase \<Rightarrow> ('w \<Rightarrow> goerror option) \<Rightarrow> go_string \<Rightarrow> go_string \<Rightarrow> go_int \<Rightarrow> go_string
     \<Rightarrow> NotificationMessage \<Rightarrow> goerror \<Rightarrow> 'w \<Rightarrow> goerror option \<times> 'w" where
  "on_send_error u ctx_Err body correlationID attempt originalRoutingKey msg sendErr w =
     (let outcome = (if errors_Is sendErr ErrCircuitOpen then ''circuit_open'' else ''failure'');
          w = emit u (MObserve DeliveryDuration [m_Channel msg, outcome]) w
      in if ctx_Err w \<noteq> None then (Some sendErr, w)
         else case uc_retryPublisher u of
           None \<Rightarrow> fail_without_retry u msg sendErr w
         | Some rp \<Rightarrow>
            (let retryLevel = attempt + 1;
                 priorityStr = resolvePriority originalRoutingKey (m_Priority msg)
             in if sint retryLevel \<le> maxAttempts
                then route_retry u rp body correlationID attempt priorityStr msg sendErr w
                else route_dlq u rp body correlationID attempt originalRoutingKey priorityStr
                       msg sendErr w))"

definition send_and_route ::
  "'w DeliverUseCase \<Rightarrow> ('w \<Rightarrow> goerror option) \<Rightarrow> go_string \<Rightarrow> go_string \<Rightarrow> go_int \<Rightarrow> go_string
     \<Rightarrow> NotificationMessage \<Rightarrow> 'w \<Rightarrow> goerror option \<times> 'w" where
  "send_and_route u ctx_Err body correlationID attempt originalRoutingKey msg w =
     (case uc_provider u (ToNotification msg) w of
        (None, w) \<Rightarrow> on_sent u msg attempt w
      | (Some sendErr, w) \<Rightarrow>
          on_send_error u ctx_Err body correlationID attempt originalRoutingKey msg sendErr w)"

text \<open>The idempotency guard: only the first delivery (\<open>attempt == 0\<close>) is deduplicated.\<close>

definition handle_message ::
  "'w DeliverUseCase \<Rightarrow> ('w \<Rightarrow> goerror option) \<Rightarrow> go_string \<Rightarrow> go_string \<Rightarrow> go_int \<Rightarrow> go_string
     \<Rightarrow> NotificationMessage \<Rightarrow> 'w \<Rightarrow> goerror option \<times> 'w" where
  "handle_message u ctx_Err body correlationID attempt originalRoutingKey msg w =
     (case uc_processed u of
        Some pm \<Rightarrow>
          (if attempt = 0 then
             (case MarkIfUnprocessed pm (m_ID msg) w of
                (Inl err, w) \<Rightarrow> (Some (ErrorWrap ''idempotency check: '' err []), w)
              | (Inr inserted, w) \<Rightarrow>
                  if \<not> inserted then (None, w)
                  else send_and_route u ctx_Err body correlationID attempt originalRoutingKey msg w)
           else send_and_route u ctx_Err body correlationID attempt originalRoutingKey msg w)
      | None \<Rightarrow> send_and_route u ctx_Err body correlationID attempt originalRoutingKey msg w)"

text \<open>The error \<open>json.Unmarshal\<close> returns; its text is not modelled.\<close>

definition unmarshal_error :: goerror where
  "unmarshal_error = ErrorText ''invalid message''"

definition Handle ::
  "uuid_lib \<Rightarrow> 'w DeliverUseCase \<Rightarrow> ('w \<Rightarrow> goerror option) \<Rightarrow> go_string \<Rightarrow> go_string \<Rightarrow> go_int
     \<Rightarrow> go_string \<Rightarrow> 'w \<Rightarrow> goerror option \<times> 'w" where
  "Handle U u ctx_Err body correlationID attempt originalRoutingKey w =
     (case Unmarshal U body of
        None \<Rightarrow>
          (case uc_retryPublisher u of
             Some rp \<Rightarrow>
               (let channel = channelFromRoutingKey originalRoutingKey;
                    (_, w) = PublishDLQ rp channel attempt correlationID originalRoutingKey body w;
                    w = emit u (MInc NotificationsDLQ [channel, ''poison'']) w
                in (None, w))
           | None \<Rightarrow> (Some (ErrorWrap ''unmarshal message: '' unmarshal_error []), w))
      | Some msg \<Rightarrow>
          (let w = emit u (MInc NotificationsInFlight []) w;
               (r, w) = handle_message u ctx_Err body correlationID attempt originalRoutingKey msg w
           in (r, emit u (MDec NotificationsInFlight []) w)))"

section \<open>Laws of the routing keys\<close>

lemma channelFromRoutingKey_prefix:
  "Channel_Valid ch \<Longrightarrow> channelFromRoutingKey (ch @ t) = ch"
  unfolding Channel_Valid_iff insert_iff empty_iff
  by (elim disjE) (simp_all add: channelFromRoutingKey_def)

lemma channelFromRoutingKey_range:
  "channelFromRoutingKey key \<in> {''email'', ''sms'', ''push'', ''unknown''}"
  by (auto simp: channelFromRoutingKey_def split: option.splits dest!: find_Some_mem)

lemma no_dot_channel: "Channel_Valid ch \<Longrightarrow> CHR ''.'' \<notin> set ch"
  by (auto simp: Channel_Valid_iff)

lemma no_dot_priority: "Priority_Valid p \<Longrightarrow> CHR ''.'' \<notin> set p"
  by (auto simp: Priority_Valid_iff)

lemma priorityFromRoutingKey_two:
  assumes "CHR ''.'' \<notin> set ch" and "Priority_Valid p"
  shows "priorityFromRoutingKey (ch @ ''.'' @ p) = p"
proof -
  have "SplitN (ch @ ''.'' @ p) CHR ''.'' 3 = [ch, p]"
    using SplitN_sep [OF assms(1), of p 1] SplitN_no_sep [OF no_dot_priority [OF assms(2)], of 1]
    by (simp add: numeral_3_eq_3 del: SplitN.simps)
  with assms(2) show ?thesis by (auto simp: priorityFromRoutingKey_def Priority_Valid_iff)
qed

lemma priorityFromRoutingKey_retry:
  assumes "CHR ''.'' \<notin> set ch" and "Priority_Valid p"
  shows "priorityFromRoutingKey (ch @ ''.'' @ p @ CHR ''.'' # t) = p"
proof -
  have "SplitN (ch @ ''.'' @ p @ CHR ''.'' # t) CHR ''.'' 3 = [ch, p, t]"
    using SplitN_sep [OF assms(1), of "p @ CHR ''.'' # t" 1]
      SplitN_sep [OF no_dot_priority [OF assms(2)], of t 0]
    by (simp add: numeral_3_eq_3 del: SplitN.simps(3))
  with assms(2) show ?thesis by (auto simp: priorityFromRoutingKey_def Priority_Valid_iff)
qed

lemma priorityFromRoutingKey_valid:
  "priorityFromRoutingKey key \<noteq> [] \<Longrightarrow> Priority_Valid (priorityFromRoutingKey key)"
  by (auto simp: priorityFromRoutingKey_def Priority_Valid_iff Let_def split: if_splits)

lemma resolvePriority_valid: "Priority_Valid (resolvePriority key p)"
  using priorityFromRoutingKey_valid [of key]
  by (auto simp: resolvePriority_def Let_def) (simp add: Priority_Valid_iff)

lemma resolvePriority_routing_key:
  assumes "Channel_Valid ch" and "p = [] \<or> Priority_Valid p"
  shows "resolvePriority (RoutingKey ch p) q = (if p = [] then PriorityNormal else p)"
proof -
  let ?p = "if p = [] then PriorityNormal else p"
  have v: "Priority_Valid ?p" using assms(2) by (auto simp: Priority_Valid_iff)
  have "priorityFromRoutingKey (RoutingKey ch p) = ?p"
    unfolding RoutingKey_def Let_def
    by (rule priorityFromRoutingKey_two [OF no_dot_channel [OF assms(1)] v])
  then show ?thesis using v by (auto simp: resolvePriority_def Priority_Valid_iff)
qed

end
