(* ===== verification/Message_Properties.thy ===== *)
theory Message_Properties
  imports Deliver
begin

text \<open>
  What validation reports, what survives the wire format between API and worker, and what the
  worker reads off the routing keys the API and the retry path write.
\<close>

section \<open>The rule a rejected notification breaks\<close>

text \<open>The rules of \<open>Validate\<close> in the order the caller is told about them.\<close>

definition validation_rules :: "(goerror \<times> (Notification \<Rightarrow> bool)) list" where
  "validation_rules =
     [(ErrRecipientRequired, \<lambda>n. \<not> all_white (n_Recipient n)),
      (ErrChannelInvalid, \<lambda>n. Channel_Valid (n_Channel n)),
      (ErrContentRequired, \<lambda>n. \<not> all_white (n_Content n)),
      (ErrContentTooLong, \<lambda>n. length (runes (n_Content n)) \<le> 500),
      (ErrPriorityInvalid, \<lambda>n. n_Priority n = [] \<or> Priority_Valid (n_Priority n)),
      (ErrRecipientFormat, \<lambda>n. recipient_ok (n_Channel n) (n_Recipient n))]"

definition first_violation :: "Notification \<Rightarrow> goerror option" where
  "first_violation n = map_option fst (find (\<lambda>(e, ok). \<not> ok n) validation_rules)"

lemma first_violation_None: "first_violation n = None \<longleftrightarrow> well_formed n"
  by (simp add: first_violation_def validation_rules_def well_formed_def)

lemma Validate_violation:
  "case Validate n of None \<Rightarrow> first_violation n = None
     | Some e \<Rightarrow> (\<exists>s. first_violation n = Some s \<and> errors_Is e s)"
proof (cases "Channel_Valid (n_Channel n)")
  case True
  have r: "validateRecipient (n_Channel n) (n_Recipient n) = None \<longleftrightarrow> recipient_ok (n_Channel n) (n_Recipient n)"
    by (rule validateRecipient_None [OF True])
  then show ?thesis
    using True validateRecipient_Is [of "n_Channel n" "n_Recipient n"]
    by (auto simp: Validate_def first_violation_def validation_rules_def all_white_def TrimSpace_empty_iff
        RuneCountInString_def MaxContentLength_def ErrRecipientRequired_def ErrContentRequired_def
        ErrContentTooLong_def ErrPriorityInvalid_def simp del: not_None_eq split: option.split)
next
  case False
  then show ?thesis
    by (auto simp: Validate_def first_violation_def validation_rules_def all_white_def TrimSpace_empty_iff
        ErrRecipientRequired_def ErrChannelInvalid_def)
qed

section \<open>Properties\<close>

text \<open>C35: \<open>Validate\<close> accepts exactly the well-formed notifications: a recipient and a content that
  are not blank, a content of at most 500 characters, a known channel, a known or empty
  priority, and a recipient in the format of its channel; it answers a rejected one with the
  sentinel of the first rule it breaks.\<close>

theorem Validate_reports_first_violation:
  "(Validate n = None) = well_formed n
   \<and> (case Validate n of None \<Rightarrow> True | Some e \<Rightarrow> (\<exists>s. first_violation n = Some s \<and> errors_Is e s))"
  using Validate_violation [of n] Validate_None_iff [of n] by (simp split: option.splits)

text \<open>C36: A validated notification whose recipient and content are valid UTF-8 arrives at the
  worker as it left the API: the worker decodes exactly the message the API encoded, and hands
  the provider the same id, recipient, channel, content, priority and correlation id.\<close>

theorem wire_roundtrip:
  assumes "uuid_lib_ok U" and "Validate n = None"
    and "valid_utf8 (n_Recipient n)" and "valid_utf8 (n_Content n)"
  shows "Unmarshal U (Marshal U (MessageFrom n)) = Some (MessageFrom n)
    \<and> MessageFrom (ToNotification (MessageFrom n)) = MessageFrom n
    \<and> Validate (ToNotification (MessageFrom n)) = None"
proof -
  have "ascii (n_Channel n)" using Validate_channel [OF assms(2)] by (rule ascii_valid_channel)
  moreover have "ascii (n_Priority n)"
    using Validate_priority [OF assms(2)] ascii_valid_priority by (auto simp: ascii_def)
  ultimately have "sanitize_message (MessageFrom n) = MessageFrom n"
    using assms by (simp add: sanitize_message_def MessageFrom_def sanitize_valid sanitize_ascii)
  moreover have "well_formed (ToNotification (MessageFrom n)) = well_formed n"
    by (simp add: well_formed_def ToNotification_def MessageFrom_def)
  ultimately show ?thesis
    using Unmarshal_Marshal [OF assms(1)] assms(2)
    by (simp add: Validate_None_iff) (simp add: ToNotification_def MessageFrom_def)
qed

definition wire_sample :: Notification where
  "wire_sample = Notification_zero
     \<lparr>n_Recipient := ''a@b.c'', n_Channel := ''email'', n_Content := ''hi \"you\"'', n_Priority := ''high''\<rparr>"

lemma wire_sample_valid: "Validate wire_sample = None"
proof -
  have "is_simple_email ''a@b.c''"
    unfolding is_simple_email_def
    by (rule exI [of _ "''a''"], rule exI [of _ "''b''"], rule exI [of _ "''c''"])
      (simp add: plain_email_byte_def rx_not_at_space_def)
  moreover have "runes s = map byte s" if "\<forall>c \<in> set s. byte c < 0x80" for s
    using that by (rule runes_all_ascii)
  ultimately show ?thesis
    by (simp add: Validate_None_iff well_formed_def wire_sample_def all_white_def unicode_IsSpace_def
        Channel_Valid_iff Priority_Valid_iff recipient_ok.simps ChannelSMS_def ChannelEmail_def)
qed

theorem wire_roundtrip_witness:
  "Unmarshal binary_uuid (Marshal binary_uuid (MessageFrom wire_sample)) = Some (MessageFrom wire_sample)
    \<and> MessageFrom (ToNotification (MessageFrom wire_sample)) = MessageFrom wire_sample
    \<and> Validate (ToNotification (MessageFrom wire_sample)) = None"
  by (rule wire_roundtrip [OF binary_uuid_ok wire_sample_valid])
    (simp_all add: wire_sample_def valid_utf8_ascii)

text \<open>The worker reads back from a routing key what was put into it: for the key the API
  publishes under, the channel and the priority (normal for an empty one); for the key of a
  retry level, the same, whatever the body says.\<close>

theorem routing_keys_carry_priority:
  assumes "Channel_Valid ch" and "p = [] \<or> Priority_Valid p"
  shows "channelFromRoutingKey (RoutingKey ch p) = ch
    \<and> resolvePriority (RoutingKey ch p) q = (if p = [] then PriorityNormal else p)
    \<and> resolvePriority (RoutingKey ch p @ ''.retry.'' @ t) q = (if p = [] then PriorityNormal else p)"
proof -
  let ?p = "if p = [] then PriorityNormal else p"
  have v: "Priority_Valid ?p" using assms(2) by (auto simp: Priority_Valid_iff)
  have k: "RoutingKey ch p = ch @ ''.'' @ ?p" by (simp add: RoutingKey_def)
  have "priorityFromRoutingKey (ch @ ''.'' @ ?p @ CHR ''.'' # ''retry.'' @ t) = ?p"
    by (rule priorityFromRoutingKey_retry [OF no_dot_channel [OF assms(1)] v])
  then have "resolvePriority (RoutingKey ch p @ ''.retry.'' @ t) q = ?p"
    unfolding k resolvePriority_def using v by (auto simp: Priority_Valid_iff)
  moreover have "channelFromRoutingKey (RoutingKey ch p) = ch"
    unfolding k by (rule channelFromRoutingKey_prefix [OF assms(1)])
  ultimately show ?thesis using resolvePriority_routing_key [OF assms, of q] by simp
qed

theorem routing_keys_carry_priority_witness:
  "channelFromRoutingKey (RoutingKey ''push'' []) = ''push''
    \<and> resolvePriority (RoutingKey ''push'' []) ''low'' = (if [] = ([] :: Priority) then PriorityNormal else [])
    \<and> resolvePriority (RoutingKey ''push'' [] @ ''.retry.'' @ ''2'') ''low''
        = (if [] = ([] :: Priority) then PriorityNormal else [])"
  by (rule routing_keys_carry_priority) (simp_all add: Channel_Valid_iff)

end
