(* ===== verification/Deliver_Trace.thy ===== *)
theory Deliver_Trace
  imports Deliver
begin

text \<open>
  The delivery use case run against an arbitrary environment. The state of the world is the
  list of calls made so far, and an environment answers each call from the whole history, so
  the lemmas hold for every provider, database, broker and cancellation behaviour. They say
  which calls one run of \<open>Handle\<close> makes, in which order, and what its result means.
\<close>

section \<open>Calls and environments\<close>

datatype call =
    CSend Notification
  | CUpdateStatus uuid Status
  | CMark uuid
  | CDelete uuid
  | CRecord uuid go_int go_string go_string go_string
  | CRetry go_string go_string go_int go_int go_string go_string
  | CDLQ go_string go_int go_string go_string go_string
  | CMetric metric_op

text \<open>\<open>ans_err E h\<close> is the answer to the last call of \<open>h\<close>.\<close>

record env =
  ans_err :: "call list \<Rightarrow> goerror option"
  ans_mark :: "call list \<Rightarrow> goerror + bool"
  ans_ctx :: "call list \<Rightarrow> goerror option"

record wiring =
  has_processed :: bool
  has_retry :: bool
  has_attempts :: bool
  has_metrics :: bool

definition ask :: "env \<Rightarrow> call \<Rightarrow> call list \<Rightarrow> goerror option \<times> call list" where
  "ask E c h = (ans_err E (h @ [c]), h @ [c])"

definition traced :: "env \<Rightarrow> wiring \<Rightarrow> call list DeliverUseCase" where
  "traced E W =
     \<lparr>uc_provider = (\<lambda>n. ask E (CSend n)),
      uc_updater = (\<lambda>i s. ask E (CUpdateStatus i s)),
      uc_processed = (if has_processed W then Some
          \<lparr>MarkIfUnprocessed = (\<lambda>i h. (ans_mark E (h @ [CMark i]), h @ [CMark i])),
           DeleteProcessed = (\<lambda>i. ask E (CDelete i))\<rparr> else None),
      uc_retryPublisher = (if has_retry W then Some
          \<lparr>PublishRetry = (\<lambda>c p l a i b. ask E (CRetry c p l a i b)),
           PublishDLQ = (\<lambda>c a i k b. ask E (CDLQ c a i k b))\<rparr> else None),
      uc_attempts = (if has_attempts W then Some (\<lambda>i a s e p. ask E (CRecord i a s e p)) else None),
      uc_metrics = (if has_metrics W then Some (\<lambda>m h. h @ [CMetric m]) else None)\<rparr>"

definition run ::
  "uuid_lib \<Rightarrow> env \<Rightarrow> wiring \<Rightarrow> go_string \<Rightarrow> go_string \<Rightarrow> go_int \<Rightarrow> go_string
     \<Rightarrow> goerror option \<times> call list" where
  "run U E W body corr attempt key = Handle U (traced E W) (ans_ctx E) body corr attempt key []"

text \<open>The calls that change something outside the worker, without audit rows and metrics.\<close>

fun essential_call :: "call \<Rightarrow> bool" where
  "essential_call (CMetric m) = False"
| "essential_call (CRecord i a s e p) = False"
| "essential_call c = True"

definition essential :: "call list \<Rightarrow> call list" where
  "essential h = filter essential_call h"

lemma essential_simps [simp]:
  "essential [] = []"
  "essential (h @ h') = essential h @ essential h'"
  "essential (c # h) = (if essential_call c then c # essential h else essential h)"
  by (simp_all add: essential_def)

section \<open>The protocol of one run\<close>

text \<open>What one run of \<open>Handle\<close> on a parseable message does, by outcome.\<close>

datatype verdict =
    Dedup_failed goerror
  | Duplicate
  | Delivered
  | Delivered_not_recorded goerror
  | Interrupted goerror
  | Terminal_failure
  | Transient_failure goerror
  | Retry_published
  | Retry_not_published goerror
  | Dead_lettered
  | Not_dead_lettered goerror

text \<open>The result of \<open>Handle\<close> for each verdict: \<open>None\<close> acknowledges the delivery.\<close>

fun verdict_result :: "verdict \<Rightarrow> goerror option" where
  "verdict_result (Dedup_failed e) = Some (ErrorWrap ''idempotency check: '' e [])"
| "verdict_result Duplicate = None"
| "verdict_result Delivered = None"
| "verdict_result (Delivered_not_recorded e) = Some e"
| "verdict_result (Interrupted e) = Some e"
| "verdict_result Terminal_failure = None"
| "verdict_result (Transient_failure e) = Some e"
| "verdict_result Retry_published = None"
| "verdict_result (Retry_not_published e) = Some (ErrorWrap ''retry publish: '' e [])"
| "verdict_result Dead_lettered = None"
| "verdict_result (Not_dead_lettered e) = Some (ErrorWrap ''dlq publish: '' e [])"

text \<open>The essential calls for each verdict.\<close>

definition retry_call :: "go_string \<Rightarrow> go_string \<Rightarrow> go_int \<Rightarrow> go_string \<Rightarrow> NotificationMessage \<Rightarrow> call" where
  "retry_call body corr attempt key m =
     CRetry (m_Channel m) (resolvePriority key (m_Priority m)) (attempt + 1) (attempt + 1) corr body"

definition dlq_call :: "go_string \<Rightarrow> go_string \<Rightarrow> go_int \<Rightarrow> go_string \<Rightarrow> NotificationMessage \<Rightarrow> call" where
  "dlq_call body corr attempt key m =
     CDLQ (m_Channel m) attempt corr
       (if key = [] then m_Channel m @ ''.'' @ resolvePriority key (m_Priority m) else key) body"

fun verdict_tail ::
  "wiring \<Rightarrow> go_string \<Rightarrow> go_string \<Rightarrow> go_int \<Rightarrow> go_string \<Rightarrow> NotificationMessage \<Rightarrow> verdict \<Rightarrow> call list"
where
  "verdict_tail W body corr attempt key m v =
     (case v of
        Dedup_failed e \<Rightarrow> []
      | Duplicate \<Rightarrow> []
      | Delivered \<Rightarrow> [CUpdateStatus (m_ID m) StatusDelivered]
      | Delivered_not_recorded e \<Rightarrow> [CUpdateStatus (m_ID m) StatusDelivered]
      | Interrupted e \<Rightarrow> []
      | Terminal_failure \<Rightarrow> [CUpdateStatus (m_ID m) StatusFailed]
      | Transient_failure e \<Rightarrow> []
      | Retry_published \<Rightarrow> [retry_call body corr attempt key m]
      | Retry_not_published e \<Rightarrow> [retry_call body corr attempt key m]
      | Dead_lettered \<Rightarrow> [dlq_call body corr attempt key m, CUpdateStatus (m_ID m) StatusFailed]
             @ (if has_processed W then [CDelete (m_ID m)] else [])
      | Not_dead_lettered e \<Rightarrow> [dlq_call body corr attempt key m])"

fun sends :: "verdict \<Rightarrow> bool" where
  "sends (Dedup_failed e) = False"
| "sends Duplicate = False"
| "sends v = True"

definition verdict_calls ::
  "wiring \<Rightarrow> go_string \<Rightarrow> go_string \<Rightarrow> go_int \<Rightarrow> go_string \<Rightarrow> NotificationMessage \<Rightarrow> verdict \<Rightarrow> call list"
where
  "verdict_calls W body corr attempt key m v =
     (if has_processed W \<and> attempt = 0 then [CMark (m_ID m)] else [])
     @ (if sends v then [CSend (ToNotification m)] else [])
     @ verdict_tail W body corr attempt key m v"

text \<open>When each verdict is reached, from the attempt number and the wiring alone.\<close>

fun verdict_possible :: "wiring \<Rightarrow> go_int \<Rightarrow> verdict \<Rightarrow> bool" where
  "verdict_possible W a (Dedup_failed e) \<longleftrightarrow> has_processed W \<and> a = 0"
| "verdict_possible W a Duplicate \<longleftrightarrow> has_processed W \<and> a = 0"
| "verdict_possible W a Terminal_failure \<longleftrightarrow> \<not> has_retry W"
| "verdict_possible W a (Transient_failure e) \<longleftrightarrow> \<not> has_retry W"
| "verdict_possible W a Retry_published \<longleftrightarrow> has_retry W \<and> sint (a + 1) \<le> 3"
| "verdict_possible W a (Retry_not_published e) \<longleftrightarrow> has_retry W \<and> sint (a + 1) \<le> 3"
| "verdict_possible W a Dead_lettered \<longleftrightarrow> has_retry W \<and> 3 < sint (a + 1)"
| "verdict_possible W a (Not_dead_lettered e) \<longleftrightarrow> has_retry W \<and> 3 < sint (a + 1)"
| "verdict_possible W a v \<longleftrightarrow> True"

lemma traced_simps [simp]:
  "uc_provider (traced E W) n h = (ans_err E (h @ [CSend n]), h @ [CSend n])"
  "uc_updater (traced E W) i s h = (ans_err E (h @ [CUpdateStatus i s]), h @ [CUpdateStatus i s])"
  "uc_processed (traced E W) = (if has_processed W then Some
          \<lparr>MarkIfUnprocessed = (\<lambda>i h. (ans_mark E (h @ [CMark i]), h @ [CMark i])),
           DeleteProcessed = (\<lambda>i. ask E (CDelete i))\<rparr> else None)"
  "uc_retryPublisher (traced E W) = (if has_retry W then Some
          \<lparr>PublishRetry = (\<lambda>c p l a i b. ask E (CRetry c p l a i b)),
           PublishDLQ = (\<lambda>c a i k b. ask E (CDLQ c a i k b))\<rparr> else None)"
  by (simp_all add: traced_def ask_def)

text \<open>Metrics and audit rows add nothing essential to a history.\<close>

lemma essential_emit [simp]: "essential (emit (traced E W) m h) = essential h"
  by (simp add: emit_def traced_def)

lemma essential_record [simp]:
  "essential (recordAttempt (traced E W) i a s e p h) = essential h"
  by (simp add: recordAttempt_def traced_def ask_def)

lemma emit_extends: "\<exists>q. emit (traced E W) m h = h @ q"
  by (simp add: emit_def traced_def)

lemma record_extends: "\<exists>q. recordAttempt (traced E W) i a s e p h = h @ q"
  by (simp add: recordAttempt_def traced_def ask_def)

text \<open>What the environment answered: \<open>answered E h c r\<close> says that call \<open>c\<close> occurs in \<open>h\<close> and
  was answered by \<open>r\<close>.\<close>

definition answered :: "env \<Rightarrow> call list \<Rightarrow> call \<Rightarrow> goerror option \<Rightarrow> bool" where
  "answered E h c r \<longleftrightarrow> (\<exists>p q. h = p @ c # q \<and> ans_err E (p @ [c]) = r)"

definition mark_answered :: "env \<Rightarrow> call list \<Rightarrow> uuid \<Rightarrow> goerror + bool \<Rightarrow> bool" where
  "mark_answered E h i r \<longleftrightarrow> (\<exists>p q. h = p @ CMark i # q \<and> ans_mark E (p @ [CMark i]) = r)"

definition interrupted :: "env \<Rightarrow> call list \<Rightarrow> bool" where
  "interrupted E h \<longleftrightarrow> (\<exists>p q. h = p @ q \<and> ans_ctx E p \<noteq> None)"

lemma interrupted_append: "interrupted E h \<Longrightarrow> interrupted E (h @ q)"
  unfolding interrupted_def by (metis append.assoc)

lemma interrupted_emit: "interrupted E h \<Longrightarrow> interrupted E (emit (traced E W) m h)"
  using emit_extends [of E W m h] interrupted_append by fastforce

lemma interrupted_here: "ans_ctx E h \<noteq> None \<Longrightarrow> interrupted E h"
  unfolding interrupted_def by (metis append_Nil2)

lemma answered_append: "answered E h c r \<Longrightarrow> answered E (h @ q) c r"
  unfolding answered_def by (metis append.assoc append_Cons)

lemma answered_emit: "answered E h c r \<Longrightarrow> answered E (emit (traced E W) m h) c r"
  using emit_extends [of E W m h] answered_append by fastforce

lemma answered_record:
  "answered E h c r \<Longrightarrow> answered E (recordAttempt (traced E W) i a s e p h) c r"
  using record_extends [of E W i a s e p h] answered_append by fastforce

lemma answered_here: "ans_err E (h @ [c]) = r \<Longrightarrow> answered E (h @ [c]) c r"
  unfolding answered_def by blast

lemma mark_answered_append: "mark_answered E h i r \<Longrightarrow> mark_answered E (h @ q) i r"
  unfolding mark_answered_def by (metis append.assoc append_Cons)

lemma mark_answered_emit: "mark_answered E h i r \<Longrightarrow> mark_answered E (emit (traced E W) m h) i r"
  using emit_extends [of E W m h] mark_answered_append by fastforce

lemma mark_answered_here: "ans_mark E (h @ [CMark i]) = r \<Longrightarrow> mark_answered E (h @ [CMark i]) i r"
  unfolding mark_answered_def by blast

lemmas answered_intros =
  answered_append answered_emit answered_record answered_here
  mark_answered_append mark_answered_emit mark_answered_here
  interrupted_append interrupted_emit

text \<open>The answers that lead to each verdict.\<close>

fun verdict_evidence ::
  "env \<Rightarrow> call list \<Rightarrow> go_string \<Rightarrow> go_string \<Rightarrow> go_int \<Rightarrow> go_string \<Rightarrow> NotificationMessage
     \<Rightarrow> verdict \<Rightarrow> bool" where
  "verdict_evidence E h body corr a key m v =
     (let send = CSend (ToNotification m);
          retry = retry_call body corr a key m;
          dlq = dlq_call body corr a key m
      in case v of
           Dedup_failed e \<Rightarrow> mark_answered E h (m_ID m) (Inl e)
         | Duplicate \<Rightarrow> mark_answered E h (m_ID m) (Inr False)
         | Delivered \<Rightarrow> answered E h send None
             \<and> answered E h (CUpdateStatus (m_ID m) StatusDelivered) None
         | Delivered_not_recorded e \<Rightarrow> answered E h send None
             \<and> answered E h (CUpdateStatus (m_ID m) StatusDelivered) (Some e)
         | Interrupted e \<Rightarrow> answered E h send (Some e) \<and> interrupted E h
         | Terminal_failure \<Rightarrow> (\<exists>e. answered E h send (Some e) \<and> errors_Is e ErrDeliveryFailed)
         | Transient_failure e \<Rightarrow> answered E h send (Some e) \<and> \<not> errors_Is e ErrDeliveryFailed
         | Retry_published \<Rightarrow> (\<exists>e. answered E h send (Some e)) \<and> answered E h retry None
         | Retry_not_published e \<Rightarrow>
             (\<exists>e'. answered E h send (Some e')) \<and> answered E h retry (Some e)
         | Dead_lettered \<Rightarrow> (\<exists>e. answered E h send (Some e)) \<and> answered E h dlq None
         | Not_dead_lettered e \<Rightarrow>
             (\<exists>e'. answered E h send (Some e')) \<and> answered E h dlq (Some e))"

definition realises ::
  "env \<Rightarrow> wiring \<Rightarrow> go_string \<Rightarrow> go_string \<Rightarrow> go_int \<Rightarrow> go_string \<Rightarrow> NotificationMessage
     \<Rightarrow> verdict \<Rightarrow> goerror option \<times> call list \<Rightarrow> bool" where
  "realises E W body corr a key m v rh \<longleftrightarrow>
     verdict_possible W a v \<and> fst rh = verdict_result v
     \<and> essential (snd rh) = verdict_calls W body corr a key m v
     \<and> verdict_evidence E (snd rh) body corr a key m v"


text \<open>\<open>concludes\<close>: a run that stands at history \<open>h\<close>, with the send answered, ends with a verdict
  and its tail of calls behind \<open>h\<close>.\<close>

definition concludes ::
  "env \<Rightarrow> wiring \<Rightarrow> go_string \<Rightarrow> go_string \<Rightarrow> go_int \<Rightarrow> go_string \<Rightarrow> NotificationMessage
     \<Rightarrow> call list \<Rightarrow> goerror option \<times> call list \<Rightarrow> bool" where
  "concludes E W body corr a key m h rh \<longleftrightarrow>
     (\<exists>v. sends v \<and> verdict_possible W a v \<and> fst rh = verdict_result v
        \<and> essential (snd rh) = essential h @ verdict_tail W body corr a key m v
        \<and> verdict_evidence E (snd rh) body corr a key m v)"

lemma concludesI:
  assumes "sends v" "verdict_possible W a v" "r = verdict_result v"
    "essential h' = essential h @ verdict_tail W body corr a key m v"
    "verdict_evidence E h' body corr a key m v"
  shows "concludes E W body corr a key m h (r, h')"
  using assms unfolding concludes_def by auto


lemma on_sent_concludes:
  assumes "answered E h (CSend (ToNotification m)) None"
  shows "concludes E W body corr a key m h (on_sent (traced E W) m a h)"
proof -
  define h1 where "h1 = emit (traced E W) (MInc NotificationsDelivered [m_Channel m, ''success''])
              (emit (traced E W) (MObserve DeliveryDuration [m_Channel m, ''success'']) h)"
  define h2 where "h2 = h1 @ [CUpdateStatus (m_ID m) StatusDelivered]"
  have h: "essential h2 = essential h @ [CUpdateStatus (m_ID m) StatusDelivered]"
    by (simp add: h1_def h2_def)
  have s: "answered E h2 (CSend (ToNotification m)) None"
    using assms by (simp add: h1_def h2_def answered_intros)
  have u: "answered E h2 (CUpdateStatus (m_ID m) StatusDelivered) (ans_err E h2)"
    by (simp add: h2_def answered_here)
  have run: "on_sent (traced E W) m a h = (case ans_err E h2 of
      None \<Rightarrow> (None, recordAttempt (traced E W) (m_ID m) a ''success'' [] [] h2)
    | Some e \<Rightarrow> (Some e, h2))"
    by (simp add: on_sent_def h1_def [symmetric] h2_def Let_def split: option.split)
  show ?thesis
  proof (cases "ans_err E h2")
    case None
    then show ?thesis unfolding run using h s u
      by (auto intro!: concludesI [of Delivered] answered_record)
  next
    case (Some e)
    then show ?thesis unfolding run using h s u
      by (auto intro!: concludesI [of "Delivered_not_recorded e"])
  qed
qed

lemma fail_without_retry_concludes:
  assumes "answered E h (CSend (ToNotification m)) (Some e)" and "\<not> has_retry W"
  shows "concludes E W body corr a key m h (fail_without_retry (traced E W) m e h)"
proof (cases "errors_Is e ErrDeliveryFailed")
  case True
  then show ?thesis using assms
    by (auto simp: fail_without_retry_def Let_def intro!: concludesI [of Terminal_failure] answered_intros)
next
  case False
  then show ?thesis using assms
    by (auto simp: fail_without_retry_def intro!: concludesI [of "Transient_failure e"])
qed

lemma route_retry_concludes:
  assumes "answered E h (CSend (ToNotification m)) (Some e)" and "has_retry W"
    and "sint (a + 1) \<le> maxAttempts"
    and rp: "uc_retryPublisher (traced E W) = Some rp"
  shows "concludes E W body corr a key m h
     (route_retry (traced E W) rp body corr a (resolvePriority key (m_Priority m)) m e h)"
proof -
  define h1 where "h1 = h @ [retry_call body corr a key m]"
  have h: "essential h1 = essential h @ [retry_call body corr a key m]"
    by (simp add: h1_def retry_call_def)
  have s: "answered E h1 (CSend (ToNotification m)) (Some e)"
    using assms by (simp add: h1_def answered_intros)
  have u: "answered E h1 (retry_call body corr a key m) (ans_err E h1)"
    by (simp add: h1_def answered_here)
  have pub: "PublishRetry rp (m_Channel m) (resolvePriority key (m_Priority m)) (a + 1) (a + 1) corr body h
      = (ans_err E h1, h1)"
    using rp assms(2) by (auto simp: ask_def h1_def retry_call_def)
  show ?thesis
  proof (cases "ans_err E h1")
    case None
    then show ?thesis using h s u assms
      by (auto simp: route_retry_def Let_def pub maxAttempts_def split: prod.splits if_splits
          intro!: concludesI [of Retry_published] answered_intros)
  next
    case (Some e')
    then show ?thesis using h s u assms
      by (auto simp: route_retry_def Let_def pub maxAttempts_def
          intro!: concludesI [of "Retry_not_published e'"])
  qed
qed

lemma route_dlq_concludes:
  assumes "answered E h (CSend (ToNotification m)) (Some e)" and "has_retry W"
    and "\<not> sint (a + 1) \<le> maxAttempts"
    and rp: "uc_retryPublisher (traced E W) = Some rp"
  shows "concludes E W body corr a key m h
     (route_dlq (traced E W) rp body corr a key (resolvePriority key (m_Priority m)) m e h)"
proof -
  define h1 where "h1 = h @ [dlq_call body corr a key m]"
  have h: "essential h1 = essential h @ [dlq_call body corr a key m]"
    by (simp add: h1_def dlq_call_def)
  have s: "answered E h1 (CSend (ToNotification m)) (Some e)"
    using assms by (simp add: h1_def answered_intros)
  have u: "answered E h1 (dlq_call body corr a key m) (ans_err E h1)"
    by (simp add: h1_def answered_here)
  have pub: "PublishDLQ rp (m_Channel m) a corr
        (if key = [] then m_Channel m @ ''.'' @ resolvePriority key (m_Priority m) else key) body h
      = (ans_err E h1, h1)"
    using rp assms(2) by (auto simp: ask_def h1_def dlq_call_def)
  show ?thesis
  proof (cases "ans_err E h1")
    case None
    then show ?thesis using h s u assms
      by (auto simp: route_dlq_def Let_def pub maxAttempts_def ask_def
          intro!: concludesI [of Dead_lettered] answered_intros)
  next
    case (Some e')
    then show ?thesis using h s u assms
      by (auto simp: route_dlq_def Let_def pub maxAttempts_def
          intro!: concludesI [of "Not_dead_lettered e'"])
  qed
qed

lemma on_send_error_concludes:
  assumes "answered E h (CSend (ToNotification m)) (Some e)"
  shows "concludes E W body corr a key m h
     (on_send_error (traced E W) (ans_ctx E) body corr a key m e h)"
proof -
  define ob where "ob = MObserve DeliveryDuration
     [m_Channel m, if errors_Is e ErrCircuitOpen then ''circuit_open'' else ''failure'']"
  define h1 where "h1 = emit (traced E W) ob h"
  have s: "answered E h1 (CSend (ToNotification m)) (Some e)"
    using assms by (simp add: h1_def answered_emit)
  have ess: "essential h1 = essential h" by (simp add: h1_def)
  have base: "concludes E W body corr a key m h rh"
    if "concludes E W body corr a key m h1 rh" for rh
    using that ess by (simp add: concludes_def)
  note unf = on_send_error_def Let_def ob_def [symmetric] h1_def [symmetric]
  show ?thesis
  proof (cases "ans_ctx E h1")
    case (Some c)
    then show ?thesis unfolding unf using s ess
      by (auto intro!: concludesI [of "Interrupted e"] interrupted_here)
  next
    case None
    show ?thesis
    proof (cases "has_retry W")
      case False
      then have "uc_retryPublisher (traced E W) = None" by simp
      then show ?thesis unfolding unf using None base fail_without_retry_concludes [OF s False]
        by simp
    next
      case True
      then obtain rp where rp: "uc_retryPublisher (traced E W) = Some rp" by simp
      show ?thesis unfolding unf
        using None base rp route_retry_concludes [OF s True _ rp] route_dlq_concludes [OF s True _ rp]
        by (simp del: traced_simps)
    qed
  qed
qed


lemma send_and_route_concludes:
  "concludes E W body corr a key m (h @ [CSend (ToNotification m)])
     (send_and_route (traced E W) (ans_ctx E) body corr a key m h)"
proof -
  let ?h = "h @ [CSend (ToNotification m)]"
  have s: "answered E ?h (CSend (ToNotification m)) (ans_err E ?h)" by (simp add: answered_here)
  show ?thesis
    using on_sent_concludes [of E ?h m W body corr a key]
      on_send_error_concludes [of E ?h m _ W body corr a key] s
    by (cases "ans_err E ?h") (simp_all add: send_and_route_def)
qed

text \<open>Every run on a parseable message realises a verdict.\<close>

lemma run_verdict:
  assumes U: "Unmarshal U body = Some m"
  shows "\<exists>v. realises E W body corr a key m v (run U E W body corr a key)"
proof -
  let ?u = "traced E W"
  define h0 where "h0 = emit ?u (MInc NotificationsInFlight []) []"
  define rh where "rh = handle_message ?u (ans_ctx E) body corr a key m h0"
  have run: "run U E W body corr a key = (fst rh, emit ?u (MDec NotificationsInFlight []) (snd rh))"
    by (simp add: run_def Handle_def U Let_def h0_def [symmetric] rh_def [symmetric] split: prod.split)
  have h0: "essential h0 = []" by (simp add: h0_def)
  have fin: "\<exists>v. realises E W body corr a key m v (run U E W body corr a key)"
    if "concludes E W body corr a key m h rh"
      "essential h = (if has_processed W \<and> a = 0 then [CMark (m_ID m)] else []) @ [CSend (ToNotification m)]"
    for h
  proof -
    from that(1) obtain v where v: "sends v" "verdict_possible W a v" "fst rh = verdict_result v"
      "essential (snd rh) = essential h @ verdict_tail W body corr a key m v"
      "verdict_evidence E (snd rh) body corr a key m v" unfolding concludes_def by blast
    have "verdict_evidence E (snd (run U E W body corr a key)) body corr a key m v"
      using v(1,5) by (cases v) (auto simp: run intro: answered_intros)
    then show ?thesis using v that(2) unfolding realises_def
      by (intro exI [of _ v]) (simp add: run verdict_calls_def)
  qed
  show ?thesis
  proof (cases "has_processed W \<and> a = 0")
    case False
    then have "rh = send_and_route ?u (ans_ctx E) body corr a key m h0"
      by (auto simp: rh_def handle_message_def)
    then have "concludes E W body corr a key m (h0 @ [CSend (ToNotification m)]) rh"
      by (simp only: send_and_route_concludes)
    then show ?thesis by (rule fin) (use False h0 in auto)
  next
    case True
    let ?h = "h0 @ [CMark (m_ID m)]"
    have k: "mark_answered E ?h (m_ID m) (ans_mark E ?h)" by (simp add: mark_answered_here)
    show ?thesis
    proof (cases "ans_mark E ?h")
      case (Inl e)
      then have "rh = (Some (ErrorWrap ''idempotency check: '' e []), ?h)"
        using True by (simp add: rh_def handle_message_def)
      then show ?thesis using True h0 k Inl unfolding realises_def run
        by (intro exI [of _ "Dedup_failed e"])
          (simp add: verdict_calls_def mark_answered_emit)
    next
      case (Inr ins)
      show ?thesis
      proof (cases ins)
        case True': True
        then have "rh = send_and_route ?u (ans_ctx E) body corr a key m ?h"
          using True Inr by (simp add: rh_def handle_message_def)
        then have "concludes E W body corr a key m (?h @ [CSend (ToNotification m)]) rh"
          by (simp only: send_and_route_concludes)
        then show ?thesis by (rule fin) (use True h0 in simp)
      next
        case False
        then have "rh = (None, ?h)" using True Inr by (simp add: rh_def handle_message_def)
        then show ?thesis using True h0 k Inr False unfolding realises_def run
          by (intro exI [of _ Duplicate]) (simp add: verdict_calls_def mark_answered_emit)
      qed
    qed
  qed
qed

end
