(* ===== verification/Deliver_Properties.thy ===== *)
theory Deliver_Properties
  imports Deliver_Trace
begin

text \<open>
  What the delivery use case of \<open>internal/app/deliver.go\<close> promises, read off the protocol of
  one run: which calls may occur together, what an acknowledged delivery has left behind,
  the bounds of the retry levels, poison messages, and the balance of the metrics.
\<close>

section \<open>Reading a run\<close>

fun is_send :: "call \<Rightarrow> bool" where
  "is_send (CSend n) = True"
| "is_send c = False"

fun is_publish :: "call \<Rightarrow> bool" where
  "is_publish (CRetry c p l a i b) = True"
| "is_publish (CDLQ c a i k b) = True"
| "is_publish c = False"

lemma is_publish_calls [simp]:
  "is_publish (retry_call body corr a key m)" "is_publish (dlq_call body corr a key m)"
  "\<not> is_send (retry_call body corr a key m)" "\<not> is_send (dlq_call body corr a key m)"
  by (simp_all add: retry_call_def dlq_call_def)

lemma essential_calls: "is_send c \<or> is_publish c \<Longrightarrow> essential_call c"
  by (cases c) simp_all

lemma filter_essential:
  assumes "\<And>c. P c \<Longrightarrow> essential_call c"
  shows "filter P (essential h) = filter P h"
  unfolding essential_def filter_filter using assms by (intro filter_cong) auto

lemma filter_sends: "filter is_send h = filter is_send (essential h)"
  by (rule filter_essential [symmetric]) (simp add: essential_calls)

lemma filter_publishes: "filter is_publish h = filter is_publish (essential h)"
  by (rule filter_essential [symmetric]) (simp add: essential_calls)

lemma realises_sends:
  assumes "realises E W body corr a key m v rh"
  shows "filter is_send (snd rh) = (if sends v then [CSend (ToNotification m)] else [])"
  using assms unfolding realises_def filter_sends [of "snd rh"] verdict_calls_def
  by (cases v) auto

definition publish_of ::
  "go_string \<Rightarrow> go_string \<Rightarrow> go_int \<Rightarrow> go_string \<Rightarrow> NotificationMessage \<Rightarrow> verdict \<Rightarrow> call list" where
  "publish_of body corr a key m v =
     (case v of Retry_published \<Rightarrow> [retry_call body corr a key m]
      | Retry_not_published e \<Rightarrow> [retry_call body corr a key m]
      | Dead_lettered \<Rightarrow> [dlq_call body corr a key m]
      | Not_dead_lettered e \<Rightarrow> [dlq_call body corr a key m]
      | _ \<Rightarrow> [])"

lemma realises_publishes:
  assumes "realises E W body corr a key m v rh"
  shows "filter is_publish (snd rh) = publish_of body corr a key m v"
  using assms unfolding realises_def filter_publishes [of "snd rh"] verdict_calls_def publish_of_def
  by (cases v) auto

text \<open>A call of a run is an essential call of its verdict, an audit row or a metric.\<close>

lemma realises_call:
  assumes "realises E W body corr a key m v rh" and "c \<in> set (snd rh)" and "essential_call c"
  shows "c \<in> set (verdict_calls W body corr a key m v)"
proof -
  have "c \<in> set (essential (snd rh))" using assms(2,3) by (simp add: essential_def)
  then show ?thesis using assms(1) by (simp add: realises_def)
qed

lemma filter_single:
  "filter P (p @ c # q) = [c] \<Longrightarrow> P c \<Longrightarrow> c \<notin> set p \<and> c \<notin> set q"
  by (cases "filter P p") (auto simp: filter_empty_conv)

lemma unique_answer:
  assumes "filter P h = [c]" and "P c" and "answered E h c r" and "answered E h c r'"
  shows "r = r'"
proof -
  obtain p q where 1: "h = p @ c # q" "ans_err E (p @ [c]) = r"
    using assms(3) unfolding answered_def by blast
  obtain p' q' where 2: "h = p' @ c # q'" "ans_err E (p' @ [c]) = r'"
    using assms(4) unfolding answered_def by blast
  have "c \<notin> set p" "c \<notin> set q"
    using filter_single [of P p c q] assms(1,2) 1(1) by auto
  then have "p = p'" using 1(1) 2(1) append_Cons_eq_iff [of c p q p' q'] by simp
  then show ?thesis using 1(2) 2(2) by simp
qed

section \<open>Metrics of a run\<close>

text \<open>The metric operation a call is, if it is one.\<close>

fun call_metric :: "call \<Rightarrow> metric_op list" where
  "call_metric (CMetric m) = [m]"
| "call_metric c = []"

text \<open>\<open>quiet W h h'\<close>: the history grew from \<open>h\<close> to \<open>h'\<close>, every metric was given as many labels as
  its collector has, and the in-flight gauge was not touched.\<close>

definition quiet :: "wiring \<Rightarrow> call list \<Rightarrow> call list \<Rightarrow> bool" where
  "quiet W h h' \<longleftrightarrow> (\<exists>q. h' = h @ q
     \<and> (\<forall>m. CMetric m \<in> set q \<longrightarrow> op_ok m \<and> op_collector m \<noteq> NotificationsInFlight \<and> has_metrics W))"

lemma quiet_refl [simp]: "quiet W h h"
  by (simp add: quiet_def)

lemma quiet_call:
  assumes "quiet W h h'" and "concat (map call_metric cs) = []"
  shows "quiet W h (h' @ cs)"
proof -
  have "CMetric m \<notin> set cs" for m using assms(2) by force
  then show ?thesis using assms(1) by (auto simp: quiet_def)
qed

lemma quiet_emit:
  "quiet W h h' \<Longrightarrow> op_ok m \<Longrightarrow> op_collector m \<noteq> NotificationsInFlight
     \<Longrightarrow> quiet W h (emit (traced E W) m h')"
  by (auto simp: quiet_def emit_def traced_def)

lemma quiet_record: "quiet W h h' \<Longrightarrow> quiet W h (recordAttempt (traced E W) i a s e p h')"
  by (auto simp: quiet_def recordAttempt_def traced_def ask_def)

lemmas quiet_intros = quiet_call quiet_emit quiet_record

lemma quiet_on_sent: "quiet W h0 h \<Longrightarrow> quiet W h0 (snd (on_sent (traced E W) m a h))"
  by (auto simp: on_sent_def Let_def op_ok_def split: option.split intro!: quiet_intros)

lemma quiet_fail_without_retry:
  "quiet W h0 h \<Longrightarrow> quiet W h0 (snd (fail_without_retry (traced E W) m e h))"
  by (auto simp: fail_without_retry_def Let_def op_ok_def intro!: quiet_intros)

lemma quiet_route_retry:
  "quiet W h0 h \<Longrightarrow> uc_retryPublisher (traced E W) = Some rp
     \<Longrightarrow> quiet W h0 (snd (route_retry (traced E W) rp body corr a p m e h))"
  by (auto simp: route_retry_def Let_def op_ok_def ask_def split: option.split if_splits
      intro!: quiet_intros)

lemma quiet_route_dlq:
  "quiet W h0 h \<Longrightarrow> uc_retryPublisher (traced E W) = Some rp
     \<Longrightarrow> quiet W h0 (snd (route_dlq (traced E W) rp body corr a key p m e h))"
  by (auto simp: route_dlq_def Let_def op_ok_def ask_def split: option.split if_splits
      intro!: quiet_intros)

lemma quiet_on_send_error:
  assumes "quiet W h0 h"
  shows "quiet W h0 (snd (on_send_error (traced E W) ctx body corr a key m e h))"
proof -
  define ob where "ob = MObserve DeliveryDuration
     [m_Channel m, if errors_Is e ErrCircuitOpen then ''circuit_open'' else ''failure'']"
  define h1 where "h1 = emit (traced E W) ob h"
  have "quiet W h0 h1" unfolding h1_def
    by (rule quiet_emit [OF assms]) (simp_all add: op_ok_def ob_def)
  then show ?thesis
    unfolding on_send_error_def Let_def ob_def [symmetric] h1_def [symmetric]
    by (auto simp del: traced_simps split: option.split
        intro: quiet_fail_without_retry quiet_route_retry quiet_route_dlq)
qed

lemma quiet_send_and_route:
  assumes "quiet W h0 h"
  shows "quiet W h0 (snd (send_and_route (traced E W) ctx body corr a key m h))"
proof -
  have "quiet W h0 (h @ [CSend (ToNotification m)])" by (rule quiet_call [OF assms]) simp
  then show ?thesis
    by (simp add: send_and_route_def quiet_on_sent quiet_on_send_error split: option.split)
qed

lemma quiet_handle_message:
  assumes "quiet W h0 h"
  shows "quiet W h0 (snd (handle_message (traced E W) ctx body corr a key m h))"
proof -
  have "quiet W h0 (h @ [CMark (m_ID m)])" by (rule quiet_call [OF assms]) simp
  with assms show ?thesis
    by (simp add: handle_message_def quiet_send_and_route split: sum.split)
qed

definition metrics_of :: "call list \<Rightarrow> metric_op list" where
  "metrics_of h = concat (map call_metric h)"

lemma metrics_of_mem: "m \<in> set (metrics_of h) \<longleftrightarrow> CMetric m \<in> set h"
proof -
  have "m \<in> set (call_metric c) \<longleftrightarrow> c = CMetric m" for c by (cases c) auto
  then show ?thesis by (auto simp: metrics_of_def)
qed

lemma fold_apply_op_other:
  "(\<And>m. m \<in> set ms \<Longrightarrow> op_collector m \<noteq> c) \<Longrightarrow> fold apply_op ms r (c, ls) = r (c, ls)"
proof (induction ms arbitrary: r)
  case (Cons m ms)
  then have "op_collector m \<noteq> c" by simp
  then have "apply_op m r (c, ls) = r (c, ls)" by (cases m) auto
  with Cons show ?case by simp
qed simp

lemma quiet_metrics:
  assumes "quiet W h h'"
  obtains q where "h' = h @ q"
    "\<And>m. m \<in> set (metrics_of q)
       \<Longrightarrow> op_ok m \<and> op_collector m \<noteq> NotificationsInFlight \<and> has_metrics W"
  using assms unfolding quiet_def by (auto simp: metrics_of_mem)

lemma emit_traced: "emit (traced E W) m h = h @ (if has_metrics W then [CMetric m] else [])"
  by (simp add: emit_def traced_def)

lemma run_metrics:
  assumes "Unmarshal U body = Some m"
  shows "\<exists>ms. metrics_of (snd (run U E W body corr a key))
      = (if has_metrics W then MInc NotificationsInFlight [] # ms @ [MDec NotificationsInFlight []]
         else [])
    \<and> (\<forall>x \<in> set ms. op_ok x \<and> op_collector x \<noteq> NotificationsInFlight)"
proof -
  let ?h0 = "if has_metrics W then [CMetric (MInc NotificationsInFlight [])] else []"
  obtain q where q: "snd (handle_message (traced E W) (ans_ctx E) body corr a key m ?h0) = ?h0 @ q"
    "\<And>x. x \<in> set (metrics_of q)
       \<Longrightarrow> op_ok x \<and> op_collector x \<noteq> NotificationsInFlight \<and> has_metrics W"
    using quiet_metrics [OF quiet_handle_message [OF quiet_refl]] by metis
  have none: "metrics_of q = []" if "\<not> has_metrics W"
    using q(2) that by (cases "metrics_of q") auto
  have "snd (run U E W body corr a key)
      = ?h0 @ q @ (if has_metrics W then [CMetric (MDec NotificationsInFlight [])] else [])"
    using assms q(1)
    by (auto simp: run_def Handle_def Let_def emit_traced split: prod.split)
  then show ?thesis using q(2) none by (intro exI [of _ "metrics_of q"]) (auto simp: metrics_of_def)
qed

lemma fold_in_flight:
  assumes "\<And>x. x \<in> set ms \<Longrightarrow> op_collector x \<noteq> NotificationsInFlight"
  shows "fold apply_op (MInc NotificationsInFlight [] # ms @ [MDec NotificationsInFlight []]) r
     (NotificationsInFlight, []) = r (NotificationsInFlight, [])"
  using fold_apply_op_other [of ms NotificationsInFlight "apply_op (MInc NotificationsInFlight []) r" "[]"]
    assms by simp

lemma poison_metrics:
  assumes "Unmarshal U body = None"
  shows "metrics_of (snd (run U E W body corr a key))
      = (if has_retry W \<and> has_metrics W
         then [MInc NotificationsDLQ [channelFromRoutingKey key, ''poison'']] else [])"
  using assms by (simp add: run_def Handle_def Let_def ask_def emit_traced metrics_of_def)

section \<open>A concrete run\<close>

text \<open>A message as the API publishes it, and an environment that answers every call with
  \<open>r\<close>.\<close>

definition sample_message :: NotificationMessage where
  "sample_message =
     \<lparr>m_ID = 7, m_Recipient = ''+905551112233'', m_Channel = ChannelSMS, m_Content = ''hello'',
      m_Priority = PriorityHigh, m_CorrelationID = 9\<rparr>"

definition sample_body :: go_string where
  "sample_body = Marshal binary_uuid sample_message"

definition answering :: "goerror option \<Rightarrow> env" where
  "answering r = \<lparr>ans_err = (\<lambda>_. r), ans_mark = (\<lambda>_. Inr True), ans_ctx = (\<lambda>_. None)\<rparr>"

definition full_wiring :: wiring where
  "full_wiring =
     \<lparr>has_processed = True, has_retry = True, has_attempts = True, has_metrics = True\<rparr>"

lemma sample_parses: "Unmarshal binary_uuid sample_body = Some sample_message"
proof -
  have "sanitize_message sample_message = sample_message"
    by (rule sanitize_message_valid)
      (auto simp: sample_message_def Channel_Valid_iff Priority_Valid_iff valid_utf8_ascii)
  then show ?thesis
    by (simp add: sample_body_def Unmarshal_Marshal binary_uuid_ok)
qed

section \<open>Properties\<close>

text \<open>C4: Every run of \<open>Handle\<close> on a message that parses ends in one of eleven verdicts: the
  verdict fixes the value returned to the consumer and the exact sequence of calls on the
  provider, the database and the broker, and it is the one the answers of those calls
  demand.\<close>

theorem Handle_protocol:
  assumes "Unmarshal U body = Some m"
  shows "\<exists>v. realises E W body corr a key m v (run U E W body corr a key)"
  by (rule run_verdict [OF assms])

theorem Handle_protocol_witness:
  "\<exists>v. realises (answering None) full_wiring sample_body ''c'' 0 ''sms.high'' sample_message v
     (run binary_uuid (answering None) full_wiring sample_body ''c'' 0 ''sms.high'')"
  by (rule Handle_protocol [OF sample_parses])

lemma first_occurrence:
  "p @ c # q = p' @ c # q' \<Longrightarrow> c \<notin> set p \<Longrightarrow> c \<notin> set p' \<Longrightarrow> p = p'"
  by (auto simp: append_eq_append_conv2 append_eq_Cons_conv Cons_eq_append_conv)

lemma lone_head: "p @ c # q = c # t \<Longrightarrow> c \<notin> set t \<Longrightarrow> p = []"
  by (cases p) auto

text \<open>The deduplication marker is the first call behind the in-flight metric, so an answer
  \<open>False\<close> to it is the one that ended the run.\<close>

lemma marked_first:
  assumes v: "realises E W body corr a key m v (run U E W body corr a key)"
    and pq: "snd (run U E W body corr a key) = p @ CMark (m_ID m) # q"
  shows "has_processed W \<and> a = 0 \<and> CMark (m_ID m) \<notin> set p"
proof -
  let ?c = "CMark (m_ID m)" and ?t = "verdict_tail W body corr a key m v"
  have split: "essential p @ ?c # essential q = verdict_calls W body corr a key m v"
    using v by (simp add: realises_def pq)
  have fresh: "?c \<notin> set ?t" by (cases v) (auto simp: retry_call_def dlq_call_def)
  have "?c \<in> set (verdict_calls W body corr a key m v)" by (simp flip: split)
  then have mark: "has_processed W \<and> a = 0"
    using fresh by (auto simp: verdict_calls_def split: if_splits)
  have "essential p @ ?c # essential q
      = ?c # (if sends v then [CSend (ToNotification m)] else []) @ ?t"
    using split mark by (simp add: verdict_calls_def)
  then have "essential p = []"
    by (rule lone_head) (use fresh in \<open>auto split: if_splits\<close>)
  then show ?thesis using mark by (auto simp: essential_def filter_empty_conv)
qed

lemma run_after_mark:
  assumes U: "Unmarshal U body = Some m" and mark: "has_processed W" "a = 0"
  shows "\<exists>q. snd (run U E W body corr a key)
    = emit (traced E W) (MInc NotificationsInFlight []) [] @ CMark (m_ID m) # q"
proof -
  let ?u = "traced E W"
  define h0 where "h0 = emit ?u (MInc NotificationsInFlight []) []"
  define rh where "rh = handle_message ?u (ans_ctx E) body corr a key m h0"
  have "quiet W (h0 @ [CMark (m_ID m)]) (snd rh)"
    using mark quiet_send_and_route [OF quiet_refl, of W "h0 @ [CMark (m_ID m)]" E]
    by (auto simp: rh_def handle_message_def split: sum.split)
  then obtain q where "snd rh = (h0 @ [CMark (m_ID m)]) @ q" unfolding quiet_def by blast
  moreover obtain q2 where "emit ?u (MDec NotificationsInFlight []) (snd rh) = snd rh @ q2"
    using emit_extends [of E W "MDec NotificationsInFlight []" "snd rh"] by blast
  moreover have "run U E W body corr a key = (fst rh, emit ?u (MDec NotificationsInFlight []) (snd rh))"
    by (simp add: run_def Handle_def U Let_def h0_def [symmetric] rh_def [symmetric] split: prod.split)
  ultimately have "snd (run U E W body corr a key) = h0 @ CMark (m_ID m) # q @ q2" by simp
  then show ?thesis unfolding h0_def by blast
qed

lemma marked_duplicate:
  assumes U: "Unmarshal U body = Some m"
    and dup: "mark_answered E (snd (run U E W body corr a key)) (m_ID m) (Inr False)"
  shows "fst (run U E W body corr a key) = None"
proof -
  define h0 where "h0 = emit (traced E W) (MInc NotificationsInFlight []) []"
  obtain p q where pq: "snd (run U E W body corr a key) = p @ CMark (m_ID m) # q"
    "ans_mark E (p @ [CMark (m_ID m)]) = Inr False"
    using dup unfolding mark_answered_def by blast
  obtain v where v: "realises E W body corr a key m v (run U E W body corr a key)"
    using run_verdict [OF U] by blast
  note mark = marked_first [OF v pq(1)]
  obtain q' where "snd (run U E W body corr a key) = h0 @ CMark (m_ID m) # q'"
    using run_after_mark [OF U] mark unfolding h0_def by blast
  moreover have "CMark (m_ID m) \<notin> set h0" by (simp add: h0_def emit_traced)
  ultimately have "p = h0" using pq(1) mark first_occurrence by metis
  then show ?thesis using mark pq(2)
    by (simp add: run_def Handle_def U Let_def h0_def [symmetric] handle_message_def split: prod.split)
qed

text \<open>What accounts for an acknowledged delivery, in terms of the calls of the run and the
  answers the environment gave them.\<close>

definition accounted ::
  "uuid_lib \<Rightarrow> env \<Rightarrow> wiring \<Rightarrow> go_string \<Rightarrow> go_string \<Rightarrow> go_int \<Rightarrow> go_string \<Rightarrow> call list \<Rightarrow> bool" where
  "accounted U E W body corr a key h =
     (case Unmarshal U body of
        None \<Rightarrow> CDLQ (channelFromRoutingKey key) a corr key body \<in> set h
      | Some m \<Rightarrow>
          mark_answered E h (m_ID m) (Inr False)
        \<or> (answered E h (CSend (ToNotification m)) None
           \<and> answered E h (CUpdateStatus (m_ID m) StatusDelivered) None)
        \<or> answered E h (retry_call body corr a key m) None
        \<or> answered E h (dlq_call body corr a key m) None
        \<or> (\<not> has_retry W \<and> CUpdateStatus (m_ID m) StatusFailed \<in> set h
           \<and> (\<exists>e. answered E h (CSend (ToNotification m)) (Some e) \<and> errors_Is e ErrDeliveryFailed)))"

lemma answered_mem: "answered E h c r \<Longrightarrow> c \<in> set h"
  by (auto simp: answered_def)

lemma run_accounted:
  assumes U: "Unmarshal U body = Some m" and acked: "fst (run U E W body corr a key) = None"
  shows "accounted U E W body corr a key (snd (run U E W body corr a key))"
proof -
  obtain v where v: "realises E W body corr a key m v (run U E W body corr a key)"
    using run_verdict [OF U] by blast
  let ?h = "snd (run U E W body corr a key)"
  have r: "verdict_result v = None" "verdict_possible W a v" "verdict_evidence E ?h body corr a key m v"
    using v acked by (simp_all add: realises_def)
  have "CUpdateStatus (m_ID m) StatusFailed \<in> set (essential ?h)" if "v = Terminal_failure"
    using v by (simp add: realises_def verdict_calls_def that)
  then show ?thesis using r unfolding accounted_def U
    by (cases v) (auto simp: essential_def)
qed

lemma accounted_run:
  assumes U: "Unmarshal U body = Some m"
    and acc: "accounted U E W body corr a key (snd (run U E W body corr a key))"
  shows "fst (run U E W body corr a key) = None"
proof -
  let ?h = "snd (run U E W body corr a key)"
  obtain v where v: "realises E W body corr a key m v (run U E W body corr a key)"
    using run_verdict [OF U] by blast
  have ev: "verdict_evidence E ?h body corr a key m v" and pos: "verdict_possible W a v"
    and res: "fst (run U E W body corr a key) = verdict_result v"
    using v by (simp_all add: realises_def)
  have one: "r = None" if "filter P ?h = [c]" "P c" "answered E ?h c None" "answered E ?h c r" for P c r
    using unique_answer [OF that] by simp
  have dup: "verdict_result v = None" if "mark_answered E ?h (m_ID m) (Inr False)"
    using marked_duplicate [OF U that] res by simp
  have upd: "filter (\<lambda>c. c = CUpdateStatus (m_ID m) s) ?h
      = filter (\<lambda>c. c = CUpdateStatus (m_ID m) s) (verdict_calls W body corr a key m v)" for s
    using v filter_essential [of "\<lambda>c. c = CUpdateStatus (m_ID m) s" ?h] by (simp add: realises_def)
  have failed: "verdict_result v = None"
    if "\<not> has_retry W" "CUpdateStatus (m_ID m) StatusFailed \<in> set ?h"
    using realises_call [OF v that(2)] pos that(1)
    by (cases v) (auto simp: verdict_calls_def StatusFailed_def StatusDelivered_def)
  have sent: "verdict_result v = None"
    if s: "answered E ?h (CSend (ToNotification m)) None"
      and u: "answered E ?h (CUpdateStatus (m_ID m) StatusDelivered) None"
  proof -
    have "CUpdateStatus (m_ID m) StatusDelivered \<in> set (verdict_calls W body corr a key m v)"
      using realises_call [OF v answered_mem [OF u]] by simp
    then show ?thesis using ev upd [of StatusDelivered]
        one [of "\<lambda>c. c = CUpdateStatus (m_ID m) StatusDelivered", OF _ _ u]
        one [of is_send, OF _ _ s] realises_sends [OF v]
      by (cases v) (auto simp: verdict_calls_def retry_call_def dlq_call_def StatusFailed_def
          StatusDelivered_def split: if_splits)
  qed
  have published: "verdict_result v = None"
    if p: "answered E ?h c None" "is_publish c" for c
  proof -
    have "c \<in> set (filter is_publish ?h)" using answered_mem [OF p(1)] p(2) by simp
    then show ?thesis using ev one [of is_publish c, OF _ p(2,1)] realises_publishes [OF v]
      by (cases v) (auto simp: publish_of_def)
  qed
  show ?thesis using acc dup sent published failed unfolding res accounted_def U
    by auto
qed

text \<open>C5: Every run of \<open>Handle\<close>, on any body and in any environment, acknowledges its delivery
  exactly when the delivery is accounted for: it was a duplicate; or the provider took it and
  the delivered status was stored; or the broker confirmed its copy for a retry or for the
  DLQ; or, where there is no retry publisher, the provider refused it for good and the failed
  status was asked for; or the body did not parse and its publication to the DLQ was asked
  for. For a body that does not parse the answer of the broker is not looked at: such a
  message is acknowledged, and lost, also when its publication failed.\<close>

theorem Handle_ack_accounted:
  "fst (run U E W body corr a key) = None
     \<longleftrightarrow> accounted U E W body corr a key (snd (run U E W body corr a key))"
proof (cases "Unmarshal U body")
  case None
  then show ?thesis by (simp add: accounted_def run_def Handle_def Let_def ask_def emit_traced)
next
  case (Some m)
  then show ?thesis using run_accounted accounted_run by blast
qed

lemma run_once:
  assumes "Unmarshal U body = Some m"
  shows "let h = snd (run U E W body corr a key) in
      length (filter is_send h) \<le> 1 \<and> length (filter is_publish h) \<le> 1
    \<and> (answered E h (CSend (ToNotification m)) None \<longrightarrow> filter is_publish h = [])"
proof -
  let ?h = "snd (run U E W body corr a key)"
  obtain v where v: "realises E W body corr a key m v (run U E W body corr a key)"
    using run_verdict [OF assms(1)] by blast
  note fs = realises_sends [OF v] and fp = realises_publishes [OF v]
  have ev: "verdict_evidence E ?h body corr a key m v" using v by (simp add: realises_def)
  have "filter is_publish ?h = []" if sent: "answered E ?h (CSend (ToNotification m)) None"
  proof -
    have "r = None" if "sends v" "answered E ?h (CSend (ToNotification m)) r" for r
      using unique_answer [of is_send ?h "CSend (ToNotification m)" E r None] fs that sent by simp
    then have "publish_of body corr a key m v = []"
      using ev by (cases v) (auto simp: publish_of_def)
    then show ?thesis using fp by simp
  qed
  then show ?thesis using fs fp by (auto simp: Let_def publish_of_def split: verdict.split)
qed

text \<open>One run of \<open>Handle\<close> calls the provider at most once and publishes at most once, and
  when the provider accepted the notification it publishes nothing: a delivered notification
  is never also sent to a retry queue or to the DLQ.\<close>

theorem Handle_sends_once:
  assumes "Unmarshal U body = Some m"
  shows "let h = snd (run U E W body corr a key) in
      length (filter is_send h) \<le> 1 \<and> length (filter is_publish h) \<le> 1
    \<and> (answered E h (CSend (ToNotification m)) None \<longrightarrow> filter is_publish h = [])"
  by (rule run_once [OF assms])

theorem Handle_sends_once_witness:
  "let h = snd (run binary_uuid (answering (Some ErrDeliveryFailed)) full_wiring sample_body ''c'' 0 [])
   in length (filter is_send h) \<le> 1 \<and> length (filter is_publish h) \<le> 1
    \<and> (answered (answering (Some ErrDeliveryFailed)) h (CSend (ToNotification sample_message)) None
         \<longrightarrow> filter is_publish h = [])"
  by (rule Handle_sends_once [OF sample_parses])

lemma sint_succ_int32:
  fixes x :: go_int32
  shows "sint (scast x + 1 :: go_int) = sint x + 1"
proof -
  have lo: "- (2 ^ 31) \<le> sint x" using sint_greater_eq [of x] by simp
  have hi: "sint x < 2 ^ 31" using sint_lt [of x] by simp
  have "(scast x + 1 :: go_int) = word_of_int (sint x + 1)"
    by (simp only: scast_eq of_int_add of_int_1)
  then have "sint (scast x + 1 :: go_int) = signed_take_bit 63 (sint x + 1)"
    by (simp only: sint_sbintrunc' len_bit0 len_num1) simp
  also have "\<dots> = sint x + 1"
    by (rule signed_take_bit_int_eq_self) (use lo hi in simp_all)
  finally show ?thesis .
qed

lemma run_publishes:
  assumes "Unmarshal U body = Some m" and "c \<in> set (snd (run U E W body corr a key))"
    and "is_publish c"
  shows "(c = retry_call body corr a key m \<and> sint (a + 1) \<le> 3)
       \<or> (c = dlq_call body corr a key m \<and> 3 < sint (a + 1))"
proof -
  obtain v where v: "realises E W body corr a key m v (run U E W body corr a key)"
    using run_verdict [OF assms(1)] by blast
  have "c \<in> set (filter is_publish (snd (run U E W body corr a key)))" using assms(2,3) by simp
  then have "c \<in> set (publish_of body corr a key m v)" by (simp add: realises_publishes [OF v])
  moreover have "verdict_possible W a v" using v by (simp add: realises_def)
  ultimately show ?thesis by (cases v) (auto simp: publish_of_def)
qed



text \<open>A poison message with a retry publisher is acknowledged, whatever the publisher
  answers, after exactly one call: its publication to the DLQ, under the channel its routing
  key starts with.\<close>

theorem Handle_poison:
  assumes "Unmarshal U body = None" and "has_retry W"
  shows "fst (run U E W body corr a key) = None
    \<and> essential (snd (run U E W body corr a key))
      = [CDLQ (channelFromRoutingKey key) a corr key body]"
  using assms by (simp add: run_def Handle_def Let_def ask_def)

lemma sample_poison: "Unmarshal binary_uuid [] = None"
  by (simp add: Unmarshal_def parse_json_def parse_prefix_def)

theorem Handle_poison_witness:
  "fst (run binary_uuid (answering (Some ErrDeliveryFailed)) full_wiring [] ''c'' 0 ''sms.high'') = None
    \<and> essential (snd (run binary_uuid (answering (Some ErrDeliveryFailed)) full_wiring [] ''c'' 0 ''sms.high''))
      = [CDLQ (channelFromRoutingKey ''sms.high'') 0 ''c'' ''sms.high'' []]"
  by (rule Handle_poison [OF sample_poison]) (simp add: full_wiring_def)

text \<open>C26: Every run of \<open>Handle\<close>, on any body, leaves the in-flight gauge where it found it, on
  every path, and gives every collector as many label values as it has labels, so that no
  metric call panics.\<close>

theorem Handle_metrics_balanced:
  "let ms = metrics_of (snd (run U E W body corr a key))
    in fold apply_op ms r (NotificationsInFlight, []) = r (NotificationsInFlight, [])
       \<and> list_all op_ok ms"
proof (cases "Unmarshal U body")
  case None
  then show ?thesis by (simp add: poison_metrics op_ok_def)
next
  case (Some m)
  then obtain ms where "metrics_of (snd (run U E W body corr a key))
      = (if has_metrics W then MInc NotificationsInFlight [] # ms @ [MDec NotificationsInFlight []]
         else [])"
    "\<And>x. x \<in> set ms \<Longrightarrow> op_ok x \<and> op_collector x \<noteq> NotificationsInFlight"
    using run_metrics [OF Some] by metis
  then show ?thesis using fold_in_flight [of ms r]
    by (auto simp: Let_def list_all_iff op_ok_def)
qed

end
