(* ===== verification/Rabbitmq.thy ===== *)
theory Rabbitmq
  imports Domain "HOL-Library.Signed_Division"
begin

text \<open>
  \<open>internal/adapter/rabbitmq\<close>: the topology (exchanges, queues, bindings, retry TTLs), the
  confirming publisher and the retry/DLQ publisher. The AMQP client library and the broker are
  parameters: a channel is a record of functions on the state of the world, and how a topic
  exchange matches a binding key is a predicate of which \<open>topic_literal\<close> states the
  documented behaviour on keys without wildcards.
\<close>

section \<open>AMQP values\<close>

text \<open>
  The Go values a header table can hold, as far as the code tells them apart. A \<open>float64\<close> is
  represented by what Go's conversion to \<open>int32\<close> makes of it.
\<close>

datatype amqp_value =
    VInt32 go_int32
  | VInt64 go_int
  | VInt go_int
  | VUint32 "32 word"
  | VUint64 "64 word"
  | VFloat64 go_int32
  | VString go_string
  | VOther

type_synonym amqp_table = "(go_string \<times> amqp_value) list"

record Publishing =
  pub_ContentType :: go_string
  pub_Persistent :: bool
  pub_Timestamp :: time
  pub_Headers :: amqp_table
  pub_Body :: go_string

section \<open>topology.go\<close>

definition ExchangeNotifications :: go_string where
  "ExchangeNotifications = ''notifications.topic''"
definition ExchangeRetry :: go_string where
  "ExchangeRetry = ''notifications.retry.exchange''"
definition ExchangeDLQ :: go_string where
  "ExchangeDLQ = ''notifications.dlq.exchange''"

record RetryTTLs =
  ttl_Level1 :: duration
  ttl_Level2 :: duration
  ttl_Level3 :: duration

definition ProductionRetryTTLs :: RetryTTLs where
  "ProductionRetryTTLs =
     \<lparr>ttl_Level1 = 30 * Second, ttl_Level2 = 120 * Second, ttl_Level3 = 600 * Second\<rparr>"

record QueueBinding =
  qb_Queue :: go_string
  qb_RoutingKey :: go_string

record Topology =
  t_Exchange :: go_string
  t_Bindings :: "QueueBinding list"
  t_Prefix :: go_string
  t_RetryTTLs :: RetryTTLs

definition topo_channels :: "go_string list" where
  "topo_channels = [''email'', ''sms'', ''push'']"

definition topo_priorities :: "go_string list" where
  "topo_priorities = [''high'', ''normal'', ''low'']"

definition AllProductionBindings :: "QueueBinding list" where
  "AllProductionBindings =
     concat (map (\<lambda>ch. map (\<lambda>p. let name = ch @ ''.'' @ p
                              in \<lparr>qb_Queue = name, qb_RoutingKey = name\<rparr>) topo_priorities)
       topo_channels)"

definition ProductionTopology :: Topology where
  "ProductionTopology =
     \<lparr>t_Exchange = ExchangeNotifications, t_Bindings = AllProductionBindings, t_Prefix = [],
      t_RetryTTLs = ProductionRetryTTLs\<rparr>"

definition RetryExchange :: "Topology \<Rightarrow> go_string" where
  "RetryExchange t = ExchangeRetry"

definition DLQExchange :: "Topology \<Rightarrow> go_string" where
  "DLQExchange t = ExchangeDLQ"

definition RetryQueueName :: "Topology \<Rightarrow> go_string \<Rightarrow> go_string \<Rightarrow> int \<Rightarrow> go_string" where
  "RetryQueueName t channel priority level =
     t_Prefix t @ channel @ ''.'' @ priority @ ''.retry.'' @ Itoa level"

definition DLQQueueName :: "Topology \<Rightarrow> go_string \<Rightarrow> go_string" where
  "DLQQueueName t channel = t_Prefix t @ channel @ ''.dlq''"

text \<open>The calls on the channel: \<open>ExchangeDeclare name kind durable autoDelete internal noWait args\<close>,
  \<open>QueueDeclare name durable autoDelete exclusive noWait args\<close> and
  \<open>QueueBind name key exchange noWait args\<close>; a nil table is empty. Each is paired with the prefix
  of the error it is wrapped in.\<close>

datatype amqp_decl =
    ExchangeDeclare go_string go_string bool bool bool bool amqp_table
  | QueueDeclare go_string bool bool bool bool amqp_table
  | QueueBind go_string go_string go_string bool amqp_table

text \<open>\<open>time.Duration.Milliseconds\<close>, truncated to \<open>int32\<close> for the queue argument.\<close>

definition ttl_ms :: "duration \<Rightarrow> go_int32" where
  "ttl_ms d = word_of_int (sint d sdiv 1000000)"

definition retry_routing_key :: "go_string \<Rightarrow> go_string \<Rightarrow> int \<Rightarrow> go_string" where
  "retry_routing_key channel priority level =
     channel @ ''.'' @ priority @ ''.retry.'' @ Itoa level"

definition binding_decls :: "Topology \<Rightarrow> QueueBinding \<Rightarrow> (amqp_decl \<times> go_string) list" where
  "binding_decls t b =
     [(QueueDeclare (qb_Queue b) True False False False [], ''declare queue '' @ qb_Queue b @ '': ''),
      (QueueBind (qb_Queue b) (qb_RoutingKey b) (t_Exchange t) False [],
       ''bind '' @ qb_Queue b @ ''->'' @ t_Exchange t @ '': '')]"

definition retry_queue_decls ::
  "Topology \<Rightarrow> go_string \<Rightarrow> go_string \<Rightarrow> nat \<Rightarrow> (amqp_decl \<times> go_string) list" where
  "retry_queue_decls t channel priority level =
     (let ttls = [ttl_Level1 (t_RetryTTLs t), ttl_Level2 (t_RetryTTLs t), ttl_Level3 (t_RetryTTLs t)];
          qName = RetryQueueName t channel priority (int level);
          reEntryKey = channel @ ''.'' @ priority
      in [(QueueDeclare qName True False False False
             [(''x-message-ttl'', VInt32 (ttl_ms (ttls ! (level - 1)))),
              (''x-dead-letter-exchange'', VString (t_Exchange t)),
              (''x-dead-letter-routing-key'', VString reEntryKey)],
           ''declare retry queue '' @ qName @ '': ''),
          (QueueBind qName (retry_routing_key channel priority (int level)) ExchangeRetry False [],
           ''bind retry queue '' @ qName @ '': '')])"

definition dlq_decls :: "Topology \<Rightarrow> go_string \<Rightarrow> (amqp_decl \<times> go_string) list" where
  "dlq_decls t channel =
     [(QueueDeclare (DLQQueueName t channel) True False False False [],
       ''declare dlq queue '' @ DLQQueueName t channel @ '': ''),
      (QueueBind (DLQQueueName t channel) channel ExchangeDLQ False [],
       ''bind dlq queue '' @ DLQQueueName t channel @ '': '')]"

definition topology_decls :: "Topology \<Rightarrow> (amqp_decl \<times> go_string) list" where
  "topology_decls t =
     [(ExchangeDeclare (t_Exchange t) ''topic'' True False False False [], ''declare exchange '' @ t_Exchange t @ '': '')]
     @ concat (map (binding_decls t) (t_Bindings t))
     @ [(ExchangeDeclare ExchangeRetry ''topic'' True False False False [], ''declare exchange '' @ ExchangeRetry @ '': ''),
        (ExchangeDeclare ExchangeDLQ ''topic'' True False False False [], ''declare exchange '' @ ExchangeDLQ @ '': '')]
     @ concat (map (\<lambda>channel.
         concat (map (\<lambda>priority. concat (map (retry_queue_decls t channel priority) [1, 2, 3]))
           topo_priorities)
         @ dlq_decls t channel) topo_channels)"

fun declare_all ::
  "(amqp_decl \<Rightarrow> 'w \<Rightarrow> goerror option \<times> 'w) \<Rightarrow> (amqp_decl \<times> go_string) list \<Rightarrow> 'w
     \<Rightarrow> goerror option \<times> 'w" where
  "declare_all call [] w = (None, w)"
| "declare_all call ((d, msg) # ds) w =
     (case call d w of
        (Some err, w) \<Rightarrow> (Some (ErrorWrap msg err []), w)
      | (None, w) \<Rightarrow> declare_all call ds w)"

definition DeclareTopologyWith ::
  "(amqp_decl \<Rightarrow> 'w \<Rightarrow> goerror option \<times> 'w) \<Rightarrow> Topology \<Rightarrow> 'w \<Rightarrow> goerror option \<times> 'w" where
  "DeclareTopologyWith call t w = declare_all call (topology_decls t) w"

section \<open>publisher.go\<close>

text \<open>\<open>PublishWithDeferredConfirmWithContext exchange key mandatory immediate msg\<close> returns a
  deferred confirmation, \<open>WaitContext\<close> its answer (\<open>True\<close> for an ack); the context is part of
  the state of the world.\<close>

record 'w amqp_channel =
  ch_Confirm :: "'w \<Rightarrow> goerror option \<times> 'w"
  ch_Publish :: "go_string \<Rightarrow> go_string \<Rightarrow> bool \<Rightarrow> bool \<Rightarrow> Publishing \<Rightarrow> 'w \<Rightarrow> (goerror + nat) \<times> 'w"
  ch_WaitContext :: "nat \<Rightarrow> 'w \<Rightarrow> (goerror + bool) \<times> 'w"
  ch_Now :: "'w \<Rightarrow> time"

record 'w Publisher =
  p_ch :: "'w amqp_channel"
  p_exchange :: go_string

definition NewPublisher :: "'w amqp_channel \<Rightarrow> go_string \<Rightarrow> 'w \<Rightarrow> (goerror + 'w Publisher) \<times> 'w" where
  "NewPublisher ch exchange w =
     (case ch_Confirm ch w of
        (Some err, w) \<Rightarrow> (Inl (ErrorWrap ''enable publisher confirms: '' err []), w)
      | (None, w) \<Rightarrow> (Inr \<lparr>p_ch = ch, p_exchange = exchange\<rparr>, w))"

definition PublishToExchange ::
  "'w Publisher \<Rightarrow> go_string \<Rightarrow> go_string \<Rightarrow> amqp_table \<Rightarrow> go_string \<Rightarrow> 'w \<Rightarrow> goerror option \<times> 'w" where
  "PublishToExchange p exchange routingKey headers body w =
     (let msg = \<lparr>pub_ContentType = ''application/json'', pub_Persistent = True,
                 pub_Timestamp = ch_Now (p_ch p) w, pub_Headers = headers, pub_Body = body\<rparr>
      in case ch_Publish (p_ch p) exchange routingKey True False msg w of
           (Inl err, w) \<Rightarrow> (Some (ErrorWrap ''publish: '' err []), w)
         | (Inr conf, w) \<Rightarrow>
            (case ch_WaitContext (p_ch p) conf w of
               (Inl err, w) \<Rightarrow> (Some (ErrorWrap ''await confirm: '' err []), w)
             | (Inr ack, w) \<Rightarrow>
                if \<not> ack then (Some (ErrorText ''broker nacked message''), w) else (None, w)))"

definition Publish ::
  "'w Publisher \<Rightarrow> go_string \<Rightarrow> amqp_table \<Rightarrow> go_string \<Rightarrow> 'w \<Rightarrow> goerror option \<times> 'w" where
  "Publish p routingKey headers body w = PublishToExchange p (p_exchange p) routingKey headers body w"

section \<open>retry_publisher.go\<close>

text \<open>\<open>int32(attempt)\<close> truncates.\<close>

definition retry_headers :: "go_string \<Rightarrow> go_int \<Rightarrow> go_string \<Rightarrow> amqp_table" where
  "retry_headers channel attempt correlationID =
     [(''x-attempt'', VInt32 (ucast attempt)),
      (''correlation_id'', VString correlationID),
      (''x-original-channel'', VString channel)]"

definition Adapter_PublishRetry ::
  "'w Publisher \<Rightarrow> go_string \<Rightarrow> go_string \<Rightarrow> go_int \<Rightarrow> go_int \<Rightarrow> go_string \<Rightarrow> go_string
     \<Rightarrow> 'w \<Rightarrow> goerror option \<times> 'w" where
  "Adapter_PublishRetry p channel priority level attempt correlationID body w =
     (let routingKey = channel @ ''.'' @ priority @ ''.retry.'' @ Itoa (sint level);
          headers = retry_headers channel attempt correlationID
      in case PublishToExchange p ExchangeRetry routingKey headers body w of
           (Some err, w) \<Rightarrow>
             (Some (ErrorWrap (''publish retry level '' @ Itoa (sint level) @ '' for channel '' @ channel
                      @ '' priority '' @ priority @ '': '') err []), w)
         | (None, w) \<Rightarrow> (None, w))"

definition dlq_headers :: "go_string \<Rightarrow> go_int \<Rightarrow> go_string \<Rightarrow> go_string \<Rightarrow> amqp_table" where
  "dlq_headers channel attempt correlationID originalRoutingKey =
     [(''x-attempt'', VInt32 (ucast attempt)),
      (''correlation_id'', VString correlationID),
      (''x-original-routing-key'', VString originalRoutingKey),
      (''x-original-channel'', VString channel)]"

definition Adapter_PublishDLQ ::
  "'w Publisher \<Rightarrow> go_string \<Rightarrow> go_int \<Rightarrow> go_string \<Rightarrow> go_string \<Rightarrow> go_string
     \<Rightarrow> 'w \<Rightarrow> goerror option \<times> 'w" where
  "Adapter_PublishDLQ p channel attempt correlationID originalRoutingKey body w =
     (let headers = dlq_headers channel attempt correlationID originalRoutingKey
      in case PublishToExchange p ExchangeDLQ channel headers body w of
           (Some err, w) \<Rightarrow>
             (Some (ErrorWrap (''publish dlq for channel '' @ channel @ '': '') err []), w)
         | (None, w) \<Rightarrow> (None, w))"

section \<open>Routing in the declared topology\<close>

text \<open>
  What the broker does with a key: a topic exchange delivers to every queue with a binding
  that matches. How binding keys match is the broker's (\<open>matches\<close>); a binding key without the
  wildcards \<open>*\<close> and \<open>#\<close> matches exactly itself.
\<close>

definition topic_literal :: "(go_string \<Rightarrow> go_string \<Rightarrow> bool) \<Rightarrow> bool" where
  "topic_literal matches \<longleftrightarrow>
     (\<forall>b k. CHR ''*'' \<notin> set b \<and> CHR ''#'' \<notin> set b \<longrightarrow> matches b k = (b = k))"

fun decl_route :: "(go_string \<Rightarrow> go_string \<Rightarrow> bool) \<Rightarrow> go_string \<Rightarrow> go_string \<Rightarrow> amqp_decl \<Rightarrow> go_string list" where
  "decl_route matches ex key (QueueBind q b ex' nowait args) = (if ex' = ex \<and> matches b key then [q] else [])"
| "decl_route matches ex key d = []"

definition routed_to ::
  "(go_string \<Rightarrow> go_string \<Rightarrow> bool) \<Rightarrow> Topology \<Rightarrow> go_string \<Rightarrow> go_string \<Rightarrow> go_string list" where
  "routed_to matches t ex key = concat (map (decl_route matches ex key \<circ> fst) (topology_decls t))"

text \<open>The arguments a queue is declared with.\<close>

definition queue_args :: "Topology \<Rightarrow> go_string \<Rightarrow> amqp_table list" where
  "queue_args t q =
     concat (map (\<lambda>d. case fst d of QueueDeclare q' dur del excl nowait args \<Rightarrow> if q' = q then [args] else [] | _ \<Rightarrow> [])
       (topology_decls t))"

end
