(* ===== verification/Rabbitmq_Properties.thy ===== *)
theory Rabbitmq_Properties
  imports Rabbitmq Message
begin

text \<open>
  What the topology of \<open>internal/adapter/rabbitmq/topology.go\<close> guarantees about the keys the
  code publishes with, and the contract of the confirming publisher. The broker's matching
  of literal binding keys is the hypothesis \<open>topic_literal\<close>.
\<close>

section \<open>Literal keys\<close>

fun literal_decl :: "amqp_decl \<Rightarrow> bool" where
  "literal_decl (QueueBind q b ex nowait args) \<longleftrightarrow> CHR ''*'' \<notin> set b \<and> CHR ''#'' \<notin> set b"
| "literal_decl d \<longleftrightarrow> True"

lemma decl_route_literal:
  "topic_literal matches \<Longrightarrow> literal_decl d \<Longrightarrow> decl_route matches ex key d = decl_route (=) ex key d"
  by (cases d) (simp_all add: topic_literal_def)

lemma routed_to_literal:
  assumes "topic_literal matches" and "list_all (literal_decl \<circ> fst) (topology_decls t)"
  shows "routed_to matches t ex key = routed_to (=) t ex key"
  unfolding routed_to_def using assms
  by (intro arg_cong [of _ _ concat] map_cong) (auto simp: list_all_iff intro: decl_route_literal)

lemma production_literal: "list_all (literal_decl \<circ> fst) (topology_decls ProductionTopology)"
  by code_simp

lemmas production_routes = routed_to_literal [OF _ production_literal]

lemma topic_literal_eq: "topic_literal (=)"
  by (simp add: topic_literal_def)

lemma channel_mem: "Channel_Valid ch \<longleftrightarrow> ch \<in> set topo_channels"
  by (auto simp: Channel_Valid_iff topo_channels_def)

lemma priority_mem: "Priority_Valid p \<longleftrightarrow> p \<in> set topo_priorities"
  by (auto simp: Priority_Valid_iff topo_priorities_def)

section \<open>The routes of the production topology\<close>

text \<open>The routes, one line per table of the topology, evaluated.\<close>

lemma main_routes:
  "list_all (\<lambda>ch. list_all (\<lambda>p.
       routed_to (=) ProductionTopology ExchangeNotifications (ch @ ''.'' @ p) = [ch @ ''.'' @ p])
     topo_priorities) topo_channels"
  by code_simp

lemma retry_routes:
  "list_all (\<lambda>ch. list_all (\<lambda>p. list_all (\<lambda>level.
       routed_to (=) ProductionTopology ExchangeRetry (retry_routing_key ch p level)
         = [RetryQueueName ProductionTopology ch p level])
     [1, 2, 3]) topo_priorities) topo_channels"
  by code_simp

lemma retry_queue_args:
  "list_all (\<lambda>ch. list_all (\<lambda>p. list_all (\<lambda>(level, ms).
       queue_args ProductionTopology (RetryQueueName ProductionTopology ch p level)
         = [[(''x-message-ttl'', VInt32 ms),
             (''x-dead-letter-exchange'', VString ExchangeNotifications),
             (''x-dead-letter-routing-key'', VString (ch @ ''.'' @ p))]])
     [(1, 30000), (2, 120000), (3, 600000)]) topo_priorities) topo_channels"
  by code_simp

lemma dlq_routes:
  "list_all (\<lambda>ch. routed_to (=) ProductionTopology ExchangeDLQ ch
       = [DLQQueueName ProductionTopology ch]
     \<and> queue_args ProductionTopology (DLQQueueName ProductionTopology ch) = [[]])
     topo_channels"
  by code_simp

lemma unknown_route: "routed_to (=) ProductionTopology ExchangeDLQ ''unknown'' = []"
  by code_simp

definition decl_queues :: "amqp_decl list \<Rightarrow> go_string list" where
  "decl_queues ds = concat (map (\<lambda>d. case d of QueueDeclare q dur del excl nowait args \<Rightarrow> [q] | _ \<Rightarrow> []) ds)"

lemma production_queues_distinct:
  "distinct (decl_queues (map fst (topology_decls ProductionTopology)))
     \<and> length (decl_queues (map fst (topology_decls ProductionTopology))) = 39"
  by code_simp

lemma RoutingKey_eq:
  "RoutingKey ch p = ch @ ''.'' @ (if p = [] then PriorityNormal else p)"
  by (simp add: RoutingKey_def)

lemma retry_level_mem: "1 \<le> level \<Longrightarrow> level \<le> 3 \<Longrightarrow> level \<in> set [1, 2, 3 :: int]"
  by auto

section \<open>Declaration order\<close>

text \<open>A binding needs its exchange and its queue: every \<open>QueueBind\<close> comes after the
  declaration of both.\<close>

fun binds_ok :: "go_string list \<Rightarrow> go_string list \<Rightarrow> amqp_decl list \<Rightarrow> bool" where
  "binds_ok exs qs [] = True"
| "binds_ok exs qs (ExchangeDeclare ex kind dur del internal nowait args # ds) = binds_ok (ex # exs) qs ds"
| "binds_ok exs qs (QueueDeclare q dur del excl nowait args # ds) = binds_ok exs (q # qs) ds"
| "binds_ok exs qs (QueueBind q key ex nowait args # ds) = (ex \<in> set exs \<and> q \<in> set qs \<and> binds_ok exs qs ds)"

definition decl_exchanges :: "amqp_decl list \<Rightarrow> go_string list" where
  "decl_exchanges ds = concat (map (\<lambda>d. case d of ExchangeDeclare ex kind dur del internal nowait args \<Rightarrow> [ex] | _ \<Rightarrow> []) ds)"

lemma binds_ok_mono:
  "binds_ok exs qs ds \<Longrightarrow> set exs \<subseteq> set exs' \<Longrightarrow> set qs \<subseteq> set qs' \<Longrightarrow> binds_ok exs' qs' ds"
proof (induction exs qs ds arbitrary: exs' qs' rule: binds_ok.induct)
  case (2 exs qs ex kind dur del internal nowait args ds)
  have "binds_ok (ex # exs') qs' ds" by (rule "2.IH") (use 2 in auto)
  then show ?case by simp
next
  case (3 exs qs q dur del excl nowait args ds)
  have "binds_ok exs' (q # qs') ds" by (rule "3.IH") (use 3 in auto)
  then show ?case by simp
qed auto

lemma binds_ok_append:
  "binds_ok exs qs ds \<Longrightarrow> binds_ok (rev (decl_exchanges ds) @ exs) (rev (decl_queues ds) @ qs) ds'
     \<Longrightarrow> binds_ok exs qs (ds @ ds')"
  by (induction exs qs ds rule: binds_ok.induct) (simp_all add: decl_exchanges_def decl_queues_def)

lemma binds_ok_concat:
  "(\<And>ds. ds \<in> set dss \<Longrightarrow> binds_ok exs [] ds) \<Longrightarrow> binds_ok exs qs (concat dss)"
proof (induction dss arbitrary: qs)
  case (Cons ds dss)
  have "binds_ok exs qs ds" by (rule binds_ok_mono [OF Cons.prems [of ds]]) auto
  moreover have "binds_ok exs (rev (decl_queues ds) @ qs) (concat dss)" using Cons by simp
  then have "binds_ok (rev (decl_exchanges ds) @ exs) (rev (decl_queues ds) @ qs) (concat dss)"
    by (rule binds_ok_mono) auto
  ultimately show ?case using binds_ok_append by simp
qed simp

lemma topology_binds_ok: "binds_ok [] [] (map fst (topology_decls t))"
proof -
  let ?main = "concat (map (map fst \<circ> binding_decls t) (t_Bindings t))"
  let ?rest = "concat (map (\<lambda>channel.
         concat (map (\<lambda>priority. concat (map (map fst \<circ> retry_queue_decls t channel priority) [1, 2, 3]))
           topo_priorities)
         @ map fst (dlq_decls t channel)) topo_channels)"
  let ?ex = "\<lambda>x. ExchangeDeclare x ''topic'' True False False False []"
  have eq: "map fst (topology_decls t)
      = ?ex (t_Exchange t) # ?main @ [?ex ExchangeRetry, ?ex ExchangeDLQ] @ ?rest"
    by (simp add: topology_decls_def map_concat comp_def)
  have main: "binds_ok [t_Exchange t] [] ?main"
    by (rule binds_ok_concat) (auto simp: binding_decls_def)
  have "binds_ok [ExchangeDLQ, ExchangeRetry] qs ?rest" for qs
    by (rule binds_ok_concat)
      (auto simp: retry_queue_decls_def dlq_decls_def topo_channels_def topo_priorities_def Let_def)
  then have rest: "binds_ok (exs @ [ExchangeDLQ, ExchangeRetry] @ exs') qs ?rest" for exs exs' qs
    by (rule binds_ok_mono) auto
  have "binds_ok [t_Exchange t] [] (?main @ ?ex ExchangeRetry # ?ex ExchangeDLQ # ?rest)"
    by (rule binds_ok_append [OF main]) (use rest [of "[]"] in simp)
  then show ?thesis by (simp add: eq)
qed

text \<open>What survives a restart of the broker and is shared by all connections: durable topic
  exchanges and durable queues, none deleted automatically, none exclusive.\<close>

fun lasting :: "amqp_decl \<Rightarrow> bool" where
  "lasting (ExchangeDeclare ex kind dur del internal nowait args) =
     (kind = ''topic'' \<and> dur \<and> \<not> del \<and> \<not> internal)"
| "lasting (QueueDeclare q dur del excl nowait args) = (dur \<and> \<not> del \<and> \<not> excl)"
| "lasting (QueueBind q key ex nowait args) = True"

lemma topology_lasting: "list_all lasting (map fst (topology_decls t))"
  by (auto simp: topology_decls_def binding_decls_def retry_queue_decls_def dlq_decls_def list_all_iff Let_def)

text \<open>The declarations made on a channel that answers the history \<open>h\<close> with \<open>answer h\<close>.\<close>

definition logged ::
  "(amqp_decl list \<Rightarrow> goerror option) \<Rightarrow> amqp_decl \<Rightarrow> amqp_decl list \<Rightarrow> goerror option \<times> amqp_decl list"
where
  "logged answer d h = (answer (h @ [d]), h @ [d])"

lemma declare_all_prefix:
  "\<exists>ds1 ds2. ds = ds1 @ ds2
     \<and> snd (declare_all (logged answer) ds h) = h @ map fst ds1
     \<and> (case fst (declare_all (logged answer) ds h) of
          None \<Rightarrow> ds2 = []
        | Some e \<Rightarrow> ds1 \<noteq> [] \<and> (\<exists>e0. answer (h @ map fst ds1) = Some e0
            \<and> e = ErrorWrap (snd (last ds1)) e0 []))"
proof (induction ds arbitrary: h)
  case Nil
  then show ?case by simp
next
  case (Cons dm ds)
  obtain d msg where dm: "dm = (d, msg)" by fastforce
  show ?case
  proof (cases "answer (h @ [d])")
    case (Some e)
    then show ?thesis by (intro exI [of _ "[dm]"] exI [of _ ds]) (simp add: dm logged_def)
  next
    case None
    then have step: "declare_all (logged answer) (dm # ds) h = declare_all (logged answer) ds (h @ [d])"
      by (simp add: dm logged_def)
    obtain ds1 ds2 where "ds = ds1 @ ds2"
      "snd (declare_all (logged answer) ds (h @ [d])) = (h @ [d]) @ map fst ds1"
      "case fst (declare_all (logged answer) ds (h @ [d])) of
          None \<Rightarrow> ds2 = []
        | Some e \<Rightarrow> ds1 \<noteq> [] \<and> (\<exists>e0. answer ((h @ [d]) @ map fst ds1) = Some e0
            \<and> e = ErrorWrap (snd (last ds1)) e0 [])"
      using Cons.IH [of "h @ [d]"] by blast
    then show ?thesis unfolding step
      by (intro exI [of _ "dm # ds1"] exI [of _ ds2]) (auto simp: dm split: option.splits)
  qed
qed

section \<open>Properties\<close>

text \<open>In the production topology every key the API publishes with, for a valid channel and a
  valid or empty priority, is routed to exactly one work queue, the one of that channel and
  priority (normal when empty).\<close>

theorem main_exchange_routes:
  assumes "topic_literal matches" and "Channel_Valid ch" and "p = [] \<or> Priority_Valid p"
  shows "routed_to matches ProductionTopology ExchangeNotifications (RoutingKey ch p)
     = [ch @ ''.'' @ (if p = [] then PriorityNormal else p)]"
proof -
  have "(if p = [] then PriorityNormal else p) \<in> set topo_priorities" and "ch \<in> set topo_channels"
    using assms(2,3) by (auto simp: channel_mem priority_mem topo_priorities_def)
  then show ?thesis using main_routes
    unfolding RoutingKey_eq production_routes [OF assms(1)] list_all_iff by blast
qed

theorem main_exchange_routes_witness:
  "routed_to (=) ProductionTopology ExchangeNotifications (RoutingKey ''sms'' [])
     = [''sms'' @ ''.'' @ (if ([]::string) = [] then PriorityNormal else [])]"
  by (rule main_exchange_routes [OF topic_literal_eq]) (simp_all add: Channel_Valid_iff)

text \<open>Each retry key of levels 1 to 3 is routed to exactly its own retry queue; that queue
  holds a message for 30 s, 120 s or 600 s and dead-letters it to the main exchange under a
  key that leads back to the work queue the message came from.\<close>

theorem retry_exchange_routes:
  assumes "topic_literal matches" and "Channel_Valid ch" and "Priority_Valid p"
    and "1 \<le> level" and "level \<le> 3"
  shows "routed_to matches ProductionTopology ExchangeRetry (retry_routing_key ch p level)
       = [RetryQueueName ProductionTopology ch p level]
    \<and> queue_args ProductionTopology (RetryQueueName ProductionTopology ch p level)
       = [[(''x-message-ttl'', VInt32 (if level = 1 then 30000 else if level = 2 then 120000 else 600000)),
           (''x-dead-letter-exchange'', VString ExchangeNotifications),
           (''x-dead-letter-routing-key'', VString (RoutingKey ch p))]]
    \<and> routed_to matches ProductionTopology ExchangeNotifications (RoutingKey ch p) = [ch @ ''.'' @ p]"
proof -
  have ch: "ch \<in> set topo_channels" and p: "p \<in> set topo_priorities" and ne: "p \<noteq> []"
    using assms(2,3) by (auto simp: channel_mem priority_mem topo_priorities_def)
  have key: "RoutingKey ch p = ch @ ''.'' @ p" using ne by (simp add: RoutingKey_eq)
  have l: "level = 1 \<or> level = 2 \<or> level = 3" using assms(4,5) by auto
  show ?thesis
    using ch p l retry_routes main_routes retry_queue_args
    unfolding key production_routes [OF assms(1)] list_all_iff by auto
qed

theorem retry_exchange_routes_witness:
  "routed_to (=) ProductionTopology ExchangeRetry (retry_routing_key ''push'' ''low'' 2)
       = [RetryQueueName ProductionTopology ''push'' ''low'' 2]
    \<and> queue_args ProductionTopology (RetryQueueName ProductionTopology ''push'' ''low'' 2)
       = [[(''x-message-ttl'', VInt32 (if (2::int) = 1 then 30000 else if (2::int) = 2 then 120000 else 600000)),
           (''x-dead-letter-exchange'', VString ExchangeNotifications),
           (''x-dead-letter-routing-key'', VString (RoutingKey ''push'' ''low''))]]
    \<and> routed_to (=) ProductionTopology ExchangeNotifications (RoutingKey ''push'' ''low'')
       = [''push'' @ ''.'' @ ''low'']"
  by (rule retry_exchange_routes [OF topic_literal_eq])
    (simp_all add: Channel_Valid_iff Priority_Valid_iff)

text \<open>The DLQ key of a channel is routed to exactly that channel's DLQ, a queue without
  arguments; the key \<open>unknown\<close>, under which a poison message with an unrecognised routing key
  is published, is routed to no queue.\<close>

theorem dlq_exchange_routes:
  assumes "topic_literal matches"
  shows "list_all (\<lambda>ch. routed_to matches ProductionTopology ExchangeDLQ ch
            = [DLQQueueName ProductionTopology ch]
          \<and> queue_args ProductionTopology (DLQQueueName ProductionTopology ch) = [[]]) topo_channels
    \<and> routed_to matches ProductionTopology ExchangeDLQ ''unknown'' = []"
  using dlq_routes unknown_route by (simp only: production_routes [OF assms] simp_thms)

theorem dlq_exchange_routes_witness:
  "list_all (\<lambda>ch. routed_to (=) ProductionTopology ExchangeDLQ ch
            = [DLQQueueName ProductionTopology ch]
          \<and> queue_args ProductionTopology (DLQQueueName ProductionTopology ch) = [[]]) topo_channels
    \<and> routed_to (=) ProductionTopology ExchangeDLQ ''unknown'' = []"
  by (rule dlq_exchange_routes [OF topic_literal_eq])

text \<open>C37: The production topology, for each channel and priority: what the API publishes reaches
  exactly its work queue; a retry of level 1, 2 or 3 reaches exactly its retry queue, which
  holds it 30 s, 120 s or 600 s and dead-letters it to the main exchange under the key of the same
  work queue; a dead letter reaches exactly the DLQ of its channel, which has no arguments; and
  the key \<open>unknown\<close> of a poison message reaches no queue.\<close>

theorem topology_routes:
  assumes "topic_literal matches" and "Channel_Valid ch" and "Priority_Valid p"
  shows "routed_to matches ProductionTopology ExchangeNotifications (RoutingKey ch p) = [ch @ ''.'' @ p]
    \<and> routed_to matches ProductionTopology ExchangeNotifications (RoutingKey ch []) = [ch @ ''.'' @ PriorityNormal]
    \<and> list_all (\<lambda>(level, ms).
          routed_to matches ProductionTopology ExchangeRetry (retry_routing_key ch p level)
            = [RetryQueueName ProductionTopology ch p level]
        \<and> queue_args ProductionTopology (RetryQueueName ProductionTopology ch p level)
            = [[(''x-message-ttl'', VInt32 ms), (''x-dead-letter-exchange'', VString ExchangeNotifications),
                (''x-dead-letter-routing-key'', VString (RoutingKey ch p))]])
        [(1, 30000), (2, 120000), (3, 600000)]
    \<and> routed_to matches ProductionTopology ExchangeDLQ ch = [DLQQueueName ProductionTopology ch]
    \<and> queue_args ProductionTopology (DLQQueueName ProductionTopology ch) = [[]]
    \<and> routed_to matches ProductionTopology ExchangeDLQ ''unknown'' = []"
proof -
  have "p \<noteq> []" using assms(3) by (auto simp: Priority_Valid_iff)
  moreover have "ch \<in> set topo_channels" using assms(2) by (simp add: channel_mem)
  ultimately show ?thesis
    using main_exchange_routes [OF assms(1,2), of p] main_exchange_routes [OF assms(1,2), of "[]"] assms(3)
      retry_exchange_routes [OF assms, of 1] retry_exchange_routes [OF assms, of 2]
      retry_exchange_routes [OF assms, of 3] dlq_exchange_routes [OF assms(1)]
    by (simp add: list_all_iff)
qed

theorem topology_routes_witness:
  "routed_to (=) ProductionTopology ExchangeNotifications (RoutingKey ''push'' ''low'') = [''push'' @ ''.'' @ ''low'']
    \<and> routed_to (=) ProductionTopology ExchangeNotifications (RoutingKey ''push'' []) = [''push'' @ ''.'' @ PriorityNormal]
    \<and> list_all (\<lambda>(level, ms).
          routed_to (=) ProductionTopology ExchangeRetry (retry_routing_key ''push'' ''low'' level)
            = [RetryQueueName ProductionTopology ''push'' ''low'' level]
        \<and> queue_args ProductionTopology (RetryQueueName ProductionTopology ''push'' ''low'' level)
            = [[(''x-message-ttl'', VInt32 ms), (''x-dead-letter-exchange'', VString ExchangeNotifications),
                (''x-dead-letter-routing-key'', VString (RoutingKey ''push'' ''low''))]])
        [(1, 30000), (2, 120000), (3, 600000)]
    \<and> routed_to (=) ProductionTopology ExchangeDLQ ''push'' = [DLQQueueName ProductionTopology ''push'']
    \<and> queue_args ProductionTopology (DLQQueueName ProductionTopology ''push'') = [[]]
    \<and> routed_to (=) ProductionTopology ExchangeDLQ ''unknown'' = []"
  by (rule topology_routes [OF topic_literal_eq]) (simp_all add: Channel_Valid_iff Priority_Valid_iff)

text \<open>\<open>DeclareTopologyWith\<close>, for every topology and every behaviour of the broker, makes an
  initial part of the declarations in order, all of them exactly when it returns nil, stops at
  the first failure with that failure wrapped, and never binds before both the exchange and
  the queue have been declared. All it declares is durable and shared.\<close>

theorem DeclareTopology_in_order:
  "binds_ok [] [] (map fst (topology_decls t)) \<and> list_all lasting (map fst (topology_decls t))
   \<and> (\<exists>ds1 ds2. topology_decls t = ds1 @ ds2
     \<and> snd (DeclareTopologyWith (logged answer) t []) = map fst ds1
     \<and> (case fst (DeclareTopologyWith (logged answer) t []) of
          None \<Rightarrow> ds2 = []
        | Some e \<Rightarrow> ds1 \<noteq> [] \<and> (\<exists>e0. answer (map fst ds1) = Some e0
            \<and> e = ErrorWrap (snd (last ds1)) e0 [])))"
  unfolding DeclareTopologyWith_def
  using topology_binds_ok topology_lasting declare_all_prefix [of "topology_decls t" answer "[]", unfolded append_Nil]
  by blast

text \<open>\<open>PublishToExchange\<close> returns nil exactly when the client library accepted the
  persistent, mandatory publication and the broker confirmed it.\<close>

theorem PublishToExchange_confirmed:
  "PublishToExchange p ex key hs body w = (None, w') \<longleftrightarrow>
     (\<exists>conf w1. ch_Publish (p_ch p) ex key True False
         \<lparr>pub_ContentType = ''application/json'', pub_Persistent = True,
          pub_Timestamp = ch_Now (p_ch p) w, pub_Headers = hs, pub_Body = body\<rparr> w = (Inr conf, w1)
       \<and> ch_WaitContext (p_ch p) conf w1 = (Inr True, w'))"
  by (auto simp: PublishToExchange_def Let_def split: prod.splits sum.splits if_splits)

end
