(* ===== verification/App_Types.thy ===== *)
theory App_Types
  imports Domain
begin

text \<open>
  The values the application layer shares with its adapters: the sentinels of
  \<open>internal/app/notification_service.go\<close>, and \<open>BatchSummary\<close> and \<open>ListFilter\<close> of
  \<open>internal/app/types.go\<close>.
\<close>

definition ErrNotFound :: goerror where
  "ErrNotFound = ErrorNew ''app.ErrNotFound'' ''not found''"

definition ErrNotPending :: goerror where
  "ErrNotPending = ErrorNew ''app.ErrNotPending'' ''notification is not pending''"

definition ErrInvalidInput :: goerror where
  "ErrInvalidInput = ErrorNew ''app.ErrInvalidInput'' ''invalid input''"

record BatchSummary =
  bs_ID :: uuid
  bs_Total :: int
  bs_Pending :: int
  bs_Delivered :: int
  bs_Failed :: int
  bs_Cancelled :: int

record ListFilter =
  lf_Status :: Status
  lf_Channel :: Channel
  lf_DateFrom :: time
  lf_DateTo :: time

text \<open>What a filter asks of a stored notification: a zero field asks nothing. The database
  compares with the bounds rounded by \<open>r\<close> to its resolution.\<close>

definition filter_matches :: "(time \<Rightarrow> time) \<Rightarrow> ListFilter \<Rightarrow> Notification \<Rightarrow> bool" where
  "filter_matches r f n \<longleftrightarrow>
     (lf_Status f = [] \<or> n_Status n = lf_Status f)
     \<and> (lf_Channel f = [] \<or> n_Channel n = lf_Channel f)
     \<and> (time_IsZero (lf_DateFrom f) \<or> r (lf_DateFrom f) \<le> n_CreatedAt n)
     \<and> (time_IsZero (lf_DateTo f) \<or> n_CreatedAt n \<le> r (lf_DateTo f))"

text \<open>Counts of a summary over its statuses.\<close>

definition status_total :: "BatchSummary \<Rightarrow> int" where
  "status_total s = bs_Pending s + bs_Delivered s + bs_Failed s + bs_Cancelled s"

end
