(* ===== verification/Ports.thy ===== *)
theory Ports
  imports App_Types
begin

text \<open>
  The contracts between the application layer and its adapters, as locales: what the ports of
  \<open>internal/app\<close> (\<open>ProcessedMarker\<close>, \<open>StatusUpdater\<close>, \<open>Repository\<close>, \<open>MessagePublisher\<close>,
  \<open>RetryPublisher\<close>) promise, over an abstract view of the state behind them. The lemmas of
  the clients are proved under these contracts; the theories of the adapters interpret them.
\<close>

section \<open>The dedup store behind \<open>ProcessedMarker\<close>\<close>

text \<open>\<open>seen\<close> is the set of message ids with a dedup row. A failed call may or may not have taken
  effect.\<close>

locale dedup_store =
  fixes mark :: "uuid \<Rightarrow> 'w \<Rightarrow> (goerror + bool) \<times> 'w"
    and delete :: "uuid \<Rightarrow> 'w \<Rightarrow> goerror option \<times> 'w"
    and seen :: "'w \<Rightarrow> uuid set"
  assumes mark_answer: "mark i w = (Inr b, w') \<Longrightarrow> b = (i \<notin> seen w) \<and> seen w' = insert i (seen w)"
    and mark_error: "mark i w = (Inl e, w') \<Longrightarrow> seen w' = seen w \<or> seen w' = insert i (seen w)"
    and delete_nil: "delete i w = (None, w') \<Longrightarrow> seen w' = seen w - {i}"
    and delete_error: "delete i w = (Some e, w') \<Longrightarrow> seen w' = seen w \<or> seen w' = seen w - {i}"
begin

lemma mark_seen: "i \<in> seen w \<Longrightarrow> mark i w = (Inr b, w') \<Longrightarrow> \<not> b \<and> seen w' = seen w"
  by (auto dest: mark_answer)

lemma mark_keeps: "j \<in> seen w \<Longrightarrow> j \<in> seen (snd (mark i w))"
proof (cases "mark i w")
  case (Pair r w')
  assume "j \<in> seen w"
  then show ?thesis using Pair mark_answer [of i w _ w'] mark_error [of i w _ w'] by (cases r) auto
qed

lemma mark_true_once:
  "mark i w = (Inr True, w1) \<Longrightarrow> i \<in> seen w2 \<Longrightarrow> mark i w2 \<noteq> (Inr True, w3)"
  by (auto dest: mark_answer)

lemma delete_other: "j \<noteq> i \<Longrightarrow> j \<in> seen w \<Longrightarrow> j \<in> seen (snd (delete i w))"
proof (cases "delete i w")
  case (Pair r w')
  assume "j \<noteq> i" "j \<in> seen w"
  then show ?thesis using Pair delete_nil [of i w w'] delete_error [of i w _ w'] by (cases r) auto
qed

end

section \<open>The status store behind \<open>StatusUpdater\<close>\<close>

locale status_store =
  fixes update :: "uuid \<Rightarrow> Status \<Rightarrow> 'w \<Rightarrow> goerror option \<times> 'w"
    and status_of :: "'w \<Rightarrow> uuid \<Rightarrow> Status option"
  assumes update_nil:
      "update i s w = (None, w') \<Longrightarrow> status_of w i \<noteq> None \<and> status_of w' = (status_of w)(i \<mapsto> s)"
    and update_error:
      "update i s w = (Some e, w')
         \<Longrightarrow> status_of w' = status_of w \<or> (status_of w i \<noteq> None \<and> status_of w' = (status_of w)(i \<mapsto> s))"
begin

lemma update_same_domain: "dom (status_of (snd (update i s w))) = dom (status_of w)"
proof (cases "update i s w")
  case (Pair r w')
  then show ?thesis
    using update_nil [of i s w w'] update_error [of i s w _ w']
    by (cases r) (auto split: if_splits)
qed

lemma update_others: "j \<noteq> i \<Longrightarrow> status_of (snd (update i s w)) j = status_of w j"
proof (cases "update i s w")
  case (Pair r w')
  assume "j \<noteq> i"
  then show ?thesis using Pair update_nil [of i s w w'] update_error [of i s w _ w'] by (cases r) auto
qed

end

section \<open>The notification store behind \<open>Repository\<close>\<close>

text \<open>\<open>rows\<close> are the stored notifications, \<open>kept\<close> is what storing does to one (its timestamps lose
  precision).\<close>

locale notification_store =
  fixes insert_row :: "Notification \<Rightarrow> 'w \<Rightarrow> goerror option \<times> 'w"
    and by_key :: "go_string \<Rightarrow> 'w \<Rightarrow> (goerror + Notification) \<times> 'w"
    and rows :: "'w \<Rightarrow> Notification list"
    and kept :: "Notification \<Rightarrow> Notification"
  assumes insert_nil: "insert_row n w = (None, w') \<Longrightarrow> rows w' = rows w @ [kept n]
        \<and> (\<forall>m \<in> set (rows w). n_ID m \<noteq> n_ID n
             \<and> (n_IdempotencyKey n \<noteq> None \<longrightarrow> n_IdempotencyKey m \<noteq> n_IdempotencyKey n))"
    and insert_error: "insert_row n w = (Some e, w') \<Longrightarrow> rows w' = rows w \<or> rows w' = rows w @ [kept n]"
    and by_key_row: "by_key k w = (Inr n, w') \<Longrightarrow> rows w' = rows w
        \<and> n \<in> set (rows w) \<and> n_IdempotencyKey n = Some k"
    and by_key_none: "by_key k w = (Inl e, w') \<Longrightarrow> rows w' = rows w
        \<and> (errors_Is e ErrNotFound \<longrightarrow> (\<forall>n \<in> set (rows w). n_IdempotencyKey n \<noteq> Some k))"
    and kept_key: "n_IdempotencyKey (kept n) = n_IdempotencyKey n"
begin

lemma by_key_reads: "rows (snd (by_key k w)) = rows w"
  using by_key_row by_key_none by (metis prod.collapse sum.exhaust)

lemma by_key_found:
  "n \<in> set (rows w) \<Longrightarrow> n_IdempotencyKey n = Some k \<Longrightarrow> fst (by_key k w) = Inl e
     \<Longrightarrow> \<not> errors_Is e ErrNotFound"
  using by_key_none by (metis prod.collapse)

end

section \<open>A publisher with confirms\<close>

text \<open>\<open>sent\<close> are the messages the broker has accepted, oldest first; nil means accepted.\<close>

locale confirming_publisher =
  fixes publish :: "'m \<Rightarrow> 'w \<Rightarrow> goerror option \<times> 'w"
    and sent :: "'w \<Rightarrow> 'm list"
  assumes publish_nil: "publish m w = (None, w') \<Longrightarrow> sent w' = sent w @ [m]"
    and publish_error: "publish m w = (Some e, w') \<Longrightarrow> sent w' = sent w \<or> sent w' = sent w @ [m]"
begin

lemma publish_extends: "\<exists>ms. sent (snd (publish m w)) = sent w @ ms \<and> set ms \<subseteq> {m}"
proof (cases "publish m w")
  case (Pair r w')
  then show ?thesis
    using publish_nil [of m w w'] publish_error [of m w _ w'] by (cases r) force+
qed

end

end
