(* ===== verification/Postgres.thy ===== *)
theory Postgres
  imports App_Types Json "HOL-Library.Product_Lexorder"
begin

text \<open>
  \<open>internal/adapter/postgres\<close> on the schema of \<open>migrations/\<close>. The database is a record of
  tables; a repository operation is the sequence of statements the Go method sends, with its
  error handling. The server is a parameter \<open>F\<close>: whether the call fails (before the statement
  took effect, or after it, with the reply lost), what other sessions committed just before a
  statement (the default isolation level is read committed), its clock, the rounding of
  \<open>timestamptz\<close>, and where the error of a query for many rows comes up. What a statement does to the tables is written out from its text and the
  constraints of the migrations.
\<close>

section \<open>Schema\<close>

record DeliveryAttemptRow =
  da_ID :: int
  da_NotificationID :: uuid
  da_AttemptNumber :: int
  da_Status :: go_string
  da_ErrorReason :: "go_string option"
  da_ProviderResponse :: "go_string option"
  da_AttemptedAt :: time

text \<open>A row of \<open>notifications\<close> has the columns of the struct \<open>domain.Notification\<close>.\<close>

record db =
  tb_notifications :: "Notification list"
  tb_batches :: "(uuid \<times> int) list"
  tb_processed :: "uuid list"
  tb_attempts :: "DeliveryAttemptRow list"
  sq_attempts :: int

definition empty_db :: db where
  "empty_db =
     \<lparr>tb_notifications = [], tb_batches = [], tb_processed = [], tb_attempts = [], sq_attempts = 1\<rparr>"

text \<open>A \<open>TEXT\<close> value is valid UTF-8 without the zero byte; an \<open>INT\<close> has 32 bits.\<close>

definition text_ok :: "go_string \<Rightarrow> bool" where
  "text_ok s \<longleftrightarrow> valid_utf8 s \<and> CHR 0x00 \<notin> set s"

definition int4_ok :: "int \<Rightarrow> bool" where
  "int4_ok i \<longleftrightarrow> - (2 ^ 31) \<le> i \<and> i < 2 ^ 31"

section \<open>The server\<close>

text \<open>A failed call gives an error of the driver, which is none of the sentinels the code compares
  with.\<close>

datatype fault = Lost_before string | Lost_after string

fun fault_error :: "fault \<Rightarrow> goerror" where
  "fault_error (Lost_before msg) = ErrorText msg"
| "fault_error (Lost_after msg) = ErrorText msg"

text \<open>The driver reports the failure of a query for many rows from \<open>Query\<close>, while a row is scanned, or
  from \<open>rows.Err\<close>.\<close>

datatype rows_stage = In_Query | In_Scan | In_Err

record server =
  sv_fault :: "nat \<Rightarrow> fault option"
  sv_other :: "nat \<Rightarrow> db \<Rightarrow> db"
  sv_now :: "nat \<Rightarrow> time"
  sv_round :: "time \<Rightarrow> time"
  sv_stage :: "nat \<Rightarrow> rows_stage"

record pg =
  pg_db :: db
  pg_calls :: nat

type_synonym 'a statement = "time \<Rightarrow> db \<Rightarrow> goerror + ('a \<times> db)"

text \<open>One statement in a transaction of its own.\<close>

definition exec :: "server \<Rightarrow> 'a statement \<Rightarrow> pg \<Rightarrow> (goerror + 'a) \<times> pg" where
  "exec F stmt w =
     (let k = pg_calls w;
          d = sv_other F k (pg_db w);
          now = sv_round F (sv_now F k)
      in case sv_fault F k of
           Some (Lost_before msg) \<Rightarrow> (Inl (ErrorText msg), \<lparr>pg_db = d, pg_calls = k + 1\<rparr>)
         | Some (Lost_after msg) \<Rightarrow>
            (case stmt now d of
               Inl _ \<Rightarrow> (Inl (ErrorText msg), \<lparr>pg_db = d, pg_calls = k + 1\<rparr>)
             | Inr (_, d') \<Rightarrow> (Inl (ErrorText msg), \<lparr>pg_db = d', pg_calls = k + 1\<rparr>))
         | None \<Rightarrow>
            (case stmt now d of
               Inl e \<Rightarrow> (Inl e, \<lparr>pg_db = d, pg_calls = k + 1\<rparr>)
             | Inr (a, d') \<Rightarrow> (Inr a, \<lparr>pg_db = d', pg_calls = k + 1\<rparr>)))"

definition rows_error :: "server \<Rightarrow> pg \<Rightarrow> string \<Rightarrow> string \<Rightarrow> string \<Rightarrow> goerror \<Rightarrow> goerror" where
  "rows_error F w in_query in_scan in_err err =
     ErrorWrap (case sv_stage F (pg_calls w) of In_Query \<Rightarrow> in_query | In_Scan \<Rightarrow> in_scan | In_Err \<Rightarrow> in_err) err []"

text \<open>A statement inside a transaction works on the transaction's view \<open>d\<close>; committing makes the
  view the database. A writing transaction is serialised: other sessions commit before it
  begins.\<close>

definition tx_exec :: "server \<Rightarrow> 'a statement \<Rightarrow> db \<times> pg \<Rightarrow> (goerror + 'a) \<times> (db \<times> pg)" where
  "tx_exec F stmt t =
     (let (d, w) = t; k = pg_calls w; w' = w\<lparr>pg_calls := k + 1\<rparr>
      in case sv_fault F k of
           Some f \<Rightarrow> (Inl (fault_error f), (d, w'))
         | None \<Rightarrow>
            (case stmt (sv_round F (sv_now F k)) d of
               Inl e \<Rightarrow> (Inl e, (d, w'))
             | Inr (a, d') \<Rightarrow> (Inr a, (d', w'))))"

definition tx_begin :: "server \<Rightarrow> pg \<Rightarrow> (goerror + db) \<times> pg" where
  "tx_begin F w = exec F (\<lambda>now d. Inr (d, d)) w"

definition tx_commit :: "server \<Rightarrow> db \<times> pg \<Rightarrow> goerror option \<times> pg" where
  "tx_commit F t =
     (let (d, w) = t; k = pg_calls w
      in case sv_fault F k of
           None \<Rightarrow> (None, \<lparr>pg_db = d, pg_calls = k + 1\<rparr>)
         | Some (Lost_before msg) \<Rightarrow> (Some (ErrorText msg), w\<lparr>pg_calls := k + 1\<rparr>)
         | Some (Lost_after msg) \<Rightarrow> (Some (ErrorText msg), \<lparr>pg_db = d, pg_calls = k + 1\<rparr>))"

text \<open>\<open>QueryRow(...).Scan\<close> answers \<open>pgx.ErrNoRows\<close> when the result is empty.\<close>

definition ErrNoRows :: goerror where
  "ErrNoRows = ErrorNew ''pgx.ErrNoRows'' ''no rows in result set''"

section \<open>Statements on \<open>notifications\<close>\<close>

definition notification_texts :: "Notification \<Rightarrow> go_string list" where
  "notification_texts n =
     [n_Recipient n, n_Channel n, n_Content n, n_Priority n, n_Status n]
     @ (case n_IdempotencyKey n of None \<Rightarrow> [] | Some k \<Rightarrow> [k])"

definition stored :: "server \<Rightarrow> Notification \<Rightarrow> Notification" where
  "stored F n = n\<lparr>n_CreatedAt := sv_round F (n_CreatedAt n), n_UpdatedAt := sv_round F (n_UpdatedAt n)\<rparr>"

definition pg_error :: "string \<Rightarrow> goerror" where
  "pg_error msg = ErrorText (''ERROR: '' @ msg)"

text \<open>\<open>INSERT INTO notifications\<close>: the types of the columns, the primary key, the partial unique
  index on \<open>idempotency_key\<close> and the foreign key to \<open>batches\<close>.\<close>

definition sql_insert_notification :: "server \<Rightarrow> Notification \<Rightarrow> unit statement" where
  "sql_insert_notification F n now d =
     (if \<not> list_all text_ok (notification_texts n) then Inl (pg_error ''invalid text'')
      else if n_ID n \<in> set (map n_ID (tb_notifications d))
      then Inl (pg_error ''duplicate key: notifications_pkey'')
      else if n_IdempotencyKey n \<noteq> None
           \<and> n_IdempotencyKey n \<in> set (map n_IdempotencyKey (tb_notifications d))
      then Inl (pg_error ''duplicate key: idx_notifications_idempotency_key'')
      else if (case n_BatchID n of None \<Rightarrow> False | Some b \<Rightarrow> b \<notin> set (map fst (tb_batches d)))
      then Inl (pg_error ''foreign key: notifications_batch_id_fkey'')
      else Inr ((), d\<lparr>tb_notifications := tb_notifications d @ [stored F n]\<rparr>))"

fun sql_copy_notifications :: "server \<Rightarrow> Notification list \<Rightarrow> unit statement" where
  "sql_copy_notifications F [] now d = Inr ((), d)"
| "sql_copy_notifications F (n # ns) now d =
     (case sql_insert_notification F n now d of
        Inl e \<Rightarrow> Inl e
      | Inr (_, d) \<Rightarrow> sql_copy_notifications F ns now d)"

definition sql_insert_batch :: "uuid \<Rightarrow> int \<Rightarrow> unit statement" where
  "sql_insert_batch batchID total_count now d =
     (if \<not> int4_ok total_count then Inl (pg_error ''integer out of range'')
      else if batchID \<in> set (map fst (tb_batches d)) then Inl (pg_error ''duplicate key: batches_pkey'')
      else Inr ((), d\<lparr>tb_batches := tb_batches d @ [(batchID, total_count)]\<rparr>))"

definition sql_row :: "(Notification \<Rightarrow> bool) \<Rightarrow> Notification statement" where
  "sql_row P now d = (case find P (tb_notifications d) of
      None \<Rightarrow> Inl ErrNoRows
    | Some n \<Rightarrow> Inr (n, d))"

text \<open>\<open>UPDATE notifications SET status = s, updated_at = NOW() WHERE ...\<close>; the answer is the
  list of the updated rows.\<close>

definition set_status :: "Status \<Rightarrow> time \<Rightarrow> Notification \<Rightarrow> Notification" where
  "set_status s now n = n\<lparr>n_Status := s, n_UpdatedAt := now\<rparr>"

definition sql_update_status :: "Status \<Rightarrow> (Notification \<Rightarrow> bool) \<Rightarrow> Notification list statement" where
  "sql_update_status s P now d =
     (if \<not> text_ok s then Inl (pg_error ''invalid text'')
      else Inr (map (set_status s now) (filter P (tb_notifications d)),
             d\<lparr>tb_notifications :=
                 map (\<lambda>n. if P n then set_status s now n else n) (tb_notifications d)\<rparr>))"

section \<open>notification_repository.go\<close>

definition Insert :: "server \<Rightarrow> Notification \<Rightarrow> pg \<Rightarrow> goerror option \<times> pg" where
  "Insert F n w =
     (case exec F (sql_insert_notification F n) w of
        (Inl err, w) \<Rightarrow> (Some (ErrorWrap ''insert notification: '' err []), w)
      | (Inr _, w) \<Rightarrow> (None, w))"

definition GetByID :: "server \<Rightarrow> uuid \<Rightarrow> pg \<Rightarrow> (goerror + Notification) \<times> pg" where
  "GetByID F i w =
     (case exec F (sql_row (\<lambda>n. n_ID n = i)) w of
        (Inl err, w) \<Rightarrow>
          (if errors_Is err ErrNoRows then (Inl ErrNotFound, w)
           else (Inl (ErrorWrap ''get notification: '' err []), w))
      | (Inr n, w) \<Rightarrow> (Inr n, w))"

definition UpdateStatus :: "server \<Rightarrow> uuid \<Rightarrow> Status \<Rightarrow> pg \<Rightarrow> goerror option \<times> pg" where
  "UpdateStatus F i status w =
     (case exec F (sql_update_status status (\<lambda>n. n_ID n = i)) w of
        (Inl err, w) \<Rightarrow> (Some (ErrorWrap ''update status: '' err []), w)
      | (Inr rows, w) \<Rightarrow> if length rows = 0 then (Some ErrNotFound, w) else (None, w))"

definition InsertBatch :: "server \<Rightarrow> uuid \<Rightarrow> Notification list \<Rightarrow> pg \<Rightarrow> goerror option \<times> pg" where
  "InsertBatch F batchID ns w =
     (case tx_begin F w of
        (Inl err, w) \<Rightarrow> (Some (ErrorWrap ''begin batch tx: '' err []), w)
      | (Inr d, w) \<Rightarrow>
          (case tx_exec F (sql_insert_batch batchID (int (length ns))) (d, w) of
             (Inl err, (d, w)) \<Rightarrow> (Some (ErrorWrap ''insert batch row: '' err []), w)
           | (Inr _, (d, w)) \<Rightarrow>
               (case tx_exec F (sql_copy_notifications F ns) (d, w) of
                  (Inl err, (d, w)) \<Rightarrow> (Some (ErrorWrap ''bulk insert notifications: '' err []), w)
                | (Inr _, (d, w)) \<Rightarrow>
                    (case tx_commit F (d, w) of
                       (Some err, w) \<Rightarrow> (Some (ErrorWrap ''commit batch tx: '' err []), w)
                     | (None, w) \<Rightarrow> (None, w)))))"

text \<open>The groups of \<open>GROUP BY status\<close> come in some order; the loop over them does not depend on
  it.\<close>

definition sql_batch_total :: "uuid \<Rightarrow> int statement" where
  "sql_batch_total batchID now d =
     (case map_of (tb_batches d) batchID of None \<Rightarrow> Inl ErrNoRows | Some t \<Rightarrow> Inr (t, d))"

definition batch_rows :: "uuid \<Rightarrow> db \<Rightarrow> Notification list" where
  "batch_rows batchID d = filter (\<lambda>n. n_BatchID n = Some batchID) (tb_notifications d)"

definition status_count :: "Status \<Rightarrow> Notification list \<Rightarrow> int" where
  "status_count s ns = int (length (filter (\<lambda>n. n_Status n = s) ns))"

definition sql_status_counts :: "uuid \<Rightarrow> (Status \<times> int) list statement" where
  "sql_status_counts batchID now d =
     (let rows = batch_rows batchID d
      in Inr (map (\<lambda>s. (s, status_count s rows)) (remdups (map n_Status rows)), d))"

definition summary_step :: "Status \<times> int \<Rightarrow> BatchSummary \<Rightarrow> BatchSummary" where
  "summary_step sc s =
     (let (status, count) = sc
      in if status = StatusPending then s\<lparr>bs_Pending := count\<rparr>
         else if status = StatusDelivered then s\<lparr>bs_Delivered := count\<rparr>
         else if status = StatusFailed then s\<lparr>bs_Failed := count\<rparr>
         else if status = StatusCancelled then s\<lparr>bs_Cancelled := count\<rparr>
         else s)"

definition GetBatchSummary :: "server \<Rightarrow> uuid \<Rightarrow> pg \<Rightarrow> (goerror + BatchSummary) \<times> pg" where
  "GetBatchSummary F batchID w =
     (case exec F (sql_batch_total batchID) w of
        (Inl err, w) \<Rightarrow>
          (if errors_Is err ErrNoRows then (Inl ErrNotFound, w)
           else (Inl (ErrorWrap ''get batch: '' err []), w))
      | (Inr total_count, w) \<Rightarrow>
          (case exec F (sql_status_counts batchID) w of
             (Inl err, w') \<Rightarrow>
               (Inl (rows_error F w ''query batch summary: '' ''scan batch summary row: ''
                      ''iterate batch summary: '' err), w')
           | (Inr groups, w) \<Rightarrow>
               (Inr (fold summary_step groups
                  \<lparr>bs_ID = batchID, bs_Total = total_count, bs_Pending = 0, bs_Delivered = 0,
                   bs_Failed = 0, bs_Cancelled = 0\<rparr>), w)))"

definition CancelIfPending :: "server \<Rightarrow> uuid \<Rightarrow> pg \<Rightarrow> (goerror + Notification) \<times> pg" where
  "CancelIfPending F i w =
     (case exec F (\<lambda>now d. case sql_update_status ''cancelled''
                       (\<lambda>n. n_ID n = i \<and> n_Status n = ''pending'') now d of
                     Inl e \<Rightarrow> Inl e
                   | Inr ([], d') \<Rightarrow> Inl ErrNoRows
                   | Inr (n # _, d') \<Rightarrow> Inr (n, d')) w of
        (Inl err, w) \<Rightarrow>
          (if errors_Is err ErrNoRows then
             (case exec F (\<lambda>now d. Inr (i \<in> set (map n_ID (tb_notifications d)), d)) w of
                (Inl checkErr, w) \<Rightarrow> (Inl (ErrorWrap ''existence check: '' checkErr []), w)
              | (Inr exists, w) \<Rightarrow> if \<not> exists then (Inl ErrNotFound, w) else (Inl ErrNotPending, w))
           else (Inl (ErrorWrap ''cancel notification: '' err []), w))
      | (Inr n, w) \<Rightarrow> (Inr n, w))"

definition GetByIdempotencyKey :: "server \<Rightarrow> go_string \<Rightarrow> pg \<Rightarrow> (goerror + Notification) \<times> pg" where
  "GetByIdempotencyKey F key w =
     (case exec F (\<lambda>now d. if \<not> text_ok key then Inl (pg_error ''invalid text'')
                           else sql_row (\<lambda>n. n_IdempotencyKey n = Some key) now d) w of
        (Inl err, w) \<Rightarrow>
          (if errors_Is err ErrNoRows then (Inl ErrNotFound, w)
           else (Inl (ErrorWrap ''get by idempotency key: '' err []), w))
      | (Inr n, w) \<Rightarrow> (Inr n, w))"

section \<open>processed_repository.go\<close>

text \<open>\<open>INSERT ... ON CONFLICT DO NOTHING\<close> answers the number of rows inserted.\<close>

definition sql_mark :: "uuid \<Rightarrow> nat statement" where
  "sql_mark i now d =
     (if i \<in> set (tb_processed d) then Inr (0, d)
      else Inr (1, d\<lparr>tb_processed := tb_processed d @ [i]\<rparr>))"

definition Repo_MarkIfUnprocessed :: "server \<Rightarrow> uuid \<Rightarrow> pg \<Rightarrow> (goerror + bool) \<times> pg" where
  "Repo_MarkIfUnprocessed F i w =
     (case exec F (sql_mark i) w of
        (Inl err, w) \<Rightarrow> (Inl (ErrorWrap ''mark processed: '' err []), w)
      | (Inr affected, w) \<Rightarrow> (Inr (affected = 1), w))"

definition Repo_DeleteProcessed :: "server \<Rightarrow> uuid \<Rightarrow> pg \<Rightarrow> goerror option \<times> pg" where
  "Repo_DeleteProcessed F i w =
     (case exec F (\<lambda>now d. Inr ((), d\<lparr>tb_processed := removeAll i (tb_processed d)\<rparr>)) w of
        (Inl err, w) \<Rightarrow> (Some (ErrorWrap ''delete processed: '' err []), w)
      | (Inr _, w) \<Rightarrow> (None, w))"

section \<open>delivery_attempts_repository.go\<close>

text \<open>\<open>NULLIF(x, '')\<close>.\<close>

definition nullif_empty :: "go_string \<Rightarrow> go_string option" where
  "nullif_empty s = (if s = [] then None else Some s)"

text \<open>The driver refuses an attempt number outside \<open>int4\<close>; \<open>attempted_at\<close> defaults to
  \<open>now()\<close>. Gaps that failed inserts leave in the sequence are not modelled.\<close>

definition sql_insert_attempt ::
  "uuid \<Rightarrow> int \<Rightarrow> go_string \<Rightarrow> go_string \<Rightarrow> go_string \<Rightarrow> unit statement" where
  "sql_insert_attempt i attempt status errorReason providerResponse now d =
     (if \<not> int4_ok attempt then Inl (pg_error ''integer out of range'')
      else if \<not> list_all text_ok [status, errorReason, providerResponse]
      then Inl (pg_error ''invalid text'')
      else if i \<notin> set (map n_ID (tb_notifications d))
      then Inl (pg_error ''foreign key: delivery_attempts_notification_id_fkey'')
      else Inr ((), d\<lparr>tb_attempts := tb_attempts d @
                 [\<lparr>da_ID = sq_attempts d, da_NotificationID = i, da_AttemptNumber = attempt,
                   da_Status = status, da_ErrorReason = nullif_empty errorReason,
                   da_ProviderResponse = nullif_empty providerResponse, da_AttemptedAt = now\<rparr>],
                 sq_attempts := sq_attempts d + 1\<rparr>))"

definition RecordAttempt ::
  "server \<Rightarrow> uuid \<Rightarrow> go_int \<Rightarrow> go_string \<Rightarrow> go_string \<Rightarrow> go_string \<Rightarrow> pg \<Rightarrow> goerror option \<times> pg" where
  "RecordAttempt F notificationID attemptNumber status errorReason providerResponse w =
     (case exec F (sql_insert_attempt notificationID (sint attemptNumber) status errorReason
                    providerResponse) w of
        (Inl err, w) \<Rightarrow> (Some (ErrorWrap ''record delivery attempt: '' err []), w)
      | (Inr _, w) \<Rightarrow> (None, w))"

definition attempts_of :: "uuid \<Rightarrow> db \<Rightarrow> DeliveryAttemptRow list" where
  "attempts_of i d = filter (\<lambda>a. da_NotificationID a = i) (tb_attempts d)"

definition CountAttempts :: "server \<Rightarrow> uuid \<Rightarrow> pg \<Rightarrow> (goerror + int) \<times> pg" where
  "CountAttempts F notificationID w =
     (case exec F (\<lambda>now d. Inr (int (length (attempts_of notificationID d)), d)) w of
        (Inl err, w) \<Rightarrow> (Inl (ErrorWrap ''count delivery attempts: '' err []), w)
      | (Inr count, w) \<Rightarrow> (Inr count, w))"

definition ListAttempts :: "server \<Rightarrow> uuid \<Rightarrow> pg \<Rightarrow> (goerror + DeliveryAttemptRow list) \<times> pg" where
  "ListAttempts F notificationID w =
     (case exec F (\<lambda>now d. Inr (sort_key (\<lambda>a. (da_AttemptNumber a, da_ID a))
                     (attempts_of notificationID d), d)) w of
        (Inl err, w') \<Rightarrow>
          (Inl (rows_error F w ''list delivery attempts: '' ''scan delivery attempt row: ''
                 ''iterate delivery attempts: '' err), w')
      | (Inr rows, w) \<Rightarrow> (Inr rows, w))"

section \<open>Filters and lists\<close>

text \<open>The arguments of a query, and \<open>buildListWhere\<close>: the text of the \<open>WHERE\<close> clause with the
  arguments its placeholders refer to.\<close>

datatype sql_arg = ArgText go_string | ArgTime time | ArgInt go_int

definition add_clause ::
  "bool \<Rightarrow> sql_arg \<Rightarrow> go_string \<Rightarrow> go_string list \<times> sql_arg list \<Rightarrow> go_string list \<times> sql_arg list" where
  "add_clause c arg txt st =
     (if c then let args = snd st @ [arg] in (fst st @ [txt @ Itoa (int (length args))], args)
      else st)"

definition buildListWhere :: "ListFilter \<Rightarrow> go_string \<times> sql_arg list" where
  "buildListWhere f =
     (let (clauses, args) =
        add_clause (\<not> time_IsZero (lf_DateTo f)) (ArgTime (lf_DateTo f)) ''created_at <= $''
          (add_clause (\<not> time_IsZero (lf_DateFrom f)) (ArgTime (lf_DateFrom f)) ''created_at >= $''
            (add_clause (lf_Channel f \<noteq> []) (ArgText (lf_Channel f)) ''channel = $''
              (add_clause (lf_Status f \<noteq> []) (ArgText (lf_Status f)) ''status = $''
                ([], []))))
      in if clauses = [] then ([], args)
         else ('' WHERE '' @ strings_Join clauses '' AND '', args))"

text \<open>The reading of such a query by the server: \<open>WHERE\<close> with conditions
  \<open>column operator $n\<close> joined by \<open>AND\<close>.\<close>

fun parse_conds :: "go_string list \<Rightarrow> (go_string \<times> go_string \<times> go_string) list \<times> go_string list" where
  "parse_conds (c # p # q # ws) =
     (case ws of
        w # ws' \<Rightarrow> if w = ''AND'' then (let (cs, t) = parse_conds ws' in ((c, p, q) # cs, t))
                  else ([(c, p, q)], ws)
      | [] \<Rightarrow> ([(c, p, q)], []))"
| "parse_conds ws = ([], ws)"

fun parse_where :: "go_string list \<Rightarrow> (go_string \<times> go_string \<times> go_string) list \<times> go_string list" where
  "parse_where (w # ws) = (if w = ''WHERE'' then parse_conds ws else ([], w # ws))"
| "parse_where [] = ([], [])"

fun sql_param :: "sql_arg list \<Rightarrow> go_string \<Rightarrow> sql_arg option" where
  "sql_param args (c # ds) =
     (if c = CHR ''$'' then
        (case Atoi ds of
           Some i \<Rightarrow> if 1 \<le> i \<and> i \<le> int (length args) then Some (args ! nat (i - 1)) else None
         | None \<Rightarrow> None)
      else None)"
| "sql_param args [] = None"

fun sql_cond :: "server \<Rightarrow> sql_arg list \<Rightarrow> go_string \<times> go_string \<times> go_string \<Rightarrow> (Notification \<Rightarrow> bool) option"
where
  "sql_cond F args (c, p, q) =
     (case sql_param args q of
        Some (ArgText s) \<Rightarrow>
          (if p \<noteq> ''='' \<or> \<not> text_ok s then None
           else if c = ''status'' then Some (\<lambda>n. n_Status n = s)
           else if c = ''channel'' then Some (\<lambda>n. n_Channel n = s)
           else None)
      | Some (ArgTime t) \<Rightarrow>
          (if c \<noteq> ''created_at'' then None
           else if p = ''>='' then Some (\<lambda>n. sv_round F t \<le> n_CreatedAt n)
           else if p = ''<='' then Some (\<lambda>n. n_CreatedAt n \<le> sv_round F t)
           else None)
      | _ \<Rightarrow> None)"

definition sql_filter ::
  "server \<Rightarrow> sql_arg list \<Rightarrow> (go_string \<times> go_string \<times> go_string) list \<Rightarrow> Notification list
     \<Rightarrow> Notification list option" where
  "sql_filter F args cs rows =
     (let conds = map (sql_cond F args) cs
      in if None \<in> set conds then None
         else Some (filter (\<lambda>n. list_all (\<lambda>c. the c n) conds) rows))"

end
