(* ===== verification/Postgres_List.thy ===== *)
theory Postgres_List
  imports Postgres
begin

text \<open>
  \<open>NotificationRepository.List\<close> of \<open>internal/adapter/postgres/notification_repository.go\<close>: the
  two SQL texts it builds, the server's reading of them, and the read-only transaction that
  runs them. At the default isolation level each statement sees its own snapshot.
\<close>

section \<open>The SQL texts\<close>

definition NL :: char where
  "NL = CHR 0x0A"

definition countSQL :: "go_string \<Rightarrow> go_string" where
  "countSQL whr = ''SELECT COUNT(*) FROM notifications'' @ whr"

definition select_head :: go_string where
  "select_head =
     NL # ''SELECT id, recipient, channel, content, priority, status, correlation_id, batch_id, idempotency_key, created_at, updated_at''
     @ NL # ''FROM notifications''"

definition select_tail :: go_string where
  "select_tail = NL # ''ORDER BY created_at DESC, id DESC'' @ NL # ''LIMIT $''"

definition selectSQL :: "go_string \<Rightarrow> nat \<Rightarrow> go_string" where
  "selectSQL whr nargs =
     select_head @ whr @ select_tail
     @ Itoa (int nargs + 1) @ '' OFFSET $'' @ Itoa (int nargs + 2)"

section \<open>The server's reading\<close>

fun drop_prefix :: "'a list \<Rightarrow> 'a list \<Rightarrow> 'a list option" where
  "drop_prefix [] ys = Some ys"
| "drop_prefix (x # xs) [] = None"
| "drop_prefix (x # xs) (y # ys) = (if x = y then drop_prefix xs ys else None)"

definition sql_error :: goerror where
  "sql_error = pg_error ''query''"

definition sql_count :: "server \<Rightarrow> go_string \<Rightarrow> sql_arg list \<Rightarrow> int statement" where
  "sql_count F sql args now d =
     (case drop_prefix [''SELECT'', ''COUNT(*)'', ''FROM'', ''notifications''] (text_words sql) of
        None \<Rightarrow> Inl sql_error
      | Some ws \<Rightarrow>
          (let (conds, t) = parse_where ws
           in if t \<noteq> [] then Inl sql_error
              else case sql_filter F args conds (tb_notifications d) of
                None \<Rightarrow> Inl sql_error
              | Some rows \<Rightarrow> Inr (int (length rows), d)))"

text \<open>\<open>ORDER BY created_at DESC, id DESC\<close>.\<close>

definition newest_first :: "Notification list \<Rightarrow> Notification list" where
  "newest_first rows = rev (sort_key (\<lambda>n. (n_CreatedAt n, uint (n_ID n))) rows)"

definition select_columns :: "go_string list" where
  "select_columns =
     [''SELECT'', ''id,'', ''recipient,'', ''channel,'', ''content,'', ''priority,'', ''status,'',
      ''correlation_id,'', ''batch_id,'', ''idempotency_key,'', ''created_at,'', ''updated_at'',
      ''FROM'', ''notifications'']"

definition order_clause :: "go_string list" where
  "order_clause = [''ORDER'', ''BY'', ''created_at'', ''DESC,'', ''id'', ''DESC'']"

definition sql_select :: "server \<Rightarrow> go_string \<Rightarrow> sql_arg list \<Rightarrow> Notification list statement" where
  "sql_select F sql args now d =
     (case drop_prefix select_columns (text_words sql) of
        None \<Rightarrow> Inl sql_error
      | Some ws \<Rightarrow>
          (let (conds, t) = parse_where ws
           in case (drop_prefix order_clause t, sql_filter F args conds (tb_notifications d)) of
                (Some [l, a, o', b], Some rows) \<Rightarrow>
                  (if l \<noteq> ''LIMIT'' \<or> o' \<noteq> ''OFFSET'' then Inl sql_error
                   else case (sql_param args a, sql_param args b) of
                     (Some (ArgInt lim), Some (ArgInt off)) \<Rightarrow>
                       (if sint lim < 0 then Inl (pg_error ''LIMIT must not be negative'')
                        else if sint off < 0 then Inl (pg_error ''OFFSET must not be negative'')
                        else Inr (take (nat (sint lim)) (drop (nat (sint off)) (newest_first rows)), d))
                   | _ \<Rightarrow> Inl sql_error)
              | _ \<Rightarrow> Inl sql_error))"

section \<open>List\<close>

definition ListNotifications ::
  "server \<Rightarrow> ListFilter \<Rightarrow> go_int \<Rightarrow> go_int \<Rightarrow> pg \<Rightarrow> (goerror + Notification list \<times> int) \<times> pg" where
  "ListNotifications F flt page limit w =
     (let (whr, args) = buildListWhere flt;
          offset = (page - 1) * limit;
          pageArgs = args @ [ArgInt limit, ArgInt offset]
      in case exec F (\<lambda>now d. Inr ((), d)) w of
           (Inl err, w) \<Rightarrow> (Inl (ErrorWrap ''begin list tx: '' err []), w)
         | (Inr _, w) \<Rightarrow>
             (case exec F (sql_count F (countSQL whr) args) w of
                (Inl err, w) \<Rightarrow> (Inl (ErrorWrap ''count notifications: '' err []), w)
              | (Inr total_count, w) \<Rightarrow>
                  (case exec F (sql_select F (selectSQL whr (length args)) pageArgs) w of
                     (Inl err, w') \<Rightarrow>
                       (Inl (rows_error F w ''list notifications: '' ''scan notification row: ''
                              ''iterate notifications: '' err), w')
                   | (Inr items, w) \<Rightarrow>
                       (case exec F (\<lambda>now d. Inr ((), d)) w of
                          (Inl err, w) \<Rightarrow> (Inl (ErrorWrap ''commit list tx: '' err []), w)
                        | (Inr _, w) \<Rightarrow> (Inr (items, total_count), w)))))"

section \<open>The texts read as meant\<close>

text \<open>The words of a \<open>WHERE\<close> clause, for each of the sixteen combinations of filters.\<close>

definition where_text :: "bool \<Rightarrow> bool \<Rightarrow> bool \<Rightarrow> bool \<Rightarrow> go_string" where
  "where_text s c f t = fst (buildListWhere
     \<lparr>lf_Status = (if s then ''x'' else []), lf_Channel = (if c then ''x'' else []),
      lf_DateFrom = (if f then 1 else 0), lf_DateTo = (if t then 1 else 0)\<rparr>)"

lemma buildListWhere_text:
  "fst (buildListWhere flt) = where_text (lf_Status flt \<noteq> []) (lf_Channel flt \<noteq> [])
     (\<not> time_IsZero (lf_DateFrom flt)) (\<not> time_IsZero (lf_DateTo flt))"
  by (simp add: where_text_def buildListWhere_def add_clause_def split: prod.split)

definition where_conds :: "bool \<Rightarrow> bool \<Rightarrow> bool \<Rightarrow> bool \<Rightarrow> (go_string \<times> go_string \<times> go_string) list" where
  "where_conds s c f t =
     (let ns = (if s then 1 else 0); nc = ns + (if c then 1 else 0); nf = nc + (if f then 1 else 0);
          nt = nf + (if t then 1 else 0 :: int)
      in (if s then [(''status'', ''='', CHR ''$'' # Itoa ns)] else [])
       @ (if c then [(''channel'', ''='', CHR ''$'' # Itoa nc)] else [])
       @ (if f then [(''created_at'', ''>='', CHR ''$'' # Itoa nf)] else [])
       @ (if t then [(''created_at'', ''<='', CHR ''$'' # Itoa nt)] else []))"

definition where_nargs :: "bool \<Rightarrow> bool \<Rightarrow> bool \<Rightarrow> bool \<Rightarrow> nat" where
  "where_nargs s c f t = length (filter id [s, c, f, t])"

definition tail_words :: "nat \<Rightarrow> go_string list" where
  "tail_words n = order_clause @
     [''LIMIT'', CHR ''$'' # Itoa (int n + 1), ''OFFSET'', CHR ''$'' # Itoa (int n + 2)]"

fun conds_words :: "(go_string \<times> go_string \<times> go_string) list \<Rightarrow> go_string list" where
  "conds_words [] = []"
| "conds_words [(c, p, q)] = [c, p, q]"
| "conds_words ((c, p, q) # cs) = c # p # q # ''AND'' # conds_words cs"

definition where_wordlist :: "(go_string \<times> go_string \<times> go_string) list \<Rightarrow> go_string list" where
  "where_wordlist cs = (if cs = [] then [] else ''WHERE'' # conds_words cs)"

lemma parse_conds_words:
  "cs \<noteq> [] \<Longrightarrow> rs = [] \<or> hd rs \<noteq> ''AND'' \<Longrightarrow> parse_conds (conds_words cs @ rs) = (cs, rs)"
proof (induction cs rule: conds_words.induct)
  case (2 c p q)
  then show ?case by (cases rs) auto
qed auto

lemma parse_where_words:
  "rs = [] \<or> (hd rs \<noteq> ''AND'' \<and> hd rs \<noteq> ''WHERE'') \<Longrightarrow> parse_where (where_wordlist cs @ rs) = (cs, rs)"
  using parse_conds_words [of cs rs] by (cases rs) (auto simp: where_wordlist_def)

lemma where_words_all:
  "list_all (\<lambda>s. list_all (\<lambda>c. list_all (\<lambda>f. list_all (\<lambda>t.
       text_words (where_text s c f t) = where_wordlist (where_conds s c f t))
     [True, False]) [True, False]) [True, False]) [True, False]"
  by code_simp

lemma where_words: "text_words (where_text s c f t) = where_wordlist (where_conds s c f t)"
proof -
  have "b \<in> set [True, False]" for b by simp
  then show ?thesis using where_words_all unfolding list_all_iff by blast
qed

lemma is_blank_simps [simp]: "is_blank CHR '' ''" "is_blank NL"
  by (simp_all add: is_blank_def NL_def)

lemma placeholder_word: "text_words (CHR ''$'' # Itoa i) = [CHR ''$'' # Itoa i]"
  by (rule text_words_single) (auto dest: Itoa_not_blank simp: is_blank_def [of "CHR ''$''"])

lemma order_text_words: "text_words ''ORDER BY created_at DESC, id DESC'' = order_clause"
  by code_simp

lemma tail_text_words:
  "text_words (select_tail @ Itoa i @ '' OFFSET $'' @ Itoa j)
     = order_clause @ [''LIMIT'', CHR ''$'' # Itoa i, ''OFFSET'', CHR ''$'' # Itoa j]"
proof -
  have 1: "select_tail @ Itoa i @ '' OFFSET $'' @ Itoa j
      = [] @ NL # ''ORDER BY created_at DESC, id DESC'' @ NL # ''LIMIT'' @ CHR '' '' # (CHR ''$'' # Itoa i)
        @ CHR '' '' # ''OFFSET'' @ CHR '' '' # CHR ''$'' # Itoa j"
    by (simp add: select_tail_def)
  have 2: "text_words ''LIMIT'' = [''LIMIT'']" "text_words ''OFFSET'' = [''OFFSET'']"
    "text_words [] = []" by code_simp+
  show ?thesis unfolding 1
    by (subst text_words_append, simp)+ (simp add: 2 order_text_words placeholder_word)
qed

lemma head_text_words: "text_words select_head = select_columns"
  by code_simp

lemma count_text_words:
  "text_words ''SELECT COUNT(*) FROM notifications'' = [''SELECT'', ''COUNT(*)'', ''FROM'', ''notifications'']"
  by code_simp

lemma buildListWhere_shape: "fst (buildListWhere flt) = [] \<or> (\<exists>r. fst (buildListWhere flt) = CHR '' '' # r)"
  unfolding buildListWhere_def Let_def by (simp only: split_beta fst_conv if_distrib) simp

lemma where_text_shape: "where_text s c f t = [] \<or> (\<exists>r. where_text s c f t = CHR '' '' # r)"
  unfolding where_text_def by (rule buildListWhere_shape)

lemma text_words_then_where:
  "text_words (h @ where_text s c f t) = text_words h @ text_words (where_text s c f t)"
proof (cases "where_text s c f t = []")
  case True
  then show ?thesis by (simp add: text_words_def)
next
  case False
  then obtain r where r: "where_text s c f t = CHR '' '' # r" using where_text_shape by blast
  have "text_words (CHR '' '' # r) = text_words r"
    using text_words_append [of "CHR '' ''" "[]" r] by (simp add: is_blank_def text_words_def)
  then show ?thesis using text_words_append [of "CHR '' ''" h r] r by (simp add: is_blank_def)
qed

lemma selectSQL_words:
  "text_words (selectSQL (where_text s c f t) (where_nargs s c f t))
     = select_columns @ text_words (where_text s c f t) @ tail_words (where_nargs s c f t)"
proof -
  let ?n = "where_nargs s c f t"
  let ?tl = "select_tail @ Itoa (int ?n + 1) @ '' OFFSET $'' @ Itoa (int ?n + 2)"
  obtain r where r: "?tl = NL # r" by (simp add: select_tail_def)
  have nl: "is_blank NL" by simp
  have "text_words ?tl = tail_words ?n"
    unfolding tail_text_words tail_words_def ..
  moreover have "text_words ?tl = text_words r"
    using text_words_append [OF nl, of "[]" r] r by (simp add: text_words_def)
  moreover have "text_words (select_head @ where_text s c f t @ NL # r)
      = text_words (select_head @ where_text s c f t) @ text_words r"
    using text_words_append [OF nl, of "select_head @ where_text s c f t" r] by simp
  ultimately show ?thesis
    unfolding selectSQL_def r [symmetric] by (simp add: text_words_then_where head_text_words r)
qed

lemma countSQL_words:
  "text_words (countSQL (where_text s c f t))
     = [''SELECT'', ''COUNT(*)'', ''FROM'', ''notifications''] @ text_words (where_text s c f t)"
  unfolding countSQL_def text_words_then_where count_text_words ..

lemma drop_prefix_append [simp]: "drop_prefix xs (xs @ ys) = Some ys"
  by (induction xs) auto

text \<open>The placeholders refer to the arguments they were numbered for.\<close>

lemma buildListWhere_args:
  "snd (buildListWhere flt) =
     (if lf_Status flt \<noteq> [] then [ArgText (lf_Status flt)] else [])
     @ (if lf_Channel flt \<noteq> [] then [ArgText (lf_Channel flt)] else [])
     @ (if \<not> time_IsZero (lf_DateFrom flt) then [ArgTime (lf_DateFrom flt)] else [])
     @ (if \<not> time_IsZero (lf_DateTo flt) then [ArgTime (lf_DateTo flt)] else [])"
  by (simp add: buildListWhere_def add_clause_def)

lemma buildListWhere_nargs:
  "length (snd (buildListWhere flt)) = where_nargs (lf_Status flt \<noteq> []) (lf_Channel flt \<noteq> [])
     (\<not> time_IsZero (lf_DateFrom flt)) (\<not> time_IsZero (lf_DateTo flt))"
  by (simp add: buildListWhere_args where_nargs_def)

lemma sql_param_Itoa:
  "1 \<le> i \<Longrightarrow> i \<le> int (length args) \<Longrightarrow> i < 2 ^ 63 \<Longrightarrow> sql_param args (CHR ''$'' # Itoa i) = Some (args ! nat (i - 1))"
  by (simp add: Atoi_Itoa)

definition flt_conds :: "ListFilter \<Rightarrow> (go_string \<times> go_string \<times> go_string) list" where
  "flt_conds flt = where_conds (lf_Status flt \<noteq> []) (lf_Channel flt \<noteq> [])
     (\<not> time_IsZero (lf_DateFrom flt)) (\<not> time_IsZero (lf_DateTo flt))"

lemma sql_filter_flt:
  assumes "text_ok (lf_Status flt)" and "text_ok (lf_Channel flt)"
  shows "sql_filter F (snd (buildListWhere flt) @ extra) (flt_conds flt) rows
     = Some (filter (filter_matches (sv_round F) flt) rows)"
  using assms
  by (cases "lf_Status flt = []"; cases "lf_Channel flt = []"; cases "lf_DateFrom flt = 0";
      cases "lf_DateTo flt = 0")
    (simp_all add: sql_filter_def buildListWhere_args flt_conds_def where_conds_def
      sql_param_Itoa filter_matches_def [abs_def] del: sql_param.simps)

lemma flt_where_words:
  "text_words (fst (buildListWhere flt)) = where_wordlist (flt_conds flt)"
  by (simp only: buildListWhere_text where_words flt_conds_def)

lemma sql_count_correct:
  assumes "text_ok (lf_Status flt)" and "text_ok (lf_Channel flt)"
  shows "sql_count F (countSQL (fst (buildListWhere flt))) (snd (buildListWhere flt)) now d
     = Inr (int (length (filter (filter_matches (sv_round F) flt) (tb_notifications d))), d)"
proof -
  have "text_words (countSQL (fst (buildListWhere flt)))
      = [''SELECT'', ''COUNT(*)'', ''FROM'', ''notifications''] @ where_wordlist (flt_conds flt)"
    by (simp only: buildListWhere_text countSQL_words where_words flt_conds_def)
  then show ?thesis
    using parse_where_words [of "[]" "flt_conds flt"] sql_filter_flt [OF assms, of F "[]"]
    by (simp add: sql_count_def)
qed

definition matching :: "server \<Rightarrow> ListFilter \<Rightarrow> db \<Rightarrow> Notification list" where
  "matching F flt d = newest_first (filter (filter_matches (sv_round F) flt) (tb_notifications d))"

lemma where_nargs_bound: "where_nargs s c f t \<le> 4"
  by (simp add: where_nargs_def)

lemma page_args:
  fixes args :: "sql_arg list"
  assumes "length args \<le> 4"
  shows "sql_param (args @ [x, y]) (CHR ''$'' # Itoa (int (length args) + 1)) = Some x"
    and "sql_param (args @ [x, y]) (CHR ''$'' # Itoa (int (length args) + 2)) = Some y"
proof -
  have n: "nat (1 + int (length args)) = Suc (length args)" by simp
  show "sql_param (args @ [x, y]) (CHR ''$'' # Itoa (int (length args) + 1)) = Some x"
    "sql_param (args @ [x, y]) (CHR ''$'' # Itoa (int (length args) + 2)) = Some y"
    using assms n by (simp_all add: Atoi_Itoa nth_append)
qed

lemma sql_select_reads:
  assumes "text_ok (lf_Status flt)" and "text_ok (lf_Channel flt)"
  shows "sql_select F (selectSQL (fst (buildListWhere flt)) (length (snd (buildListWhere flt))))
      (snd (buildListWhere flt) @ [ArgInt lim, ArgInt off]) now d
     = (if sint lim < 0 then Inl (pg_error ''LIMIT must not be negative'')
        else if sint off < 0 then Inl (pg_error ''OFFSET must not be negative'')
        else Inr (take (nat (sint lim)) (drop (nat (sint off)) (matching F flt d)), d))"
proof -
  let ?args = "snd (buildListWhere flt)"
  let ?n = "length ?args"
  have le: "?n \<le> 4" unfolding buildListWhere_nargs by (rule where_nargs_bound)
  have words: "text_words (selectSQL (fst (buildListWhere flt)) ?n)
      = select_columns @ where_wordlist (flt_conds flt) @ tail_words ?n"
    by (simp only: buildListWhere_text buildListWhere_nargs selectSQL_words where_words flt_conds_def)
  have parse: "parse_where (where_wordlist (flt_conds flt) @ tail_words ?n) = (flt_conds flt, tail_words ?n)"
    by (rule parse_where_words) (simp add: tail_words_def order_clause_def)
  show ?thesis
    using parse sql_filter_flt [OF assms(1,2), of F "[ArgInt lim, ArgInt off]"]
    by (simp add: sql_select_def words tail_words_def page_args [OF le] matching_def
        del: sql_param.simps)
qed

lemma sql_select_correct:
  assumes "text_ok (lf_Status flt)" and "text_ok (lf_Channel flt)"
    and "0 \<le> sint lim" and "0 \<le> sint off"
  shows "sql_select F (selectSQL (fst (buildListWhere flt)) (length (snd (buildListWhere flt))))
      (snd (buildListWhere flt) @ [ArgInt lim, ArgInt off]) now d
     = Inr (take (nat (sint lim)) (drop (nat (sint off)) (matching F flt d)), d)"
  using assms by (simp add: sql_select_reads)

text \<open>A server that neither fails nor serves others.\<close>

definition quiet_server :: "server \<Rightarrow> bool" where
  "quiet_server F \<longleftrightarrow> (\<forall>k. sv_fault F k = None) \<and> (\<forall>k d. sv_other F k d = d)"

lemma exec_quiet:
  "quiet_server F \<Longrightarrow> exec F stmt w =
     (case stmt (sv_round F (sv_now F (pg_calls w))) (pg_db w) of
        Inl e \<Rightarrow> (Inl e, \<lparr>pg_db = pg_db w, pg_calls = pg_calls w + 1\<rparr>)
      | Inr (a, d') \<Rightarrow> (Inr a, \<lparr>pg_db = d', pg_calls = pg_calls w + 1\<rparr>))"
  by (simp add: exec_def quiet_server_def Let_def)

lemma List_quiet:
  assumes "quiet_server F" and "text_ok (lf_Status flt)" and "text_ok (lf_Channel flt)"
    and "0 \<le> sint limit" and "0 \<le> sint ((page - 1) * limit)"
  shows "ListNotifications F flt page limit w =
     (Inr (take (nat (sint limit)) (drop (nat (sint ((page - 1) * limit))) (matching F flt (pg_db w))),
           int (length (matching F flt (pg_db w)))),
      \<lparr>pg_db = pg_db w, pg_calls = pg_calls w + 4\<rparr>)"
  using sql_count_correct [OF assms(2,3), of F] sql_select_correct [OF assms(2-5), of F]
  by (simp add: ListNotifications_def split_beta exec_quiet [OF assms(1)] matching_def newest_first_def)

lemma concat_pages: "concat (map (\<lambda>p. take l (drop (p * l) xs)) [0..<n]) = take (n * l) xs"
proof (induction n)
  case (Suc n)
  then show ?case by (simp add: add.commute [of l] take_add)
qed simp

end
