(* ===== verification/Postgres_Invariant.thy ===== *)
theory Postgres_Invariant
  imports Postgres_List
begin

text \<open>
  The constraints of the schema as an invariant of the database, kept by every operation of
  the repositories of \<open>internal/adapter/postgres\<close> whatever fails, and the effect of each
  operation on the tables.
\<close>

section \<open>One statement\<close>

text \<open>The three ways a statement can end: not executed, executed with the reply lost, and
  executed.\<close>

definition seen_db :: "server \<Rightarrow> pg \<Rightarrow> db" where
  "seen_db F w = sv_other F (pg_calls w) (pg_db w)"

definition seen_now :: "server \<Rightarrow> pg \<Rightarrow> time" where
  "seen_now F w = sv_round F (sv_now F (pg_calls w))"

lemma exec_cases:
  assumes "exec F stmt w = (r, w')"
  obtains (failed) e where "r = Inl e" "pg_db w' = seen_db F w"
      "(\<exists>msg. e = ErrorText msg) \<or> stmt (seen_now F w) (seen_db F w) = Inl e"
    | (lost) msg a where "r = Inl (ErrorText msg)" "stmt (seen_now F w) (seen_db F w) = Inr (a, pg_db w')"
    | (executed) a where "r = Inr a" "stmt (seen_now F w) (seen_db F w) = Inr (a, pg_db w')"
  using assms that
  by (auto simp: exec_def seen_db_def seen_now_def Let_def
      split: option.splits fault.splits sum.splits prod.splits)

lemma exec_done:
  assumes "exec F stmt w = (Inr a, w')"
  shows "stmt (seen_now F w) (seen_db F w) = Inr (a, pg_db w')"
  using assms by (cases rule: exec_cases) auto

text \<open>A predicate that every statement and every other session keeps is kept by the call.\<close>

definition keeps :: "(db \<Rightarrow> bool) \<Rightarrow> server \<Rightarrow> bool" where
  "keeps I F \<longleftrightarrow> (\<forall>k d. I d \<longrightarrow> I (sv_other F k d))"

lemma exec_keeps:
  assumes "exec F stmt w = (r, w')" and "keeps I F" and "I (pg_db w)"
    and "\<And>now d a d'. I d \<Longrightarrow> stmt now d = Inr (a, d') \<Longrightarrow> I d'"
  shows "I (pg_db w')"
proof -
  have d: "I (seen_db F w)" using assms(2,3) by (simp add: keeps_def seen_db_def)
  from assms(1) show ?thesis
  proof (cases rule: exec_cases)
    case (failed e)
    then show ?thesis using d by simp
  next
    case (lost msg a)
    then show ?thesis using assms(4) [OF d] by simp
  next
    case (executed a)
    then show ?thesis using assms(4) [OF d] by simp
  qed
qed

section \<open>The invariant\<close>

definition keys_of :: "Notification list \<Rightarrow> go_string list" where
  "keys_of ns = List.map_filter n_IdempotencyKey ns"

definition db_ok :: "db \<Rightarrow> bool" where
  "db_ok d \<longleftrightarrow>
     distinct (map n_ID (tb_notifications d))
     \<and> distinct (keys_of (tb_notifications d))
     \<and> (\<forall>n \<in> set (tb_notifications d). \<forall>b. n_BatchID n = Some b \<longrightarrow> b \<in> set (map fst (tb_batches d)))
     \<and> distinct (map fst (tb_batches d))
     \<and> distinct (tb_processed d)
     \<and> distinct (map da_ID (tb_attempts d))
     \<and> (\<forall>a \<in> set (tb_attempts d). da_ID a < sq_attempts d
           \<and> da_NotificationID a \<in> set (map n_ID (tb_notifications d)) \<and> int4_ok (da_AttemptNumber a))"

lemma empty_db_ok: "db_ok empty_db"
  by (simp add: db_ok_def empty_db_def keys_of_def map_filter_def)

lemma keys_of_append [simp]:
  "keys_of (xs @ [n]) = keys_of xs @ (case n_IdempotencyKey n of None \<Rightarrow> [] | Some k \<Rightarrow> [k])"
  by (simp add: keys_of_def map_filter_def split: option.split)

lemma keys_of_map [simp]:
  "(\<And>n. n_IdempotencyKey (f n) = n_IdempotencyKey n) \<Longrightarrow> keys_of (map f ns) = keys_of ns"
  by (induction ns) (simp_all add: keys_of_def map_filter_def)

lemma mem_keys_of: "k \<in> set (keys_of ns) \<longleftrightarrow> Some k \<in> n_IdempotencyKey ` set ns"
  by (induction ns) (auto simp: keys_of_def map_filter_def)

lemma stored_fields [simp]:
  "n_ID (stored F n) = n_ID n" "n_IdempotencyKey (stored F n) = n_IdempotencyKey n"
  "n_BatchID (stored F n) = n_BatchID n" "n_Status (stored F n) = n_Status n"
  by (simp_all add: stored_def)

lemma set_status_fields [simp]:
  "n_ID (set_status s t n) = n_ID n" "n_IdempotencyKey (set_status s t n) = n_IdempotencyKey n"
  "n_BatchID (set_status s t n) = n_BatchID n" "n_Status (set_status s t n) = s"
  by (simp_all add: set_status_def)

lemma update_fields [simp]:
  "map n_ID (map (\<lambda>n. if P n then set_status s t n else n) ns) = map n_ID ns"
  "keys_of (map (\<lambda>n. if P n then set_status s t n else n) ns) = keys_of ns"
  by simp_all

lemma db_ok_notifications:
  "db_ok (d\<lparr>tb_notifications := ns\<rparr>) \<longleftrightarrow>
     distinct (map n_ID ns) \<and> distinct (keys_of ns)
     \<and> (\<forall>n \<in> set ns. \<forall>b. n_BatchID n = Some b \<longrightarrow> b \<in> set (map fst (tb_batches d)))
     \<and> distinct (map fst (tb_batches d)) \<and> distinct (tb_processed d)
     \<and> distinct (map da_ID (tb_attempts d))
     \<and> (\<forall>a \<in> set (tb_attempts d). da_ID a < sq_attempts d
           \<and> da_NotificationID a \<in> set (map n_ID ns) \<and> int4_ok (da_AttemptNumber a))"
  by (simp add: db_ok_def)

lemma sql_insert_notification_ok:
  assumes "db_ok d" and "sql_insert_notification F n now d = Inr (a, d')"
  shows "db_ok d'"
proof -
  have "n_ID n \<notin> set (map n_ID (tb_notifications d))"
    "n_IdempotencyKey n = None \<or> n_IdempotencyKey n \<notin> n_IdempotencyKey ` set (tb_notifications d)"
    "\<forall>b. n_BatchID n = Some b \<longrightarrow> b \<in> set (map fst (tb_batches d))"
    and d': "d' = d\<lparr>tb_notifications := tb_notifications d @ [stored F n]\<rparr>"
    using assms(2) by (auto simp: sql_insert_notification_def split: if_splits option.splits)
  with assms(1) show ?thesis
    unfolding d' db_ok_notifications db_ok_def
    by (auto simp: mem_keys_of split: option.splits)
qed

lemma sql_copy_notifications_ok:
  "db_ok d \<Longrightarrow> sql_copy_notifications F ns now d = Inr (a, d') \<Longrightarrow> db_ok d'"
  by (induction F ns now d rule: sql_copy_notifications.induct)
    (auto split: sum.splits dest: sql_insert_notification_ok)

lemma sql_insert_batch_ok:
  "db_ok d \<Longrightarrow> sql_insert_batch b n now d = Inr (a, d') \<Longrightarrow> db_ok d'"
  by (auto simp: sql_insert_batch_def db_ok_def split: if_splits)

lemma sql_update_status_ok:
  assumes "db_ok d" and "sql_update_status s P now d = Inr (a, d')"
  shows "db_ok d'"
proof -
  have d': "d' = d\<lparr>tb_notifications := map (\<lambda>n. if P n then set_status s now n else n) (tb_notifications d)\<rparr>"
    using assms(2) by (auto simp: sql_update_status_def split: if_splits)
  have "distinct (map n_ID (tb_notifications d')) \<and> keys_of (tb_notifications d') = keys_of (tb_notifications d)
      \<and> map n_ID (tb_notifications d') = map n_ID (tb_notifications d)"
    using assms(1) unfolding d' by (simp del: map_map add: db_ok_def)
  then show ?thesis using assms(1) unfolding d' db_ok_notifications by (auto simp: db_ok_def)
qed

lemma sql_insert_attempt_ok:
  "db_ok d \<Longrightarrow> sql_insert_attempt i k s e p now d = Inr (a, d') \<Longrightarrow> db_ok d'"
  by (fastforce simp: sql_insert_attempt_def db_ok_def split: if_splits)

lemma sql_mark_ok: "db_ok d \<Longrightarrow> sql_mark i now d = Inr (a, d') \<Longrightarrow> db_ok d'"
  by (auto simp: sql_mark_def db_ok_def split: if_splits)

lemmas statement_ok =
  sql_insert_notification_ok sql_copy_notifications_ok sql_insert_batch_ok sql_update_status_ok
  sql_insert_attempt_ok sql_mark_ok

lemma sql_unmark_ok: "db_ok d \<Longrightarrow> db_ok (d\<lparr>tb_processed := removeAll i (tb_processed d)\<rparr>)"
  by (simp add: db_ok_def distinct_removeAll)

section \<open>Every operation keeps it\<close>

text \<open>The batch is written as a whole or not at all.\<close>

lemma tx_begin_cases:
  assumes "tx_begin F w = (r, w')"
  shows "pg_db w' = seen_db F w" and "r = Inr d \<Longrightarrow> d = seen_db F w"
  using assms unfolding tx_begin_def by (cases rule: exec_cases; simp)+

lemma tx_exec_cases:
  assumes "tx_exec F stmt (d, w) = (r, (d', w'))"
  shows "pg_db w' = pg_db w" and "r = Inr a \<Longrightarrow> \<exists>now. stmt now d = Inr (a, d')"
  using assms by (auto simp: tx_exec_def Let_def split: option.splits sum.splits)

lemma tx_commit_cases:
  assumes "tx_commit F (d, w) = (r, w')"
  shows "pg_db w' = d \<or> (r \<noteq> None \<and> pg_db w' = pg_db w)"
  using assms by (auto simp: tx_commit_def Let_def split: option.splits fault.splits)

lemma InsertBatch_cases:
  assumes "InsertBatch F b ns w = (r, w')"
  shows "(r \<noteq> None \<and> pg_db w' = seen_db F w)
    \<or> (\<exists>d1 now1 now2. sql_insert_batch b (int (length ns)) now1 (seen_db F w) = Inr ((), d1)
         \<and> sql_copy_notifications F ns now2 d1 = Inr ((), pg_db w'))"
proof -
  obtain rb w1 where 1: "tx_begin F w = (rb, w1)" by fastforce
  note b1 = tx_begin_cases [OF 1]
  show ?thesis
  proof (cases rb)
    case (Inl e)
    then show ?thesis using assms 1 b1 by (auto simp: InsertBatch_def)
  next
    case (Inr d)
    obtain r2 d2 w2 where 2: "tx_exec F (sql_insert_batch b (int (length ns))) (d, w1) = (r2, (d2, w2))"
      by (metis prod.collapse)
    obtain r3 d3 w3 where 3: "tx_exec F (sql_copy_notifications F ns) (d2, w2) = (r3, (d3, w3))"
      by (metis prod.collapse)
    obtain r4 w4 where 4: "tx_commit F (d3, w3) = (r4, w4)" by fastforce
    note c = tx_exec_cases [OF 2] tx_exec_cases [OF 3] tx_commit_cases [OF 4]
    have "(r, w') = (case r2 of Inl err \<Rightarrow> (Some (ErrorWrap ''insert batch row: '' err []), w2)
      | Inr _ \<Rightarrow> (case r3 of Inl err \<Rightarrow> (Some (ErrorWrap ''bulk insert notifications: '' err []), w3)
         | Inr _ \<Rightarrow> (case r4 of Some err \<Rightarrow> (Some (ErrorWrap ''commit batch tx: '' err []), w4)
            | None \<Rightarrow> (None, w4))))"
      using assms Inr by (auto simp: InsertBatch_def 1 2 3 4 split: sum.splits option.splits)
    then show ?thesis
      using b1 Inr c by (cases r2; cases r3; cases r4) auto
  qed
qed

lemma sql_row_same: "sql_row P now d = Inr (a, d') \<Longrightarrow> d' = d"
  by (auto simp: sql_row_def split: option.splits)

lemma sql_count_same: "sql_count F sql args now d = Inr (a, d') \<Longrightarrow> d' = d"
  by (auto simp: sql_count_def Let_def split: option.splits prod.splits if_splits)

lemma sql_select_same: "sql_select F sql args now d = Inr (a, d') \<Longrightarrow> d' = d"
  by (auto simp: sql_select_def Let_def
      split: option.splits prod.splits if_splits list.splits sql_arg.splits)

lemmas read_same = sql_row_same sql_count_same sql_select_same

text \<open>A predicate on the tables that every writing statement keeps, those of other sessions
  included, is kept by every operation; \<open>forget\<close> says which dedup rows may be deleted.\<close>

locale db_predicate =
  fixes F :: server and I :: "db \<Rightarrow> bool" and forget :: "uuid \<Rightarrow> bool"
  assumes others: "keeps I F"
    and insert: "I d \<Longrightarrow> sql_insert_notification F n now d = Inr (u, d') \<Longrightarrow> I d'"
    and insert_batch: "I d \<Longrightarrow> sql_insert_batch b t now d = Inr (u, d') \<Longrightarrow> I d'"
    and update: "I d \<Longrightarrow> sql_update_status s P now d = Inr (rows, d') \<Longrightarrow> I d'"
    and mark: "I d \<Longrightarrow> sql_mark i now d = Inr (k, d') \<Longrightarrow> I d'"
    and unmark: "I d \<Longrightarrow> forget i \<Longrightarrow> I (d\<lparr>tb_processed := removeAll i (tb_processed d)\<rparr>)"
    and attempt: "I d \<Longrightarrow> sql_insert_attempt i a st e p now d = Inr (u, d') \<Longrightarrow> I d'"
begin

lemmas writes = insert insert_batch update mark attempt

lemmas call = exec_keeps [where I = I, OF _ others]

lemma copy: "I d \<Longrightarrow> sql_copy_notifications F ns now d = Inr (u, d') \<Longrightarrow> I d'"
proof (induction ns arbitrary: d)
  case (Cons n ns)
  then show ?case by (auto split: sum.splits dest: insert)
qed simp

lemma Insert_keeps: "I (pg_db w) \<Longrightarrow> I (pg_db (snd (Insert F n w)))"
  by (auto simp: Insert_def dest: writes elim!: call split: prod.splits sum.splits)

lemma UpdateStatus_keeps: "I (pg_db w) \<Longrightarrow> I (pg_db (snd (UpdateStatus F i s w)))"
  by (auto simp: UpdateStatus_def dest: writes elim!: call split: prod.splits sum.splits)

lemma GetByID_keeps: "I (pg_db w) \<Longrightarrow> I (pg_db (snd (GetByID F i w)))"
  by (auto simp: GetByID_def dest: read_same elim!: call split: prod.splits sum.splits)

lemma GetByIdempotencyKey_keeps: "I (pg_db w) \<Longrightarrow> I (pg_db (snd (GetByIdempotencyKey F key w)))"
  by (auto simp: GetByIdempotencyKey_def dest: read_same elim!: call
      split: prod.splits sum.splits if_splits)

lemma CancelIfPending_keeps: "I (pg_db w) \<Longrightarrow> I (pg_db (snd (CancelIfPending F i w)))"
  by (auto simp: CancelIfPending_def dest: writes elim!: call
      split: prod.splits sum.splits if_splits list.splits)

lemma GetBatchSummary_keeps: "I (pg_db w) \<Longrightarrow> I (pg_db (snd (GetBatchSummary F b w)))"
  by (auto simp: GetBatchSummary_def sql_batch_total_def sql_status_counts_def Let_def
      elim!: call split: prod.splits sum.splits if_splits option.splits)

lemma InsertBatch_keeps:
  assumes "I (pg_db w)"
  shows "I (pg_db (snd (InsertBatch F b ns w)))"
proof -
  obtain r w' where i: "InsertBatch F b ns w = (r, w')" by fastforce
  have "I (seen_db F w)" using assms others by (simp add: keeps_def seen_db_def)
  then show ?thesis using InsertBatch_cases [OF i] i by (auto dest: insert_batch copy)
qed

lemma ListNotifications_keeps: "I (pg_db w) \<Longrightarrow> I (pg_db (snd (ListNotifications F flt p l w)))"
  by (auto simp: ListNotifications_def Let_def dest: read_same elim!: call split: prod.splits sum.splits)

lemma MarkIfUnprocessed_keeps: "I (pg_db w) \<Longrightarrow> I (pg_db (snd (Repo_MarkIfUnprocessed F i w)))"
  by (auto simp: Repo_MarkIfUnprocessed_def dest: writes elim!: call split: prod.splits sum.splits)

lemma DeleteProcessed_keeps: "I (pg_db w) \<Longrightarrow> forget i \<Longrightarrow> I (pg_db (snd (Repo_DeleteProcessed F i w)))"
  by (auto simp: Repo_DeleteProcessed_def dest: unmark elim!: call split: prod.splits sum.splits)

lemma RecordAttempt_keeps: "I (pg_db w) \<Longrightarrow> I (pg_db (snd (RecordAttempt F i a s e p w)))"
  by (auto simp: RecordAttempt_def dest: writes elim!: call split: prod.splits sum.splits)

lemma CountAttempts_keeps: "I (pg_db w) \<Longrightarrow> I (pg_db (snd (CountAttempts F i w)))"
  by (auto simp: CountAttempts_def elim!: call split: prod.splits sum.splits)

lemma ListAttempts_keeps: "I (pg_db w) \<Longrightarrow> I (pg_db (snd (ListAttempts F i w)))"
  by (auto simp: ListAttempts_def elim!: call split: prod.splits sum.splits)

lemmas operation_keeps =
  Insert_keeps GetByID_keeps UpdateStatus_keeps InsertBatch_keeps GetBatchSummary_keeps
  ListNotifications_keeps CancelIfPending_keeps GetByIdempotencyKey_keeps MarkIfUnprocessed_keeps
  DeleteProcessed_keeps RecordAttempt_keeps CountAttempts_keeps ListAttempts_keeps

end

text \<open>A server that may fail but serves one session only.\<close>

definition alone :: "server \<Rightarrow> server" where
  "alone F = F\<lparr>sv_other := (\<lambda>k d. d)\<rparr>"

lemma alone_simps [simp]:
  "keeps I (alone F)" "seen_db (alone F) w = pg_db w" "seen_now (alone F) w = seen_now F w"
  "stored (alone F) n = stored F n"
  by (simp_all add: keeps_def alone_def seen_db_def seen_now_def stored_def)

lemma db_ok_predicate: "keeps db_ok F \<Longrightarrow> db_predicate F db_ok (\<lambda>i. True)"
  by unfold_locales (auto dest: statement_ok sql_unmark_ok)

interpretation schema: db_predicate "alone F" db_ok "\<lambda>i. True" for F
  by (rule db_ok_predicate) simp

text \<open>A dedup row stays until it is deleted.\<close>

lemma statement_processed:
  "sql_insert_notification F n now d = Inr (u, d') \<Longrightarrow> tb_processed d' = tb_processed d"
  "sql_insert_batch b t now d = Inr (u, d') \<Longrightarrow> tb_processed d' = tb_processed d"
  "sql_update_status s P now d = Inr (rows, d') \<Longrightarrow> tb_processed d' = tb_processed d"
  "sql_insert_attempt i a st e p now d = Inr (u, d') \<Longrightarrow> tb_processed d' = tb_processed d"
  by (auto simp: sql_insert_notification_def sql_insert_batch_def sql_update_status_def
      sql_insert_attempt_def split: if_splits)

lemma processed_predicate:
  "keeps (\<lambda>d. i \<in> set (tb_processed d)) F
     \<Longrightarrow> db_predicate F (\<lambda>d. i \<in> set (tb_processed d)) (\<lambda>j. j \<noteq> i)"
  by unfold_locales (auto simp: statement_processed sql_mark_def split: if_splits)

interpretation dedup: db_predicate "alone F" "\<lambda>d. i \<in> set (tb_processed d)" "\<lambda>j. j \<noteq> i" for F i
  by (rule processed_predicate) simp

end
