(* ===== verification/Postgres_Properties.thy ===== *)
theory Postgres_Properties
  imports Postgres_Invariant "HOL-Library.Multiset"
begin

text \<open>
  What the repositories of \<open>internal/adapter/postgres\<close> promise their callers: the schema's
  constraints hold after any sequence of operations, a batch is atomic, cancelling touches
  only a pending notification, the dedup insert wins once, lists are filtered, ordered and
  paged as asked, summaries count.
\<close>

section \<open>Sequences of operations\<close>

datatype repo_op =
    OpInsert Notification
  | OpGetByID uuid
  | OpUpdateStatus uuid Status
  | OpInsertBatch uuid "Notification list"
  | OpGetBatchSummary uuid
  | OpList ListFilter go_int go_int
  | OpCancelIfPending uuid
  | OpGetByIdempotencyKey go_string
  | OpMarkIfUnprocessed uuid
  | OpDeleteProcessed uuid
  | OpRecordAttempt uuid go_int go_string go_string go_string
  | OpCountAttempts uuid
  | OpListAttempts uuid

fun run_op :: "server \<Rightarrow> repo_op \<Rightarrow> pg \<Rightarrow> pg" where
  "run_op F (OpInsert n) w = snd (Insert F n w)"
| "run_op F (OpGetByID i) w = snd (GetByID F i w)"
| "run_op F (OpUpdateStatus i s) w = snd (UpdateStatus F i s w)"
| "run_op F (OpInsertBatch b ns) w = snd (InsertBatch F b ns w)"
| "run_op F (OpGetBatchSummary b) w = snd (GetBatchSummary F b w)"
| "run_op F (OpList flt p l) w = snd (ListNotifications F flt p l w)"
| "run_op F (OpCancelIfPending i) w = snd (CancelIfPending F i w)"
| "run_op F (OpGetByIdempotencyKey k) w = snd (GetByIdempotencyKey F k w)"
| "run_op F (OpMarkIfUnprocessed i) w = snd (Repo_MarkIfUnprocessed F i w)"
| "run_op F (OpDeleteProcessed i) w = snd (Repo_DeleteProcessed F i w)"
| "run_op F (OpRecordAttempt i a s e p) w = snd (RecordAttempt F i a s e p w)"
| "run_op F (OpCountAttempts i) w = snd (CountAttempts F i w)"
| "run_op F (OpListAttempts i) w = snd (ListAttempts F i w)"

lemma run_op_ok: "keeps db_ok F \<Longrightarrow> db_ok (pg_db w) \<Longrightarrow> db_ok (pg_db (run_op F op w))"
  by (cases op) (simp_all add: db_predicate.operation_keeps [OF db_ok_predicate])

lemma run_ops_ok: "keeps db_ok F \<Longrightarrow> db_ok (pg_db w) \<Longrightarrow> db_ok (pg_db (fold (run_op F) ops w))"
  by (induction ops arbitrary: w) (simp_all add: run_op_ok)

lemma run_op_processed:
  "keeps (\<lambda>d. i \<in> set (tb_processed d)) F \<Longrightarrow> op \<noteq> OpDeleteProcessed i
     \<Longrightarrow> i \<in> set (tb_processed (pg_db w)) \<Longrightarrow> i \<in> set (tb_processed (pg_db (run_op F op w)))"
  by (cases op) (auto simp: db_predicate.operation_keeps [OF processed_predicate])

text \<open>A concrete server.\<close>

definition plain_server :: server where
  "plain_server =
     \<lparr>sv_fault = (\<lambda>k. None), sv_other = (\<lambda>k d. d), sv_now = (\<lambda>k. 1000 * int k), sv_round = (\<lambda>t. t),
      sv_stage = (\<lambda>k. In_Query)\<rparr>"

definition empty_pg :: pg where
  "empty_pg = \<lparr>pg_db = empty_db, pg_calls = 0\<rparr>"

lemma plain_quiet [simp]: "quiet_server plain_server"
  by (simp add: quiet_server_def plain_server_def)

lemma plain_keeps [simp]: "keeps I plain_server"
  by (simp add: keeps_def plain_server_def)

section \<open>Effects of single operations\<close>

lemma sql_copy_effect:
  "sql_copy_notifications F ns now d = Inr (u, d')
     \<Longrightarrow> d' = d\<lparr>tb_notifications := tb_notifications d @ map (stored F) ns\<rparr>"
proof (induction ns arbitrary: d)
  case (Cons n ns)
  obtain d1 where 1: "sql_insert_notification F n now d = Inr ((), d1)"
    "sql_copy_notifications F ns now d1 = Inr (u, d')"
    using Cons.prems by (auto split: sum.splits)
  have "d1 = d\<lparr>tb_notifications := tb_notifications d @ [stored F n]\<rparr>"
    using 1(1) by (auto simp: sql_insert_notification_def split: if_splits)
  then show ?case using Cons.IH [OF 1(2)] by simp
qed simp
definition with_batch :: "server \<Rightarrow> uuid \<Rightarrow> Notification list \<Rightarrow> db \<Rightarrow> db" where
  "with_batch F b ns d =
     d\<lparr>tb_batches := tb_batches d @ [(b, int (length ns))],
       tb_notifications := tb_notifications d @ map (stored F) ns\<rparr>"

lemma InsertBatch_effect:
  assumes "InsertBatch F b ns w = (r, w')"
  shows "pg_db w' = with_batch F b ns (seen_db F w) \<or> (r \<noteq> None \<and> pg_db w' = seen_db F w)"
  using InsertBatch_cases [OF assms]
  by (auto simp: with_batch_def sql_insert_batch_def split: if_splits dest!: sql_copy_effect)

lemma find_id_row:
  assumes "db_ok d" and "n \<in> set (tb_notifications d)"
  shows "find (\<lambda>m. n_ID m = n_ID n) (tb_notifications d) = Some n"
  using assms by (simp add: db_ok_def distinct_map_find)

lemma find_key_row:
  assumes "db_ok d" and "n \<in> set (tb_notifications d)" and "n_IdempotencyKey n = Some k"
  shows "find (\<lambda>m. n_IdempotencyKey m = Some k) (tb_notifications d) = Some n"
proof (rule distinct_option_find [where f = n_IdempotencyKey, OF _ assms(2,3)])
  show "distinct (List.map_filter n_IdempotencyKey (tb_notifications d))"
    using assms(1) by (simp add: db_ok_def keys_of_def)
qed

definition cancel_row :: "uuid \<Rightarrow> time \<Rightarrow> Notification \<Rightarrow> Notification" where
  "cancel_row i now n = (if n_ID n = i \<and> n_Status n = StatusPending then set_status StatusCancelled now n else n)"

definition cancel_in :: "uuid \<Rightarrow> time \<Rightarrow> db \<Rightarrow> db" where
  "cancel_in i now d = d\<lparr>tb_notifications := map (cancel_row i now) (tb_notifications d)\<rparr>"

lemma cancelled_text_ok [simp]: "text_ok ''cancelled''" "text_ok ''pending''" "text_ok ''delivered''"
  "text_ok ''failed''" "text_ok []"
  by (simp_all add: text_ok_def valid_utf8_ascii)

lemma filter_id_pending:
  assumes "db_ok d"
  shows "filter (\<lambda>n. n_ID n = i \<and> n_Status n = ''pending'') (tb_notifications d) =
    (case find (\<lambda>n. n_ID n = i) (tb_notifications d) of
       None \<Rightarrow> [] | Some n \<Rightarrow> if n_Status n = ''pending'' then [n] else [])"
  using assms by (intro filter_unique) (simp add: db_ok_def)

text \<open>The cancelling statement changes at most the pending row of that id, and finds none
  otherwise.\<close>

lemma cancel_stmt:
  assumes "sql_update_status ''cancelled'' (\<lambda>n. n_ID n = i \<and> n_Status n = ''pending'') now d = Inr (rows, d')"
  shows "d' = cancel_in i now d"
    and "rows = map (set_status StatusCancelled now)
           (filter (\<lambda>n. n_ID n = i \<and> n_Status n = ''pending'') (tb_notifications d))"
  using assms by (auto simp: sql_update_status_def cancel_in_def cancel_row_def [abs_def])

lemma CancelIfPending_quiet:
  assumes "quiet_server F" and "db_ok (pg_db w)"
  shows "CancelIfPending F i w =
    (case find (\<lambda>n. n_ID n = i) (tb_notifications (pg_db w)) of
       None \<Rightarrow> (Inl ErrNotFound, w\<lparr>pg_calls := pg_calls w + 2\<rparr>)
     | Some n \<Rightarrow>
         if n_Status n = StatusPending
         then (Inr (set_status StatusCancelled (seen_now F w) n),
               \<lparr>pg_db = cancel_in i (seen_now F w) (pg_db w), pg_calls = pg_calls w + 1\<rparr>)
         else (Inl ErrNotPending, w\<lparr>pg_calls := pg_calls w + 2\<rparr>))"
  using filter_id_pending [OF assms(2), of i]
  by (auto simp: CancelIfPending_def exec_quiet [OF assms(1)] sql_update_status_def seen_now_def
      ErrNoRows_def cancel_in_def cancel_row_def [abs_def]
      split: option.splits if_splits dest: find_Some_mem simp: find_None_iff)

text \<open>A stored row and a database that holds it.\<close>

definition sample_row :: Notification where
  "sample_row = Notification_zero
     \<lparr>n_ID := 7, n_Recipient := ''+905551112233'', n_Channel := ChannelSMS, n_Content := ''hello'',
      n_Priority := PriorityHigh, n_Status := StatusPending, n_CorrelationID := 9,
      n_IdempotencyKey := Some ''key'', n_CreatedAt := 5, n_UpdatedAt := 5\<rparr>"

definition sample_pg :: pg where
  "sample_pg = \<lparr>pg_db = empty_db\<lparr>tb_notifications := [sample_row]\<rparr>, pg_calls = 0\<rparr>"

lemma sample_db_ok: "db_ok (pg_db sample_pg)"
  by (simp add: sample_pg_def db_ok_def empty_db_def sample_row_def Notification_zero_def
      keys_of_def map_filter_simps)

lemma empty_pg_ok: "db_ok (pg_db empty_pg)"
  by (simp add: empty_pg_def empty_db_ok)

text \<open>Inserting and reading back.\<close>

lemma Insert_nil:
  assumes "Insert F n w = (None, w')"
  shows "pg_db w' = seen_db F w\<lparr>tb_notifications := tb_notifications (seen_db F w) @ [stored F n]\<rparr>"
    and "\<forall>m \<in> set (tb_notifications (seen_db F w)). n_ID m \<noteq> n_ID n"
    and "n_IdempotencyKey n = Some k \<Longrightarrow> \<forall>m \<in> set (tb_notifications (seen_db F w)). n_IdempotencyKey m \<noteq> Some k"
proof -
  have "exec F (sql_insert_notification F n) w = (Inr (), w')"
    using assms by (auto simp: Insert_def split: prod.splits sum.splits)
  then have i: "sql_insert_notification F n (seen_now F w) (seen_db F w) = Inr ((), pg_db w')"
    by (rule exec_done)
  show "pg_db w' = seen_db F w\<lparr>tb_notifications := tb_notifications (seen_db F w) @ [stored F n]\<rparr>"
    using i by (auto simp: sql_insert_notification_def split: if_splits)
  have "n_ID n \<notin> n_ID ` set (tb_notifications (seen_db F w))"
    using i by (auto simp: sql_insert_notification_def split: if_splits)
  then show "\<forall>m \<in> set (tb_notifications (seen_db F w)). n_ID m \<noteq> n_ID n"
    by (metis imageI)
  show "n_IdempotencyKey n = Some k \<Longrightarrow> \<forall>m \<in> set (tb_notifications (seen_db F w)). n_IdempotencyKey m \<noteq> Some k"
  proof -
    assume k: "n_IdempotencyKey n = Some k"
    then have "Some k \<notin> n_IdempotencyKey ` set (tb_notifications (seen_db F w))"
      using i by (auto simp: sql_insert_notification_def split: if_splits)
    then show ?thesis by (metis imageI)
  qed
qed

lemma find_append_last:
  "(\<forall>x \<in> set xs. \<not> P x) \<Longrightarrow> P y \<Longrightarrow> find P (xs @ [y]) = Some y"
  by (induction xs) auto

lemma Insert_then_get:
  assumes "quiet_server F" and "Insert F n w = (None, w')"
  shows "fst (GetByID F (n_ID n) w') = Inr (stored F n)"
    and "n_IdempotencyKey n = Some k \<Longrightarrow> text_ok k \<Longrightarrow> fst (GetByIdempotencyKey F k w') = Inr (stored F n)"
proof -
  note i = Insert_nil [OF assms(2)]
  have "find (\<lambda>m. n_ID m = n_ID n) (tb_notifications (pg_db w')) = Some (stored F n)"
    using i(2) unfolding i(1) by (auto intro!: find_append_last)
  then show "fst (GetByID F (n_ID n) w') = Inr (stored F n)"
    by (simp add: GetByID_def exec_quiet [OF assms(1)] sql_row_def)
  assume k: "n_IdempotencyKey n = Some k" and t: "text_ok k"
  have "find (\<lambda>m. n_IdempotencyKey m = Some k) (tb_notifications (pg_db w')) = Some (stored F n)"
    using i(3) [OF k] k unfolding i(1) by (force intro!: find_append_last)
  then show "fst (GetByIdempotencyKey F k w') = Inr (stored F n)"
    using t by (simp add: GetByIdempotencyKey_def exec_quiet [OF assms(1)] sql_row_def)
qed

text \<open>Summaries count.\<close>

lemma summary_steps:
  assumes "distinct ss"
  shows "fold summary_step (map (\<lambda>s. (s, c s)) ss) b =
    b\<lparr>bs_Pending := if StatusPending \<in> set ss then c StatusPending else bs_Pending b,
      bs_Delivered := if StatusDelivered \<in> set ss then c StatusDelivered else bs_Delivered b,
      bs_Failed := if StatusFailed \<in> set ss then c StatusFailed else bs_Failed b,
      bs_Cancelled := if StatusCancelled \<in> set ss then c StatusCancelled else bs_Cancelled b\<rparr>"
  using assms
proof (induction ss arbitrary: b)
  case (Cons s ss)
  then show ?case by (simp add: summary_step_def)
qed simp

lemma status_count_zero: "s \<notin> n_Status ` set ns \<Longrightarrow> status_count s ns = 0"
  by (auto simp: status_count_def filter_empty_conv)

lemma GetBatchSummary_quiet:
  assumes "quiet_server F"
  shows "fst (GetBatchSummary F b w) =
    (case map_of (tb_batches (pg_db w)) b of
       None \<Rightarrow> Inl ErrNotFound
     | Some t \<Rightarrow> let rows = batch_rows b (pg_db w) in
         Inr \<lparr>bs_ID = b, bs_Total = t, bs_Pending = status_count StatusPending rows,
              bs_Delivered = status_count StatusDelivered rows,
              bs_Failed = status_count StatusFailed rows,
              bs_Cancelled = status_count StatusCancelled rows\<rparr>)"
proof (cases "map_of (tb_batches (pg_db w)) b")
  case None
  then show ?thesis
    by (simp add: GetBatchSummary_def exec_quiet [OF assms] sql_batch_total_def ErrNoRows_def)
next
  case (Some t)
  have "c = (if s \<in> set (remdups (map n_Status rows)) then c else 0)"
    if "c = status_count s rows" for c s rows
    using that status_count_zero [of s rows] by auto
  then show ?thesis
    using Some summary_steps [of "remdups (map n_Status (batch_rows b (pg_db w)))"
        "\<lambda>s. status_count s (batch_rows b (pg_db w))"
        "\<lparr>bs_ID = b, bs_Total = t, bs_Pending = 0, bs_Delivered = 0, bs_Failed = 0, bs_Cancelled = 0\<rparr>"]
    by (simp add: GetBatchSummary_def exec_quiet [OF assms] sql_batch_total_def
        sql_status_counts_def Let_def status_count_zero)
qed

lemma status_counts_sum:
  assumes "\<forall>n \<in> set ns. Status_Valid (n_Status n)"
  shows "status_count StatusPending ns + status_count StatusDelivered ns
       + status_count StatusFailed ns + status_count StatusCancelled ns = int (length ns)"
  using assms by (induction ns) (auto simp: status_count_def Status_Valid_def split: if_splits)

text \<open>The dedup insert.\<close>

fun mark_wins :: "server \<Rightarrow> uuid \<Rightarrow> repo_op list \<Rightarrow> pg \<Rightarrow> nat" where
  "mark_wins F i [] w = 0"
| "mark_wins F i (op # ops) w =
     (if op = OpMarkIfUnprocessed i \<and> fst (Repo_MarkIfUnprocessed F i w) = Inr True then 1 else 0)
     + mark_wins F i ops (run_op F op w)"

lemma sql_mark_effect:
  assumes "sql_mark i now d = Inr (k, d')"
  shows "k = 1 \<longleftrightarrow> i \<notin> set (tb_processed d)"
    and "set (tb_processed d') = insert i (set (tb_processed d))"
  using assms by (auto simp: sql_mark_def split: if_splits)

lemma mark_answer:
  assumes "Repo_MarkIfUnprocessed F i w = (Inr b, w')"
  shows "b \<longleftrightarrow> i \<notin> set (tb_processed (seen_db F w))"
    and "set (tb_processed (pg_db w')) = insert i (set (tb_processed (seen_db F w)))"
proof -
  obtain k where k: "exec F (sql_mark i) w = (Inr k, w')" "b = (k = 1)"
    using assms by (auto simp: Repo_MarkIfUnprocessed_def split: prod.splits sum.splits)
  then show "b \<longleftrightarrow> i \<notin> set (tb_processed (seen_db F w))"
    and "set (tb_processed (pg_db w')) = insert i (set (tb_processed (seen_db F w)))"
    using sql_mark_effect [OF exec_done [OF k(1)]] by simp_all
qed

lemma mark_wins_none:
  assumes "keeps (\<lambda>d. i \<in> set (tb_processed d)) F" and "OpDeleteProcessed i \<notin> set ops"
    and "i \<in> set (tb_processed (pg_db w))"
  shows "mark_wins F i ops w = 0"
  using assms(2,3)
proof (induction ops arbitrary: w)
  case (Cons op ops)
  have "i \<in> set (tb_processed (seen_db F w))"
    using assms(1) Cons.prems(2) by (simp add: keeps_def seen_db_def)
  then have "fst (Repo_MarkIfUnprocessed F i w) \<noteq> Inr True"
    using mark_answer(1) by (metis prod.collapse)
  moreover have "i \<in> set (tb_processed (pg_db (run_op F op w)))"
    using run_op_processed [OF assms(1)] Cons.prems by auto
  ultimately show ?case using Cons by simp
qed simp

lemma mark_wins_one:
  assumes "keeps (\<lambda>d. i \<in> set (tb_processed d)) F" and "OpDeleteProcessed i \<notin> set ops"
  shows "mark_wins F i ops w \<le> 1"
  using assms(2)
proof (induction ops arbitrary: w)
  case (Cons op ops)
  show ?case
  proof (cases "op = OpMarkIfUnprocessed i \<and> fst (Repo_MarkIfUnprocessed F i w) = Inr True")
    case True
    then obtain w' where "Repo_MarkIfUnprocessed F i w = (Inr True, w')" by (metis prod.collapse)
    then have "i \<in> set (tb_processed (pg_db (run_op F op w)))"
      using True mark_answer(2) [of F i w True w'] by simp
    then show ?thesis using mark_wins_none [OF assms(1)] Cons.prems by simp
  next
    case False
    then show ?thesis using Cons by auto
  qed
qed simp

section \<open>Properties\<close>

text \<open>The constraints of the schema (primary keys, the unique idempotency key, foreign keys
  to batches and notifications, int4 attempt numbers, one dedup row per message) hold after any
  sequence of repository operations, whatever calls fail and whatever other sessions commit in
  between that keeps them.\<close>

theorem repositories_keep_schema:
  assumes "keeps db_ok F" and "db_ok (pg_db w)"
  shows "db_ok (pg_db (fold (run_op F) ops w))"
  by (rule run_ops_ok [OF assms])

theorem repositories_keep_schema_witness:
  "db_ok (pg_db (fold (run_op plain_server)
     [OpInsert sample_row, OpMarkIfUnprocessed 7, OpCancelIfPending 7] empty_pg))"
  by (rule repositories_keep_schema) (simp_all add: empty_pg_ok)

text \<open>A notification whose insert returned nil is read back by its id and by its idempotency
  key, equal up to the rounding of its timestamps.\<close>

theorem Insert_roundtrip:
  assumes "quiet_server F" and "Insert F n w = (None, w')"
    and "n_IdempotencyKey n = Some k" and "text_ok k"
  shows "fst (GetByID F (n_ID n) w') = Inr (stored F n)
    \<and> fst (GetByIdempotencyKey F k w') = Inr (stored F n)"
  using Insert_then_get [OF assms(1,2)] assms(3,4) by simp

lemma sample_texts: "list_all text_ok (notification_texts sample_row)"
  by (simp add: notification_texts_def sample_row_def Notification_zero_def text_ok_def valid_utf8_ascii)

lemma sample_insert: "Insert plain_server sample_row empty_pg = (None, snd (Insert plain_server sample_row empty_pg))"
  using sample_texts
  by (simp add: Insert_def exec_quiet sql_insert_notification_def empty_pg_def empty_db_def
      sample_row_def Notification_zero_def)

theorem Insert_roundtrip_witness:
  "fst (GetByID plain_server (n_ID sample_row) (snd (Insert plain_server sample_row empty_pg)))
       = Inr (stored plain_server sample_row)
    \<and> fst (GetByIdempotencyKey plain_server ''key'' (snd (Insert plain_server sample_row empty_pg)))
       = Inr (stored plain_server sample_row)"
  by (rule Insert_roundtrip [OF plain_quiet sample_insert])
    (simp_all add: sample_row_def text_ok_def valid_utf8_ascii)

text \<open>C29: \<open>InsertBatch\<close> is atomic under every failure: afterwards the tables hold the batch header
  and all its notifications, or are as they were; they hold them all when it returns nil.\<close>

theorem InsertBatch_atomic:
  "let (r, w') = InsertBatch F b ns w; d = seen_db F w in
     pg_db w' = with_batch F b ns d \<or> (r \<noteq> None \<and> pg_db w' = d)"
  using InsertBatch_effect [of F b ns w] by (auto simp: Let_def split: prod.split)

text \<open>C28: \<open>CancelIfPending\<close> on a working server: an unknown id is not found, a notification that
  is not pending is left alone and refused, and a pending one is set to cancelled, it alone, and
  returned as stored.\<close>

theorem CancelIfPending_spec:
  assumes "quiet_server F" and "db_ok (pg_db w)"
  shows "CancelIfPending F i w =
    (case find (\<lambda>n. n_ID n = i) (tb_notifications (pg_db w)) of
       None \<Rightarrow> (Inl ErrNotFound, w\<lparr>pg_calls := pg_calls w + 2\<rparr>)
     | Some n \<Rightarrow>
         if n_Status n = StatusPending
         then (Inr (set_status StatusCancelled (seen_now F w) n),
               \<lparr>pg_db = cancel_in i (seen_now F w) (pg_db w), pg_calls = pg_calls w + 1\<rparr>)
         else (Inl ErrNotPending, w\<lparr>pg_calls := pg_calls w + 2\<rparr>))"
  by (rule CancelIfPending_quiet [OF assms])

theorem CancelIfPending_spec_witness:
  "CancelIfPending plain_server 7 sample_pg =
    (case find (\<lambda>n. n_ID n = 7) (tb_notifications (pg_db sample_pg)) of
       None \<Rightarrow> (Inl ErrNotFound, sample_pg\<lparr>pg_calls := pg_calls sample_pg + 2\<rparr>)
     | Some n \<Rightarrow>
         if n_Status n = StatusPending
         then (Inr (set_status StatusCancelled (seen_now plain_server sample_pg) n),
               \<lparr>pg_db = cancel_in 7 (seen_now plain_server sample_pg) (pg_db sample_pg),
                pg_calls = pg_calls sample_pg + 1\<rparr>)
         else (Inl ErrNotPending, sample_pg\<lparr>pg_calls := pg_calls sample_pg + 2\<rparr>))"
  by (rule CancelIfPending_spec [OF plain_quiet sample_db_ok])

text \<open>C27: Over any sequence of repository operations that deletes no dedup row of a message, with
  failing calls and other sessions, \<open>MarkIfUnprocessed\<close> answers true for that message at most
  once.\<close>

theorem MarkIfUnprocessed_wins_once:
  assumes "keeps (\<lambda>d. i \<in> set (tb_processed d)) F" and "OpDeleteProcessed i \<notin> set ops"
  shows "mark_wins F i ops w \<le> 1"
  by (rule mark_wins_one [OF assms])

theorem MarkIfUnprocessed_wins_once_witness:
  "mark_wins plain_server 7 [OpMarkIfUnprocessed 7, OpInsert sample_row, OpMarkIfUnprocessed 7] empty_pg \<le> 1"
  by (rule MarkIfUnprocessed_wins_once) simp_all

text \<open>\<open>GetBatchSummary\<close> on a working server reports the batch's recorded size and, when all
  its notifications have a valid status, four counts that add up to the number of its
  notifications.\<close>

theorem GetBatchSummary_counts:
  assumes "quiet_server F" and "map_of (tb_batches (pg_db w)) b = Some t"
    and "\<forall>n \<in> set (batch_rows b (pg_db w)). Status_Valid (n_Status n)"
  shows "\<exists>s. fst (GetBatchSummary F b w) = Inr s \<and> bs_ID s = b \<and> bs_Total s = t
    \<and> status_total s = int (length (batch_rows b (pg_db w)))
    \<and> bs_Pending s = status_count StatusPending (batch_rows b (pg_db w))"
  using GetBatchSummary_quiet [OF assms(1), of b w] assms(2) status_counts_sum [OF assms(3)]
  by (simp add: Let_def status_total_def)

definition batch_pg :: pg where
  "batch_pg = \<lparr>pg_db = empty_db\<lparr>tb_batches := [(3, 1)],
     tb_notifications := [sample_row\<lparr>n_BatchID := Some 3\<rparr>]\<rparr>, pg_calls = 0\<rparr>"

theorem GetBatchSummary_counts_witness:
  "\<exists>s. fst (GetBatchSummary plain_server 3 batch_pg) = Inr s \<and> bs_ID s = 3 \<and> bs_Total s = 1
    \<and> status_total s = int (length (batch_rows 3 (pg_db batch_pg)))
    \<and> bs_Pending s = status_count StatusPending (batch_rows 3 (pg_db batch_pg))"
  by (rule GetBatchSummary_counts [OF plain_quiet])
    (simp_all add: batch_pg_def batch_rows_def Status_Valid_def sample_row_def)

lemma pages_concat_nat:
  assumes "length xs \<le> n * l"
  shows "concat (map (\<lambda>p. take l (drop (p * l) xs)) [0..<n]) = xs"
  using assms by (simp add: concat_pages)

text \<open>The items of page \<open>p + 1\<close>.\<close>

definition page_items :: "server \<Rightarrow> ListFilter \<Rightarrow> go_int \<Rightarrow> pg \<Rightarrow> nat \<Rightarrow> Notification list" where
  "page_items F flt limit w p =
     (case fst (ListNotifications F flt (word_of_nat p + 1) limit w) of Inl e \<Rightarrow> [] | Inr (items, t) \<Rightarrow> items)"

lemma page_offset:
  fixes limit :: go_int
  assumes "0 \<le> sint limit" and "int p * sint limit < 2 ^ 63"
  shows "sint ((word_of_nat p :: go_int) * limit) = int p * sint limit"
proof -
  have "(word_of_nat p :: go_int) * limit = word_of_int (int p * sint limit)" by simp
  then have "sint ((word_of_nat p :: go_int) * limit) = signed_take_bit 63 (int p * sint limit)"
    by (simp only: sint_sbintrunc' len_bit0 len_num1) simp
  also have "\<dots> = int p * sint limit"
    by (rule signed_take_bit_int_eq_self) (use assms in \<open>simp_all add: order_trans [of _ 0]\<close>)
  finally show ?thesis .
qed

lemma page_items_quiet:
  assumes "quiet_server F" and "text_ok (lf_Status flt)" and "text_ok (lf_Channel flt)"
    and "0 \<le> sint limit" and "int p * sint limit < 2 ^ 63"
  shows "page_items F flt limit w p
     = take (nat (sint limit)) (drop (p * nat (sint limit)) (matching F flt (pg_db w)))"
  using List_quiet [OF assms(1-4), of "word_of_nat p + 1" w] page_offset [OF assms(4,5)] assms(4)
  by (simp add: page_items_def nat_mult_distrib)

lemma newest_first_mset: "mset (newest_first rows) = mset rows"
  by (simp add: newest_first_def)

definition newer_eq :: "Notification \<Rightarrow> Notification \<Rightarrow> bool" where
  "newer_eq m n \<longleftrightarrow> n_CreatedAt n < n_CreatedAt m
     \<or> (n_CreatedAt n = n_CreatedAt m \<and> uint (n_ID n) \<le> uint (n_ID m))"

lemma newest_first_sorted: "sorted_wrt newer_eq (newest_first rows)"
proof -
  let ?f = "\<lambda>n. (n_CreatedAt n, uint (n_ID n))"
  have "sorted (map ?f (sort_key ?f rows))" by simp
  then have "sorted_wrt (\<lambda>a b. ?f a \<le> ?f b) (sort_key ?f rows)" by (simp add: sorted_map)
  then have "sorted_wrt (\<lambda>a b. ?f b \<le> ?f a) (newest_first rows)"
    by (simp add: newest_first_def sorted_wrt_rev)
  then show ?thesis by (rule sorted_wrt_mono_rel [rotated]) (auto simp: newer_eq_def less_eq_prod_def)
qed

lemma page_items_length:
  assumes "quiet_server F" and "text_ok (lf_Status flt)" and "text_ok (lf_Channel flt)"
    and "0 \<le> sint limit" and "int p * sint limit < 2 ^ 63"
  shows "length (page_items F flt limit w p) \<le> nat (sint limit)"
  by (simp add: page_items_quiet [OF assms])

lemma pages_all:
  assumes "quiet_server F" and "text_ok (lf_Status flt)" and "text_ok (lf_Channel flt)"
    and "0 \<le> sint limit" and "int n * sint limit < 2 ^ 63"
    and "length (matching F flt (pg_db w)) \<le> n * nat (sint limit)"
  shows "concat (map (page_items F flt limit w) [0..<n]) = matching F flt (pg_db w)"
proof -
  have "page_items F flt limit w p
      = take (nat (sint limit)) (drop (p * nat (sint limit)) (matching F flt (pg_db w)))"
    if "p < n" for p
  proof (rule page_items_quiet [OF assms(1-4)])
    have "int p * sint limit \<le> int n * sint limit" using that assms(4) by (simp add: mult_right_mono)
    then show "int p * sint limit < 2 ^ 63" using assms(5) by simp
  qed
  then have "map (page_items F flt limit w) [0..<n]
      = map (\<lambda>p. take (nat (sint limit)) (drop (p * nat (sint limit)) (matching F flt (pg_db w)))) [0..<n]"
    by (intro map_cong) auto
  then show ?thesis using pages_concat_nat [OF assms(6)] by (simp only:)
qed

text \<open>C30: On a working server the pages of a list, put together, are exactly the notifications the
  filter asks for, each once, newest first with ties broken by descending id, when there are
  enough pages to hold them.\<close>

theorem List_pages:
  assumes "quiet_server F" and "text_ok (lf_Status flt)" and "text_ok (lf_Channel flt)"
    and "0 \<le> sint limit" and "int n * sint limit < 2 ^ 63"
    and "length (matching F flt (pg_db w)) \<le> n * nat (sint limit)"
  shows "mset (concat (map (page_items F flt limit w) [0..<n]))
       = mset (filter (filter_matches (sv_round F) flt) (tb_notifications (pg_db w)))
    \<and> sorted_wrt newer_eq (concat (map (page_items F flt limit w) [0..<n]))"
  unfolding pages_all [OF assms] matching_def
  by (simp add: newest_first_mset newest_first_sorted)

definition pending_filter :: ListFilter where
  "pending_filter = \<lparr>lf_Status = StatusPending, lf_Channel = [], lf_DateFrom = 0, lf_DateTo = 0\<rparr>"

theorem List_pages_witness:
  "mset (concat (map (page_items plain_server pending_filter 10 sample_pg) [0..<2]))
       = mset (filter (filter_matches (sv_round plain_server) pending_filter)
           (tb_notifications (pg_db sample_pg)))
    \<and> sorted_wrt newer_eq (concat (map (page_items plain_server pending_filter 10 sample_pg) [0..<2]))"
proof (rule List_pages [OF plain_quiet])
  have "length (matching plain_server pending_filter (pg_db sample_pg)) \<le> 1"
    by (simp add: matching_def newest_first_def sample_pg_def le_trans [OF length_filter_le])
  then show "length (matching plain_server pending_filter (pg_db sample_pg)) \<le> 2 * nat (sint (10 :: go_int))"
    by simp
qed (simp_all add: pending_filter_def)

text \<open>Another session commits a notification between the two queries of a list.\<close>

definition racing_server :: server where
  "racing_server = plain_server\<lparr>sv_other := (\<lambda>k d. if k = 2 then d\<lparr>tb_notifications := [sample_row]\<rparr> else d)\<rparr>"

text \<open>The two queries of \<open>List\<close> do not see one snapshot: with another session inserting a
  notification between them, the list has one item and a total of zero.\<close>

theorem List_not_one_snapshot:
  "fst (ListNotifications racing_server pending_filter 1 10 empty_pg) = Inr ([sample_row], 0)"
proof -
  have t: "text_ok (lf_Status pending_filter)" "text_ok (lf_Channel pending_filter)"
    by (simp_all add: pending_filter_def)
  show ?thesis
    using sql_count_correct [OF t, of racing_server] sql_select_correct [OF t, of 10 0 racing_server]
    by (simp add: ListNotifications_def split_beta exec_def racing_server_def plain_server_def
        empty_pg_def empty_db_def matching_def newest_first_def filter_matches_def pending_filter_def
        sample_row_def Notification_zero_def Let_def)
qed

lemma ListAttempts_quiet:
  assumes "quiet_server F"
  shows "fst (ListAttempts F i w) = Inr (sort_key (\<lambda>a. (da_AttemptNumber a, da_ID a)) (attempts_of i (pg_db w)))"
  by (simp add: ListAttempts_def exec_quiet [OF assms])

end
