(* ===== verification/Postgres_Ports.thy ===== *)
theory Postgres_Ports
  imports Ports Postgres_Properties
begin

text \<open>
  The repositories of \<open>internal/adapter/postgres\<close> fulfil the contracts of the application's
  ports, with every pattern of failing calls, for a session that has the database to itself.
\<close>

section \<open>The dedup store\<close>

definition pg_seen :: "pg \<Rightarrow> uuid set" where
  "pg_seen w = set (tb_processed (pg_db w))"

lemma Repo_Mark_error:
  assumes "Repo_MarkIfUnprocessed (alone F) i w = (Inl e, w')"
  shows "pg_seen w' = pg_seen w \<or> pg_seen w' = insert i (pg_seen w)"
proof -
  obtain e' where "exec (alone F) (sql_mark i) w = (Inl e', w')"
    using assms by (auto simp: Repo_MarkIfUnprocessed_def split: prod.splits sum.splits)
  then show ?thesis
  proof (cases rule: exec_cases)
    case (lost msg a)
    then show ?thesis using sql_mark_effect(2) by (auto simp: pg_seen_def)
  qed (simp_all add: pg_seen_def)
qed

lemma Repo_Delete_cases:
  assumes "Repo_DeleteProcessed (alone F) i w = (r, w')"
  shows "pg_seen w' = pg_seen w - {i} \<or> (r \<noteq> None \<and> pg_seen w' = pg_seen w)"
proof -
  obtain r' where e: "exec (alone F) (\<lambda>now d. Inr ((), d\<lparr>tb_processed := removeAll i (tb_processed d)\<rparr>)) w = (r', w')"
    and r: "r = (case r' of Inl err \<Rightarrow> Some (ErrorWrap ''delete processed: '' err []) | Inr _ \<Rightarrow> None)"
    using assms by (auto simp: Repo_DeleteProcessed_def split: prod.splits sum.splits)
  from e show ?thesis
  proof (cases rule: exec_cases)
    case (failed e)
    then show ?thesis using r by (simp add: pg_seen_def)
  next
    case (lost msg a)
    then have "pg_db w' = pg_db w\<lparr>tb_processed := removeAll i (tb_processed (pg_db w))\<rparr>" by simp
    then show ?thesis by (simp add: pg_seen_def)
  next
    case (executed a)
    then have "pg_db w' = pg_db w\<lparr>tb_processed := removeAll i (tb_processed (pg_db w))\<rparr>" by simp
    then show ?thesis by (simp add: pg_seen_def)
  qed
qed

interpretation pg_dedup: dedup_store
  "Repo_MarkIfUnprocessed (alone F)" "Repo_DeleteProcessed (alone F)" pg_seen for F
proof unfold_locales
  fix i w w' b
  assume "Repo_MarkIfUnprocessed (alone F) i w = (Inr b, w')"
  then show "b = (i \<notin> pg_seen w) \<and> pg_seen w' = insert i (pg_seen w)"
    using mark_answer [of "alone F" i w b w'] by (simp add: pg_seen_def)
qed (use Repo_Mark_error Repo_Delete_cases in blast)+

section \<open>The status store\<close>

definition pg_status :: "pg \<Rightarrow> uuid \<Rightarrow> Status option" where
  "pg_status w i = map_option n_Status (find (\<lambda>n. n_ID n = i) (tb_notifications (pg_db w)))"

lemma pg_status_cong: "pg_db w' = pg_db w \<Longrightarrow> pg_status w' = pg_status w"
  by (simp add: pg_status_def fun_eq_iff)

lemma find_map_status:
  "find (\<lambda>n. n_ID n = j) (map (\<lambda>n. if n_ID n = i then set_status s now n else n) ns)
     = map_option (\<lambda>n. if j = i then set_status s now n else n) (find (\<lambda>n. n_ID n = j) ns)"
  by (induction ns) auto

lemma update_effect:
  assumes "sql_update_status s (\<lambda>n. n_ID n = i) now (pg_db w) = Inr (rows, pg_db w')"
  shows "pg_status w' = (if pg_status w i = None then pg_status w else (pg_status w)(i \<mapsto> s))"
    and "rows = [] \<longleftrightarrow> pg_status w i = None"
proof -
  have d: "tb_notifications (pg_db w')
      = map (\<lambda>n. if n_ID n = i then set_status s now n else n) (tb_notifications (pg_db w))"
    and r: "rows = map (set_status s now) (filter (\<lambda>n. n_ID n = i) (tb_notifications (pg_db w)))"
    using assms by (auto simp: sql_update_status_def split: if_splits dest!: arg_cong [of _ "pg_db w'" tb_notifications])
  show "pg_status w' = (if pg_status w i = None then pg_status w else (pg_status w)(i \<mapsto> s))"
  proof
    fix j
    show "pg_status w' j = (if pg_status w i = None then pg_status w else (pg_status w)(i \<mapsto> s)) j"
      by (cases "find (\<lambda>n. n_ID n = j) (tb_notifications (pg_db w))")
        (auto simp: pg_status_def d find_map_status)
  qed
  show "rows = [] \<longleftrightarrow> pg_status w i = None"
    by (auto simp: r pg_status_def filter_empty_conv find_None_iff)
qed

lemma UpdateStatus_cases:
  assumes "UpdateStatus (alone F) i s w = (r, w')"
  shows "(r \<noteq> None \<and> pg_status w' = pg_status w)
    \<or> (pg_status w i \<noteq> None \<and> pg_status w' = (pg_status w)(i \<mapsto> s))"
proof -
  obtain r' where e: "exec (alone F) (sql_update_status s (\<lambda>n. n_ID n = i)) w = (r', w')"
    and r: "r = (case r' of Inl err \<Rightarrow> Some (ErrorWrap ''update status: '' err [])
       | Inr rows \<Rightarrow> if length rows = 0 then Some ErrNotFound else None)"
    using assms by (auto simp: UpdateStatus_def split: prod.splits sum.splits if_splits)
  from e show ?thesis
  proof (cases rule: exec_cases)
    case (failed e)
    have "pg_db w' = pg_db w" using failed(2) by simp
    then have "pg_status w' = pg_status w" by (rule pg_status_cong)
    then show ?thesis using r failed(1) by simp
  next
    case (lost msg rows)
    then have "sql_update_status s (\<lambda>n. n_ID n = i) (seen_now F w) (pg_db w) = Inr (rows, pg_db w')"
      by simp
    note u = update_effect [OF this]
    show ?thesis using r lost(1) u by (cases "pg_status w i = None") simp_all
  next
    case (executed rows)
    then have "sql_update_status s (\<lambda>n. n_ID n = i) (seen_now F w) (pg_db w) = Inr (rows, pg_db w')"
      by simp
    note u = update_effect [OF this]
    show ?thesis using r executed(1) u by (cases "pg_status w i = None") simp_all
  qed
qed

interpretation pg_statuses: status_store "UpdateStatus (alone F)" pg_status for F
  by unfold_locales (use UpdateStatus_cases in blast)+

section \<open>The notification store\<close>

definition pg_rows :: "pg \<Rightarrow> Notification list" where
  "pg_rows w = tb_notifications (pg_db w)"

lemma insert_statement:
  assumes "sql_insert_notification F n now d = Inr (u, d')"
  shows "tb_notifications d' = tb_notifications d @ [stored F n]"
  using assms by (auto simp: sql_insert_notification_def split: if_splits)

lemma Insert_cases:
  assumes "Insert (alone F) n w = (Some e, w')"
  shows "pg_rows w' = pg_rows w \<or> pg_rows w' = pg_rows w @ [stored F n]"
proof -
  obtain e' where "exec (alone F) (sql_insert_notification (alone F) n) w = (Inl e', w')"
    using assms by (auto simp: Insert_def split: prod.splits sum.splits)
  then show ?thesis
  proof (cases rule: exec_cases)
    case (lost msg a)
    then show ?thesis using insert_statement [OF lost(2)] by (simp add: pg_rows_def)
  qed (simp_all add: pg_rows_def)
qed

lemma by_key_cases:
  assumes "GetByIdempotencyKey (alone F) k w = (r, w')"
  shows "pg_rows w' = pg_rows w"
    and "r = Inr n \<Longrightarrow> n \<in> set (pg_rows w) \<and> n_IdempotencyKey n = Some k"
    and "r = Inl e \<Longrightarrow> errors_Is e ErrNotFound
      \<Longrightarrow> \<forall>n \<in> set (pg_rows w). n_IdempotencyKey n \<noteq> Some k"
proof -
  let ?stmt = "\<lambda>now d. if \<not> text_ok k then Inl (pg_error ''invalid text'')
                    else sql_row (\<lambda>n. n_IdempotencyKey n = Some k) now d"
  obtain r' where e: "exec (alone F) ?stmt w = (r', w')"
    and r: "r = (case r' of Inl err \<Rightarrow> if errors_Is err ErrNoRows then Inl ErrNotFound
               else Inl (ErrorWrap ''get by idempotency key: '' err [])
             | Inr n \<Rightarrow> Inr n)"
    using assms by (auto simp: GetByIdempotencyKey_def split: prod.splits sum.splits if_splits)
  have all: "pg_rows w' = pg_rows w
    \<and> (\<forall>n. r = Inr n \<longrightarrow> n \<in> set (pg_rows w) \<and> n_IdempotencyKey n = Some k)
    \<and> (\<forall>e. r = Inl e \<longrightarrow> errors_Is e ErrNotFound
          \<longrightarrow> (\<forall>n \<in> set (pg_rows w). n_IdempotencyKey n \<noteq> Some k))"
    using e
  proof (cases rule: exec_cases)
    case (failed e)
    have "e = ErrNoRows \<Longrightarrow> find (\<lambda>n. n_IdempotencyKey n = Some k) (tb_notifications (pg_db w)) = None"
      using failed(3)
      by (auto simp: ErrNoRows_def pg_error_def sql_row_def split: if_splits option.splits)
    moreover have "errors_Is e ErrNoRows \<longrightarrow> e = ErrNoRows" "\<not> errors_Is e ErrNotFound"
      using failed(3)
      by (auto simp: ErrNoRows_def ErrNotFound_def pg_error_def sql_row_def split: if_splits option.splits)
    ultimately show ?thesis using failed(1,2) r
      by (auto simp: pg_rows_def ErrNotFound_def find_None_iff)
  next
    case (lost msg a)
    then show ?thesis using r
      by (auto simp: pg_rows_def ErrNoRows_def ErrNotFound_def dest: sql_row_same split: if_splits)
  next
    case (executed a)
    then have "sql_row (\<lambda>n. n_IdempotencyKey n = Some k) (seen_now F w) (pg_db w) = Inr (a, pg_db w')"
      by (auto split: if_splits)
    then show ?thesis using executed(1) r
      by (auto simp: pg_rows_def sql_row_def split: option.splits dest: find_Some_mem)
  qed
  then show "pg_rows w' = pg_rows w"
    "r = Inr n \<Longrightarrow> n \<in> set (pg_rows w) \<and> n_IdempotencyKey n = Some k"
    "r = Inl e \<Longrightarrow> errors_Is e ErrNotFound \<Longrightarrow> \<forall>n \<in> set (pg_rows w). n_IdempotencyKey n \<noteq> Some k"
    by blast+
qed

interpretation pg_store: notification_store
  "Insert (alone F)" "GetByIdempotencyKey (alone F)" pg_rows "stored F" for F
proof unfold_locales
  fix n w w'
  assume i: "Insert (alone F) n w = (None, w')"
  show "pg_rows w' = pg_rows w @ [stored F n]
        \<and> (\<forall>m \<in> set (pg_rows w). n_ID m \<noteq> n_ID n
             \<and> (n_IdempotencyKey n \<noteq> None \<longrightarrow> n_IdempotencyKey m \<noteq> n_IdempotencyKey n))"
    using Insert_nil [OF i] by (auto simp: pg_rows_def)
next
  fix k w n w'
  assume "GetByIdempotencyKey (alone F) k w = (Inr n, w')"
  then show "pg_rows w' = pg_rows w \<and> n \<in> set (pg_rows w) \<and> n_IdempotencyKey n = Some k"
    using by_key_cases by blast
next
  fix k w e w'
  assume "GetByIdempotencyKey (alone F) k w = (Inl e, w')"
  then show "pg_rows w' = pg_rows w
        \<and> (errors_Is e ErrNotFound \<longrightarrow> (\<forall>n \<in> set (pg_rows w). n_IdempotencyKey n \<noteq> Some k))"
    using by_key_cases by blast
qed (use Insert_cases in \<open>simp_all\<close>)

end
