(* ===== verification/Service.thy ===== *)
theory Service
  imports App_Types Message Rabbitmq Ports
begin

text \<open>
  \<open>internal/app/notification_service.go\<close>: the use cases of the API over the ports
  \<open>Repository\<close> and \<open>MessagePublisher\<close>, which are functions on the state \<open>'w\<close> of the outside
  world. \<open>svc_newID\<close> is \<open>uuid.New\<close>, \<open>svc_now\<close> the clock. Log lines are not modelled.
\<close>

section \<open>Ports and state\<close>

record 'w Repository =
  repo_Insert :: "Notification \<Rightarrow> 'w \<Rightarrow> goerror option \<times> 'w"
  repo_GetByID :: "uuid \<Rightarrow> 'w \<Rightarrow> (goerror + Notification) \<times> 'w"
  repo_UpdateStatus :: "uuid \<Rightarrow> Status \<Rightarrow> 'w \<Rightarrow> goerror option \<times> 'w"
  repo_InsertBatch :: "uuid \<Rightarrow> Notification list \<Rightarrow> 'w \<Rightarrow> goerror option \<times> 'w"
  repo_GetBatchSummary :: "uuid \<Rightarrow> 'w \<Rightarrow> (goerror + BatchSummary) \<times> 'w"
  repo_List :: "ListFilter \<Rightarrow> go_int \<Rightarrow> go_int \<Rightarrow> 'w \<Rightarrow> (goerror + Notification list \<times> int) \<times> 'w"
  repo_CancelIfPending :: "uuid \<Rightarrow> 'w \<Rightarrow> (goerror + Notification) \<times> 'w"
  repo_GetByIdempotencyKey :: "go_string \<Rightarrow> 'w \<Rightarrow> (goerror + Notification) \<times> 'w"

type_synonym 'w MessagePublisher =
  "go_string \<Rightarrow> amqp_table \<Rightarrow> go_string \<Rightarrow> 'w \<Rightarrow> goerror option \<times> 'w"

record 'w NotificationService =
  svc_repo :: "'w Repository"
  svc_publisher :: "'w MessagePublisher"
  svc_now :: "'w \<Rightarrow> time"
  svc_newID :: "'w \<Rightarrow> uuid \<times> 'w"

record CreateInput =
  in_Recipient :: go_string
  in_Channel :: Channel
  in_Content :: go_string
  in_Priority :: Priority
  in_CorrelationID :: uuid
  in_BatchID :: "uuid option"
  in_IdempotencyKey :: "go_string option"

section \<open>Use cases\<close>

text \<open>\<open>json.Marshal\<close> of the message, all strings, does not fail.\<close>

definition publishOne ::
  "uuid_lib \<Rightarrow> 'w NotificationService \<Rightarrow> Notification \<Rightarrow> 'w \<Rightarrow> goerror option \<times> 'w" where
  "publishOne U s n w =
     (let body = Marshal U (MessageFrom n);
          headers = [(''notification_id'', VString (uuid_String U (n_ID n))),
                     (''correlation_id'', VString (uuid_String U (n_CorrelationID n)))]
      in svc_publisher s (RoutingKey (n_Channel n) (n_Priority n)) headers body w)"

definition default_priority :: "Priority \<Rightarrow> Priority" where
  "default_priority p = (if p = [] then PriorityNormal else p)"

text \<open>The struct literal of a new notification, and its insertion and publication.\<close>

definition new_notification ::
  "uuid \<Rightarrow> uuid \<Rightarrow> uuid option \<Rightarrow> go_string option \<Rightarrow> time \<Rightarrow> CreateInput \<Rightarrow> Notification" where
  "new_notification newID cid batch key now inp =
     \<lparr>n_ID = newID, n_Recipient = in_Recipient inp, n_Channel = in_Channel inp,
      n_Content = in_Content inp, n_Priority = default_priority (in_Priority inp),
      n_Status = StatusPending, n_CorrelationID = cid, n_BatchID = batch, n_IdempotencyKey = key,
      n_CreatedAt = now, n_UpdatedAt = now\<rparr>"

definition insert_and_publish ::
  "uuid_lib \<Rightarrow> 'w NotificationService \<Rightarrow> Notification \<Rightarrow> 'w \<Rightarrow> (goerror + Notification) \<times> 'w" where
  "insert_and_publish U s n w =
     (case repo_Insert (svc_repo s) n w of
        (Some err, w) \<Rightarrow> (Inl err, w)
      | (None, w) \<Rightarrow>
          (case publishOne U s n w of
             (Some err, w) \<Rightarrow> (Inl (ErrorWrap ''publish notification: '' err []), w)
           | (None, w) \<Rightarrow> (Inr n, w)))"

definition Create ::
  "uuid_lib \<Rightarrow> 'w NotificationService \<Rightarrow> CreateInput \<Rightarrow> 'w \<Rightarrow> (goerror + Notification) \<times> 'w" where
  "Create U s inp w =
     (let now = svc_now s w;
          (newID, w) = svc_newID s w;
          n = new_notification newID (in_CorrelationID inp) (in_BatchID inp) (in_IdempotencyKey inp) now inp
      in case Validate n of
           Some err \<Rightarrow> (Inl (ErrorWrap [] ErrInvalidInput ('': '' @ error_text err)), w)
         | None \<Rightarrow> insert_and_publish U s n w)"

definition CreateWithIdempotency ::
  "uuid_lib \<Rightarrow> 'w NotificationService \<Rightarrow> CreateInput \<Rightarrow> go_string \<Rightarrow> 'w
     \<Rightarrow> (goerror + Notification \<times> bool) \<times> 'w" where
  "CreateWithIdempotency U s inp idempotencyKey w =
     (case repo_GetByIdempotencyKey (svc_repo s) idempotencyKey w of
        (Inr existing, w) \<Rightarrow> (Inr (existing, True), w)
      | (Inl lookupErr, w) \<Rightarrow>
          if \<not> errors_Is lookupErr ErrNotFound
          then (Inl (ErrorWrap ''idempotency lookup: '' lookupErr []), w)
          else (case Create U s (inp\<lparr>in_IdempotencyKey := Some idempotencyKey\<rparr>) w of
                  (Inl err, w) \<Rightarrow> (Inl err, w)
                | (Inr created, w) \<Rightarrow> (Inr (created, False), w)))"

text \<open>The loop over the items of a batch builds the notifications in order, drawing ids as it
  goes, and stops at the first invalid one.\<close>

fun build_batch ::
  "'w NotificationService \<Rightarrow> uuid \<Rightarrow> time \<Rightarrow> int \<Rightarrow> CreateInput list \<Rightarrow> 'w
     \<Rightarrow> (goerror + Notification list) \<times> 'w" where
  "build_batch s batchID now i [] w = (Inr [], w)"
| "build_batch s batchID now i (inp # items) w =
     (let (cid, w) = (if in_CorrelationID inp = uuid_Nil then svc_newID s w
                      else (in_CorrelationID inp, w));
          (newID, w) = svc_newID s w;
          n = new_notification newID cid (Some batchID) None now inp
      in case Validate n of
           Some err \<Rightarrow>
             (Inl (ErrorWrap [] ErrInvalidInput ('': item '' @ Itoa i @ '': '' @ error_text err)), w)
         | None \<Rightarrow>
             (case build_batch s batchID now (i + 1) items w of
                (Inl err, w) \<Rightarrow> (Inl err, w)
              | (Inr ns, w) \<Rightarrow> (Inr (n # ns), w)))"

text \<open>After the commit every notification is published; a failure is only logged.\<close>

fun publish_all :: "uuid_lib \<Rightarrow> 'w NotificationService \<Rightarrow> Notification list \<Rightarrow> 'w \<Rightarrow> 'w" where
  "publish_all U s [] w = w"
| "publish_all U s (n # ns) w = publish_all U s ns (snd (publishOne U s n w))"

definition CreateBatch ::
  "uuid_lib \<Rightarrow> 'w NotificationService \<Rightarrow> CreateInput list \<Rightarrow> 'w
     \<Rightarrow> (goerror + uuid \<times> Notification list) \<times> 'w" where
  "CreateBatch U s items w =
     (let (batchID, w) = svc_newID s w;
          now = svc_now s w
      in case build_batch s batchID now 0 items w of
           (Inl err, w) \<Rightarrow> (Inl err, w)
         | (Inr ns, w) \<Rightarrow>
             (case repo_InsertBatch (svc_repo s) batchID ns w of
                (Some err, w) \<Rightarrow> (Inl (ErrorWrap ''insert batch: '' err []), w)
              | (None, w) \<Rightarrow> (Inr (batchID, ns), publish_all U s ns w)))"

definition Get :: "'w NotificationService \<Rightarrow> uuid \<Rightarrow> 'w \<Rightarrow> (goerror + Notification) \<times> 'w" where
  "Get s i w = repo_GetByID (svc_repo s) i w"

definition Service_GetBatchSummary ::
  "'w NotificationService \<Rightarrow> uuid \<Rightarrow> 'w \<Rightarrow> (goerror + BatchSummary) \<times> 'w" where
  "Service_GetBatchSummary s b w = repo_GetBatchSummary (svc_repo s) b w"

definition Service_List ::
  "'w NotificationService \<Rightarrow> ListFilter \<Rightarrow> go_int \<Rightarrow> go_int \<Rightarrow> 'w
     \<Rightarrow> (goerror + Notification list \<times> int) \<times> 'w" where
  "Service_List s flt page limit w = repo_List (svc_repo s) flt page limit w"

definition Cancel :: "'w NotificationService \<Rightarrow> uuid \<Rightarrow> 'w \<Rightarrow> (goerror + Notification) \<times> 'w" where
  "Cancel s i w = repo_CancelIfPending (svc_repo s) i w"

definition MarkDelivered :: "'w NotificationService \<Rightarrow> uuid \<Rightarrow> 'w \<Rightarrow> goerror option \<times> 'w" where
  "MarkDelivered s i w = repo_UpdateStatus (svc_repo s) i StatusDelivered w"

definition MarkFailed :: "'w NotificationService \<Rightarrow> uuid \<Rightarrow> 'w \<Rightarrow> goerror option \<times> 'w" where
  "MarkFailed s i w = repo_UpdateStatus (svc_repo s) i StatusFailed w"

end
