(* ===== verification/Service_Properties.thy ===== *)
theory Service_Properties
  imports Service Rabbitmq_Properties Deliver_Properties
begin

text \<open>
  What the use cases of \<open>internal/app/notification_service.go\<close> promise. They run against an
  arbitrary environment that answers each call from the history of calls; the lemmas on
  idempotency are proved under the contract of the notification store.
\<close>

section \<open>Traced runs\<close>

datatype svc_call =
    SNewID
  | SInsert Notification
  | SInsertBatch uuid "Notification list"
  | SLookup go_string
  | SPublish go_string amqp_table go_string

record svc_env =
  sa_id :: "svc_call list \<Rightarrow> uuid"
  sa_now :: "svc_call list \<Rightarrow> time"
  sa_err :: "svc_call list \<Rightarrow> goerror option"
  sa_row :: "svc_call list \<Rightarrow> goerror + Notification"

definition svc_ask :: "svc_env \<Rightarrow> svc_call \<Rightarrow> svc_call list \<Rightarrow> goerror option \<times> svc_call list" where
  "svc_ask E c h = (sa_err E (h @ [c]), h @ [c])"

text \<open>The ports the creating use cases call; the others answer from the environment too.\<close>

definition traced_repo :: "svc_env \<Rightarrow> svc_call list Repository" where
  "traced_repo E =
     \<lparr>repo_Insert = (\<lambda>n. svc_ask E (SInsert n)),
      repo_GetByID = (\<lambda>i h. (sa_row E h, h)),
      repo_UpdateStatus = (\<lambda>i s h. (sa_err E h, h)),
      repo_InsertBatch = (\<lambda>b ns. svc_ask E (SInsertBatch b ns)),
      repo_GetBatchSummary = (\<lambda>b h. (Inl ErrNotFound, h)),
      repo_List = (\<lambda>f p l h. (Inl ErrNotFound, h)),
      repo_CancelIfPending = (\<lambda>i h. (sa_row E h, h)),
      repo_GetByIdempotencyKey = (\<lambda>k h. (sa_row E (h @ [SLookup k]), h @ [SLookup k]))\<rparr>"

definition traced_service :: "svc_env \<Rightarrow> svc_call list NotificationService" where
  "traced_service E =
     \<lparr>svc_repo = traced_repo E,
      svc_publisher = (\<lambda>key hs body. svc_ask E (SPublish key hs body)),
      svc_now = sa_now E,
      svc_newID = (\<lambda>h. (sa_id E (h @ [SNewID]), h @ [SNewID]))\<rparr>"

lemma traced_service_simps [simp]:
  "svc_repo (traced_service E) = traced_repo E"
  "svc_publisher (traced_service E) key hs body h = (sa_err E (h @ [SPublish key hs body]), h @ [SPublish key hs body])"
  "svc_now (traced_service E) = sa_now E"
  "svc_newID (traced_service E) h = (sa_id E (h @ [SNewID]), h @ [SNewID])"
  "repo_Insert (traced_repo E) n h = (sa_err E (h @ [SInsert n]), h @ [SInsert n])"
  "repo_InsertBatch (traced_repo E) b ns h = (sa_err E (h @ [SInsertBatch b ns]), h @ [SInsertBatch b ns])"
  "repo_GetByIdempotencyKey (traced_repo E) k h = (sa_row E (h @ [SLookup k]), h @ [SLookup k])"
  by (simp_all add: traced_service_def traced_repo_def svc_ask_def)

text \<open>A notification is stored once an insert of it was answered by nil.\<close>

definition stored_by :: "svc_env \<Rightarrow> svc_call list \<Rightarrow> Notification \<Rightarrow> bool" where
  "stored_by E h n \<longleftrightarrow> (\<exists>p c q. h = p @ c # q \<and> sa_err E (p @ [c]) = None
     \<and> (c = SInsert n \<or> (\<exists>b ns. c = SInsertBatch b ns \<and> n \<in> set ns)))"

lemma stored_by_append: "stored_by E h n \<Longrightarrow> stored_by E (h @ q) n"
  unfolding stored_by_def by (metis append.assoc append_Cons)

lemma stored_by_insert: "sa_err E (h @ [SInsert n]) = None \<Longrightarrow> stored_by E (h @ [SInsert n]) n"
  unfolding stored_by_def by blast

lemma stored_by_batch:
  "sa_err E (h @ [SInsertBatch b ns]) = None \<Longrightarrow> n \<in> set ns \<Longrightarrow> stored_by E (h @ [SInsertBatch b ns]) n"
  unfolding stored_by_def by blast

text \<open>What the API may publish: the message of a stored, valid, pending notification, under its
  routing key.\<close>

definition publication_of :: "uuid_lib \<Rightarrow> Notification \<Rightarrow> go_string \<Rightarrow> go_string \<Rightarrow> bool" where
  "publication_of U n key body \<longleftrightarrow>
     key = RoutingKey (n_Channel n) (n_Priority n) \<and> body = Marshal U (MessageFrom n)"

definition creatable :: "Notification \<Rightarrow> bool" where
  "creatable n \<longleftrightarrow> well_formed n \<and> Priority_Valid (n_Priority n) \<and> n_Status n = StatusPending"

definition publishes_stored :: "uuid_lib \<Rightarrow> svc_env \<Rightarrow> svc_call list \<Rightarrow> bool" where
  "publishes_stored U E h \<longleftrightarrow> (\<forall>p key hs body q. h = p @ SPublish key hs body # q \<longrightarrow>
     (\<exists>n. stored_by E p n \<and> creatable n \<and> publication_of U n key body))"

lemma publishes_stored_Nil [simp]: "publishes_stored U E []"
  by (simp add: publishes_stored_def)

lemma publishes_stored_snoc:
  assumes "publishes_stored U E h"
    and "\<And>key hs body. c = SPublish key hs body
       \<Longrightarrow> \<exists>n. stored_by E h n \<and> creatable n \<and> publication_of U n key body"
  shows "publishes_stored U E (h @ [c])"
  unfolding publishes_stored_def
proof (intro allI impI)
  fix p key hs body q
  assume e: "h @ [c] = p @ SPublish key hs body # q"
  show "\<exists>n. stored_by E p n \<and> creatable n \<and> publication_of U n key body"
  proof (cases q rule: rev_cases)
    case Nil
    then show ?thesis using e assms(2) by auto
  next
    case (snoc q' x)
    then have "h = p @ SPublish key hs body # q'" using e by auto
    then show ?thesis using assms(1) unfolding publishes_stored_def by blast
  qed
qed

lemma publishes_stored_other:
  "publishes_stored U E h \<Longrightarrow> (\<And>key hs body. c \<noteq> SPublish key hs body) \<Longrightarrow> publishes_stored U E (h @ [c])"
  by (rule publishes_stored_snoc) auto

lemma publishOne_stored:
  assumes "publishes_stored U E h" and "stored_by E h n" and "creatable n"
  shows "publishes_stored U E (snd (publishOne U (traced_service E) n h))"
  using assms
  by (auto simp: publishOne_def publication_of_def Let_def intro!: publishes_stored_snoc)

lemma creatable_new:
  assumes "Validate (new_notification i c b k t inp) = None"
  shows "creatable (new_notification i c b k t inp)"
proof -
  let ?n = "new_notification i c b k t inp"
  have w: "well_formed ?n" using assms by (simp add: Validate_None_iff)
  have "n_Priority ?n \<noteq> []" by (simp add: new_notification_def default_priority_def)
  then have "Priority_Valid (n_Priority ?n)" using Validate_priority [OF assms] by simp
  then show ?thesis using w by (simp add: creatable_def new_notification_def)
qed

lemma insert_and_publish_stored:
  assumes "publishes_stored U E h" and "creatable n"
  shows "publishes_stored U E (snd (insert_and_publish U (traced_service E) n h))"
proof -
  let ?h = "h @ [SInsert n]"
  have h: "publishes_stored U E ?h" by (rule publishes_stored_other [OF assms(1)]) simp
  show ?thesis
  proof (cases "sa_err E ?h")
    case None
    have "publishes_stored U E (snd (publishOne U (traced_service E) n ?h))"
      using h stored_by_insert [OF None] assms(2) by (rule publishOne_stored)
    then show ?thesis using None
      by (auto simp: insert_and_publish_def split: option.split prod.split)
  next
    case (Some e)
    then show ?thesis using h by (simp add: insert_and_publish_def)
  qed
qed

lemma Create_stored:
  assumes "publishes_stored U E h"
  shows "publishes_stored U E (snd (Create U (traced_service E) inp h))"
proof -
  have "publishes_stored U E (h @ [SNewID])" by (rule publishes_stored_other [OF assms]) simp
  then show ?thesis
    by (simp add: Create_def insert_and_publish_stored creatable_new Let_def split: option.split)
qed

lemma CreateWithIdempotency_stored:
  assumes "publishes_stored U E h"
  shows "publishes_stored U E (snd (CreateWithIdempotency U (traced_service E) inp k h))"
proof -
  let ?h1 = "h @ [SLookup k]"
  have h1: "publishes_stored U E ?h1" by (rule publishes_stored_other [OF assms]) simp
  show ?thesis using h1 Create_stored [OF h1, of "inp\<lparr>in_IdempotencyKey := Some k\<rparr>"]
    by (auto simp: CreateWithIdempotency_def split: sum.split prod.split)
qed

lemma build_batch_stored:
  assumes "publishes_stored U E h"
  shows "publishes_stored U E (snd (build_batch (traced_service E) b now i items h))"
  using assms
proof (induction items arbitrary: h i)
  case (Cons inp items)
  define h1 where "h1 = (if in_CorrelationID inp = uuid_Nil then h @ [SNewID] else h)"
  have "publishes_stored U E (h1 @ [SNewID])"
    using Cons.prems by (simp add: h1_def publishes_stored_other del: append_assoc)
  then show ?case
    using Cons.IH [of "h1 @ [SNewID]" "i + 1"]
    by (auto simp: h1_def Let_def split: option.splits prod.splits sum.splits if_splits)
qed simp

lemma new_notification_batch [simp]: "n_BatchID (new_notification i c b k t inp) = b"
  by (simp add: new_notification_def)

lemma build_batch_result:
  "build_batch s b now i items w = (Inr ns, w')
     \<Longrightarrow> length ns = length items \<and> (\<forall>n \<in> set ns. creatable n \<and> n_BatchID n = Some b)"
proof (induction items arbitrary: w i ns w')
  case (Cons inp items)
  obtain w1 newID cid ns' where n: "Validate (new_notification newID cid (Some b) None now inp) = None"
    "ns = new_notification newID cid (Some b) None now inp # ns'"
    "build_batch s b now (i + 1) items w1 = (Inr ns', w')"
    using Cons.prems by (auto simp: Let_def split: option.splits prod.splits sum.splits if_splits)
  then show ?case using Cons.IH [OF n(3)] creatable_new [OF n(1)] by simp
qed simp

lemma publish_all_stored:
  "publishes_stored U E h \<Longrightarrow> (\<And>n. n \<in> set ns \<Longrightarrow> stored_by E h n \<and> creatable n)
     \<Longrightarrow> publishes_stored U E (publish_all U (traced_service E) ns h)"
proof (induction ns arbitrary: h)
  case (Cons n ns)
  have "publishes_stored U E (snd (publishOne U (traced_service E) n h))"
    using Cons.prems by (intro publishOne_stored) auto
  moreover have "stored_by E (snd (publishOne U (traced_service E) n h)) m \<and> creatable m"
    if "m \<in> set ns" for m
    using that Cons.prems(2) [of m] by (simp add: publishOne_def Let_def stored_by_append)
  ultimately show ?case using Cons.IH by simp
qed simp

lemma CreateBatch_stored:
  assumes "publishes_stored U E h"
  shows "publishes_stored U E (snd (CreateBatch U (traced_service E) items h))"
proof -
  let ?h1 = "h @ [SNewID]"
  define b where "b = sa_id E ?h1"
  define rb where "rb = build_batch (traced_service E) b (sa_now E ?h1) 0 items ?h1"
  have "publishes_stored U E ?h1" by (rule publishes_stored_other [OF assms]) simp
  then have h2: "publishes_stored U E (snd rb)" unfolding rb_def by (rule build_batch_stored)
  have run: "snd (CreateBatch U (traced_service E) items h) = (case fst rb of
      Inl e \<Rightarrow> snd rb
    | Inr ns \<Rightarrow> (case sa_err E (snd rb @ [SInsertBatch b ns]) of
        Some e \<Rightarrow> snd rb @ [SInsertBatch b ns]
      | None \<Rightarrow> publish_all U (traced_service E) ns (snd rb @ [SInsertBatch b ns])))"
    by (simp add: CreateBatch_def Let_def b_def [symmetric] rb_def [symmetric]
        split: prod.split sum.split option.split)
  show ?thesis
  proof (cases "fst rb")
    case (Inr ns)
    let ?h3 = "snd rb @ [SInsertBatch b ns]"
    have h3: "publishes_stored U E ?h3" by (rule publishes_stored_other [OF h2]) simp
    have "build_batch (traced_service E) b (sa_now E ?h1) 0 items ?h1 = (Inr ns, snd rb)"
      using Inr by (metis rb_def prod.collapse)
    note ns = build_batch_result [OF this]
    have "publishes_stored U E (publish_all U (traced_service E) ns ?h3)" if "sa_err E ?h3 = None"
      using h3 ns stored_by_batch [OF that] by (intro publish_all_stored) auto
    then show ?thesis unfolding run using Inr h3 by (simp split: option.split)
  qed (simp add: run h2)
qed

section \<open>Sequences of requests\<close>

datatype svc_op =
    OpCreate CreateInput
  | OpCreateWithIdempotency CreateInput go_string
  | OpCreateBatch "CreateInput list"

fun run_svc :: "uuid_lib \<Rightarrow> svc_env \<Rightarrow> svc_op \<Rightarrow> svc_call list \<Rightarrow> svc_call list" where
  "run_svc U E (OpCreate inp) h = snd (Create U (traced_service E) inp h)"
| "run_svc U E (OpCreateWithIdempotency inp k) h =
     snd (CreateWithIdempotency U (traced_service E) inp k h)"
| "run_svc U E (OpCreateBatch items) h = snd (CreateBatch U (traced_service E) items h)"

lemma run_svc_stored: "publishes_stored U E h \<Longrightarrow> publishes_stored U E (run_svc U E op h)"
  by (cases op) (simp_all add: Create_stored CreateWithIdempotency_stored CreateBatch_stored)

lemma runs_svc_stored: "publishes_stored U E h \<Longrightarrow> publishes_stored U E (fold (run_svc U E) ops h)"
  by (induction ops arbitrary: h) (simp_all add: run_svc_stored)

lemma creatable_route:
  assumes "topic_literal matches" and "creatable n"
  shows "routed_to matches ProductionTopology ExchangeNotifications (RoutingKey (n_Channel n) (n_Priority n))
     = [n_Channel n @ ''.'' @ n_Priority n]"
proof -
  have c: "n_Channel n \<in> set topo_channels" and p: "n_Priority n \<in> set topo_priorities" "n_Priority n \<noteq> []"
    using assms(2) unfolding creatable_def channel_mem [symmetric] priority_mem [symmetric] well_formed_def
    by (auto simp: Priority_Valid_iff)
  show ?thesis using main_routes c p
    unfolding production_routes [OF assms(1)] list_all_iff RoutingKey_eq by auto
qed

text \<open>C14: In any sequence of create requests, every message they publish is the encoding of a
  notification that was stored before, with an insert answered by nil, that is well-formed and
  pending; the worker decodes the message to that notification's fields, and the broker routes
  it to the one work queue of its channel and priority. (The API's other publications are the
  replays from the dead letter queues, which are not made by these operations.)\<close>

theorem API_publishes_stored_notifications:
  assumes "uuid_lib_ok U" and "topic_literal matches"
    and "fold (run_svc U E) ops [] = p @ SPublish key hs body # q"
  shows "\<exists>n. stored_by E p n \<and> well_formed n \<and> n_Status n = StatusPending
    \<and> Unmarshal U body = Some (sanitize_message (MessageFrom n))
    \<and> routed_to matches ProductionTopology ExchangeNotifications key
        = [n_Channel n @ ''.'' @ n_Priority n]"
proof -
  have "publishes_stored U E (fold (run_svc U E) ops [])" by (rule runs_svc_stored) simp
  then obtain n where n: "stored_by E p n" "creatable n" "publication_of U n key body"
    using assms(3) unfolding publishes_stored_def by blast
  have "Unmarshal U body = Some (sanitize_message (MessageFrom n))"
    using n(3) Unmarshal_Marshal [OF assms(1)] by (simp add: publication_of_def)
  then show ?thesis using n creatable_route [OF assms(2) n(2)]
    by (auto simp: creatable_def publication_of_def)
qed

definition sample_input :: CreateInput where
  "sample_input =
     \<lparr>in_Recipient = ''+905551112233'', in_Channel = ChannelSMS, in_Content = ''hello'',
      in_Priority = [], in_CorrelationID = 9, in_BatchID = None, in_IdempotencyKey = None\<rparr>"

definition sample_env :: svc_env where
  "sample_env =
     \<lparr>sa_id = (\<lambda>h. word_of_nat (length h)), sa_now = (\<lambda>h. 5), sa_err = (\<lambda>h. None),
      sa_row = (\<lambda>h. Inl ErrNotFound)\<rparr>"

definition sample_new :: Notification where
  "sample_new = new_notification 1 9 None None 5 sample_input"

lemma sample_new_valid: "Validate sample_new = None"
proof -
  have "runes ''+905551112233'' = map byte ''+905551112233''" "runes ''hello'' = map byte ''hello''"
    by (rule runes_all_ascii; simp)+
  then show ?thesis
    by (simp add: sample_new_def new_notification_def sample_input_def default_priority_def
        Validate_None_iff well_formed_def Channel_Valid_iff Priority_Valid_iff is_E164_def is_digit_def
        all_white_def unicode_IsSpace_def recipient_ok.simps)
qed

lemma sample_run:
  "fold (run_svc U sample_env) [OpCreate sample_input] []
     = [SNewID, SInsert sample_new] @ SPublish (RoutingKey ''sms'' ''normal'')
         [(''notification_id'', VString (uuid_String U 1)), (''correlation_id'', VString (uuid_String U 9))]
         (Marshal U (MessageFrom sample_new)) # []"
proof -
  have "snd (Create U (traced_service sample_env) sample_input [])
      = snd (insert_and_publish U (traced_service sample_env) sample_new [SNewID])"
    using sample_new_valid
    by (simp add: Create_def sample_env_def sample_new_def sample_input_def new_notification_def Let_def)
  also have "\<dots> = [SNewID, SInsert sample_new] @ SPublish (RoutingKey ''sms'' ''normal'')
         [(''notification_id'', VString (uuid_String U 1)), (''correlation_id'', VString (uuid_String U 9))]
         (Marshal U (MessageFrom sample_new)) # []"
    by (simp add: insert_and_publish_def publishOne_def sample_env_def Let_def)
      (simp add: sample_new_def new_notification_def sample_input_def default_priority_def)
  finally show ?thesis by simp
qed

theorem API_publishes_stored_notifications_witness:
  "\<exists>n. stored_by sample_env [SNewID, SInsert sample_new] n \<and> well_formed n \<and> n_Status n = StatusPending
    \<and> Unmarshal binary_uuid (Marshal binary_uuid (MessageFrom sample_new))
        = Some (sanitize_message (MessageFrom n))
    \<and> routed_to (=) ProductionTopology ExchangeNotifications (RoutingKey ''sms'' ''normal'')
        = [n_Channel n @ ''.'' @ n_Priority n]"
  by (rule API_publishes_stored_notifications [OF binary_uuid_ok topic_literal_eq sample_run])

section \<open>Batches\<close>

fun is_newID :: "svc_call \<Rightarrow> bool" where
  "is_newID SNewID = True"
| "is_newID c = False"

fun is_spublish :: "svc_call \<Rightarrow> bool" where
  "is_spublish (SPublish k hs b) = True"
| "is_spublish c = False"

lemma newID_no_publish: "is_newID c \<Longrightarrow> \<not> is_spublish c"
  by (cases c) simp_all

definition publish_call :: "uuid_lib \<Rightarrow> Notification \<Rightarrow> svc_call" where
  "publish_call U n = SPublish (RoutingKey (n_Channel n) (n_Priority n))
     [(''notification_id'', VString (uuid_String U (n_ID n))),
      (''correlation_id'', VString (uuid_String U (n_CorrelationID n)))]
     (Marshal U (MessageFrom n))"

lemma publish_all_trace: "publish_all U (traced_service E) ns h = h @ map (publish_call U) ns"
  by (induction ns arbitrary: h) (simp_all add: publishOne_def publish_call_def Let_def)

lemma build_batch_trace:
  "\<exists>q. snd (build_batch (traced_service E) b now i items h) = h @ q \<and> (\<forall>c \<in> set q. is_newID c)"
proof (induction items arbitrary: h i)
  case (Cons inp items)
  define q1 where "q1 = (if in_CorrelationID inp = uuid_Nil then [SNewID] else []) @ [SNewID]"
  obtain q where "snd (build_batch (traced_service E) b now (i + 1) items (h @ q1)) = (h @ q1) @ q"
    "\<forall>c \<in> set q. is_newID c"
    using Cons.IH [of "i + 1" "h @ q1"] by blast
  then have "snd (build_batch (traced_service E) b now i (inp # items) h) \<in> {h @ q1, (h @ q1) @ q}"
    by (auto simp: q1_def Let_def split: option.splits prod.splits sum.splits if_splits)
  moreover have "\<forall>c \<in> set (q1 @ q). is_newID c" using \<open>\<forall>c \<in> set q. is_newID c\<close> by (auto simp: q1_def)
  ultimately show ?case by (elim insertE) (auto simp del: build_batch.simps)
qed simp

lemma publishOne_trace:
  "publishOne U (traced_service E) n h = (sa_err E (h @ [publish_call U n]), h @ [publish_call U n])"
  by (simp add: publishOne_def publish_call_def Let_def)

lemma new_notification_key [simp]: "n_IdempotencyKey (new_notification i c b k t inp) = k"
  by (simp add: new_notification_def)

text \<open>One creation, call by call.\<close>

lemma insert_and_publish_trace:
  "insert_and_publish U (traced_service E) n h =
     (case sa_err E (h @ [SInsert n]) of
        Some e \<Rightarrow> (Inl e, h @ [SInsert n])
      | None \<Rightarrow> (case sa_err E (h @ [SInsert n, publish_call U n]) of
          Some e \<Rightarrow> (Inl (ErrorWrap ''publish notification: '' e []), h @ [SInsert n, publish_call U n])
        | None \<Rightarrow> (Inr n, h @ [SInsert n, publish_call U n])))"
  by (simp add: insert_and_publish_def publishOne_trace split: option.split)

lemma Create_trace:
  "\<exists>n. Create U (traced_service E) inp h =
     (case Validate n of
        Some err \<Rightarrow> (Inl (ErrorWrap [] ErrInvalidInput ('': '' @ error_text err)), h @ [SNewID])
      | None \<Rightarrow> insert_and_publish U (traced_service E) n (h @ [SNewID]))
   \<and> (Validate n = None \<longrightarrow> creatable n) \<and> n_IdempotencyKey n = in_IdempotencyKey inp"
  by (rule exI [of _ "new_notification (sa_id E (h @ [SNewID])) (in_CorrelationID inp) (in_BatchID inp)
        (in_IdempotencyKey inp) (sa_now E h) inp"])
    (simp add: Create_def creatable_new Let_def new_notification_key)

lemma CreateBatch_trace:
  obtains (refused) e q where "CreateBatch U (traced_service E) items h = (Inl e, h @ q)" "list_all is_newID q"
  | (not_stored) e b ns q where
      "CreateBatch U (traced_service E) items h = (Inl (ErrorWrap ''insert batch: '' e []), h @ q @ [SInsertBatch b ns])"
      "sa_err E (h @ q @ [SInsertBatch b ns]) = Some e" "list_all is_newID q"
  | (stored) b ns q where
      "CreateBatch U (traced_service E) items h = (Inr (b, ns), h @ q @ SInsertBatch b ns # map (publish_call U) ns)"
      "sa_err E (h @ q @ [SInsertBatch b ns]) = None" "list_all is_newID q"
      "length ns = length items" "list_all (\<lambda>n. creatable n \<and> n_BatchID n = Some b) ns"
proof -
  define b where "b = sa_id E (h @ [SNewID])"
  obtain rb h1 where rb: "build_batch (traced_service E) b (sa_now E (h @ [SNewID])) 0 items (h @ [SNewID]) = (rb, h1)"
    by fastforce
  obtain q' where q': "h1 = (h @ [SNewID]) @ q'" "\<forall>c \<in> set q'. is_newID c"
    using build_batch_trace [of E b "sa_now E (h @ [SNewID])" 0 items "h @ [SNewID]"] rb by auto
  define q where "q = SNewID # q'"
  have q: "h1 = h @ q" "list_all is_newID q" using q' by (simp_all add: q_def list_all_iff)
  have run: "CreateBatch U (traced_service E) items h = (case rb of
      Inl e \<Rightarrow> (Inl e, h1)
    | Inr ns \<Rightarrow> (case sa_err E (h1 @ [SInsertBatch b ns]) of
        Some e \<Rightarrow> (Inl (ErrorWrap ''insert batch: '' e []), h1 @ [SInsertBatch b ns])
      | None \<Rightarrow> (Inr (b, ns), (h1 @ [SInsertBatch b ns]) @ map (publish_call U) ns)))"
    by (simp add: CreateBatch_def Let_def b_def [symmetric] rb publish_all_trace
        split: sum.split option.split)
  show ?thesis
  proof (cases rb)
    case (Inl e)
    then show ?thesis using refused [of e q] q run by simp
  next
    case (Inr ns)
    note res = build_batch_result [OF rb [unfolded Inr]]
    show ?thesis
    proof (cases "sa_err E (h1 @ [SInsertBatch b ns])")
      case None
      then show ?thesis using stored [of b ns q] q run res Inr by (simp add: list_all_iff)
    next
      case (Some e)
      then show ?thesis using not_stored [of e q b ns] q run Inr by simp
    qed
  qed
qed

lemma newIDs_no_publish: "list_all is_newID q \<Longrightarrow> filter is_spublish q = []"
  by (auto simp: filter_empty_conv list_all_iff dest: newID_no_publish)

text \<open>C15: \<open>CreateBatch\<close> publishes nothing unless the whole batch was stored in one insert; once it
  was, every notification of the batch is published, in order and each once, whatever happens
  to the others, and the result lists one valid pending notification of that batch for each
  item.\<close>

theorem CreateBatch_stores_then_publishes:
  "let (r, h) = CreateBatch U (traced_service E) items [] in
   case r of
     Inl e \<Rightarrow> filter is_spublish h = []
   | Inr (b, ns) \<Rightarrow>
       length ns = length items \<and> list_all (\<lambda>n. creatable n \<and> n_BatchID n = Some b) ns
     \<and> (\<exists>p. h = p @ SInsertBatch b ns # map (publish_call U) ns
          \<and> sa_err E (p @ [SInsertBatch b ns]) = None \<and> list_all is_newID p)"
  by (cases rule: CreateBatch_trace [of U E items "[]"]) (auto simp: newIDs_no_publish)

section \<open>Idempotency keys\<close>

context notification_store
begin

text \<open>A key that is stored is only looked up: nothing is inserted and nothing is published.\<close>

lemma replay_only_looks_up:
  assumes "repo_GetByIdempotencyKey (svc_repo s) = by_key"
    and "n \<in> set (rows w)" and "n_IdempotencyKey n = Some k"
  shows "CreateWithIdempotency U s inp k w = (case fst (by_key k w) of
      Inr m \<Rightarrow> Inr (m, True) | Inl e \<Rightarrow> Inl (ErrorWrap ''idempotency lookup: '' e []), snd (by_key k w))"
  using by_key_found [OF assms(2,3)]
  by (auto simp: CreateWithIdempotency_def assms(1) split: prod.split sum.split)

end

end
