(* ===== verification/Consumer.thy ===== *)
theory Consumer
  imports Rabbitmq "HOL-Library.Multiset"
begin

text \<open>
  \<open>internal/adapter/rabbitmq/consumer.go\<close>: the construction of a consumer and its runs as a
  step relation. The goroutine of \<open>Run\<close>, the handler goroutines, the broker and the
  cancellation of the context take steps in any order; what a handler returns is up to the
  environment. \<open>Run\<close> may be called again on the same consumer after it failed: the semaphore is a
  field of the consumer, so handlers an earlier run left behind keep their slots.
\<close>

section \<open>NewConsumer\<close>

record Delivery =
  d_Tag :: nat
  d_RoutingKey :: go_string
  d_Headers :: amqp_table
  d_Body :: go_string

record ConsumerOptions =
  co_ConsumerTag :: go_string
  co_PrefetchCount :: go_int
  co_ShutdownTimeout :: duration
  co_Concurrency :: go_int

record Consumer =
  c_queue :: go_string
  c_consumerTag :: go_string
  c_prefetchCount :: go_int
  c_shutdownTimeout :: duration
  c_concurrency :: go_int

text \<open>The options after the defaults; \<open>make(chan struct{}, n)\<close> is a semaphore of \<open>n\<close> slots.\<close>

definition normalise_options :: "ConsumerOptions \<Rightarrow> ConsumerOptions" where
  "normalise_options opts =
     (let opts = (if sint (co_Concurrency opts) \<le> 0 then opts\<lparr>co_Concurrency := 1\<rparr> else opts);
          opts = (if sint (co_PrefetchCount opts) \<le> 0 then opts\<lparr>co_PrefetchCount := 10\<rparr> else opts);
          opts = (if sint (co_PrefetchCount opts) < sint (co_Concurrency opts)
                  then opts\<lparr>co_PrefetchCount := co_Concurrency opts\<rparr> else opts)
      in if sint (co_ShutdownTimeout opts) \<le> 0 then opts\<lparr>co_ShutdownTimeout := 10 * Second\<rparr> else opts)"

definition NewConsumer ::
  "(go_int \<Rightarrow> 'w \<Rightarrow> goerror option \<times> 'w) \<Rightarrow> go_string \<Rightarrow> ConsumerOptions \<Rightarrow> 'w
     \<Rightarrow> (goerror + Consumer) \<times> 'w" where
  "NewConsumer qos queue opts w =
     (let opts = normalise_options opts
      in case qos (co_PrefetchCount opts) w of
           (Some err, w) \<Rightarrow> (Inl (ErrorWrap ''set qos: '' err []), w)
         | (None, w) \<Rightarrow>
             (Inr \<lparr>c_queue = queue, c_consumerTag = co_ConsumerTag opts,
                   c_prefetchCount = co_PrefetchCount opts,
                   c_shutdownTimeout = co_ShutdownTimeout opts,
                   c_concurrency = co_Concurrency opts\<rparr>, w))"

definition QueueName :: "Consumer \<Rightarrow> go_string" where
  "QueueName c = c_queue c"

section \<open>processSync\<close>

text \<open>What happens to a delivery: \<open>Ack(false)\<close>, or \<open>Nack(false, requeue)\<close>.\<close>

datatype settlement = Acked | Nacked bool

definition processSync :: "goerror option \<Rightarrow> settlement" where
  "processSync result = (case result of Some err \<Rightarrow> Nacked False | None \<Rightarrow> Acked)"

section \<open>Run and drain\<close>

text \<open>\<open>Run\<close> starts to consume, loops, drains when cancelled, waits for the handlers the drain
  started, and returns.\<close>

datatype phase = Starting | Running | Draining | Waiting | Returned "goerror option"

text \<open>Which context a handler was given: the one of \<open>Run\<close> or the bounded one of \<open>drain\<close>.
  \<open>cs_waiting\<close> is the delivery \<open>process\<close> wants a slot for, \<open>cs_stray\<close> the deliveries in the hands of
  handlers that outlived the run that started them. \<open>cs_settled\<close> records the calls of \<open>Ack\<close> and
  \<open>Nack\<close>, \<open>cs_dropped\<close> what the AMQP client still buffered when its channel closed and may throw
  away, \<open>cs_arrived\<close> all that the broker has handed over.\<close>

datatype handler_ctx = RunCtx | DrainCtx

record cstate =
  cs_phase :: phase
  cs_arriving :: "Delivery list"
  cs_open :: bool
  cs_waiting :: "Delivery option"
  cs_inflight :: "(Delivery \<times> handler_ctx) list"
  cs_stray :: "Delivery list"
  cs_settled :: "(Delivery \<times> settlement) list"
  cs_dropped :: "Delivery list"
  cs_cancelled :: bool
  cs_arrived :: "Delivery list"

definition start_state :: cstate where
  "start_state =
     \<lparr>cs_phase = Starting, cs_arriving = [], cs_open = False, cs_waiting = None, cs_inflight = [],
      cs_stray = [], cs_settled = [], cs_dropped = [], cs_cancelled = False, cs_arrived = []\<rparr>"

definition held :: "handler_ctx \<Rightarrow> cstate \<Rightarrow> nat" where
  "held k s = length (filter (\<lambda>x. snd x = k) (cs_inflight s))"

text \<open>The slots of the semaphore taken: by handlers of this run and of earlier ones.\<close>

definition slots_taken :: "cstate \<Rightarrow> nat" where
  "slots_taken s = held RunCtx s + length (cs_stray s)"

text \<open>The deliveries the broker has handed over in this run and not seen settled; it sends each
  consumer it starts no more than the prefetch count.\<close>

definition unsettled :: "cstate \<Rightarrow> Delivery list" where
  "unsettled s = cs_arriving s @ (case cs_waiting s of None \<Rightarrow> [] | Some d \<Rightarrow> [d]) @ map fst (cs_inflight s)"

inductive consumer_step :: "Consumer \<Rightarrow> cstate \<Rightarrow> cstate \<Rightarrow> bool" for c :: Consumer where
  consume_fails:
    "cs_phase s = Starting
     \<Longrightarrow> consumer_step c s (s\<lparr>cs_phase :=
          Returned (Some (ErrorWrap (''start consume on '' @ c_queue c @ '': '') e []))\<rparr>)"
| consume_starts:
    "cs_phase s = Starting \<Longrightarrow> consumer_step c s (s\<lparr>cs_phase := Running, cs_open := True\<rparr>)"
| arrive:
    "cs_open s \<Longrightarrow> int (length (unsettled s)) < sint (c_prefetchCount c)
     \<Longrightarrow> consumer_step c s (s\<lparr>cs_arriving := cs_arriving s @ [d], cs_arrived := cs_arrived s @ [d]\<rparr>)"
| close:
    "consumer_step c s (s\<lparr>cs_open := False\<rparr>)"
| discard:
    "\<not> cs_open s
     \<Longrightarrow> consumer_step c s (s\<lparr>cs_arriving := [], cs_dropped := cs_dropped s @ cs_arriving s\<rparr>)"
| cancel:
    "consumer_step c s (s\<lparr>cs_cancelled := True\<rparr>)"
| receive:
    "cs_phase s = Running \<Longrightarrow> cs_waiting s = None \<Longrightarrow> cs_arriving s = d # ds
     \<Longrightarrow> consumer_step c s (s\<lparr>cs_arriving := ds, cs_waiting := Some d\<rparr>)"
| spawn:
    "cs_phase s = Running \<Longrightarrow> cs_waiting s = Some d \<Longrightarrow> int (slots_taken s) < sint (c_concurrency c)
     \<Longrightarrow> consumer_step c s (s\<lparr>cs_waiting := None, cs_inflight := cs_inflight s @ [(d, RunCtx)]\<rparr>)"
| see_closed:
    "cs_phase s = Running \<Longrightarrow> cs_waiting s = None \<Longrightarrow> cs_arriving s = [] \<Longrightarrow> \<not> cs_open s
     \<Longrightarrow> consumer_step c s (s\<lparr>cs_phase := Returned (Some (ErrorText ''delivery channel closed''))\<rparr>)"
| see_cancelled:
    "cs_phase s = Running \<Longrightarrow> cs_waiting s = None \<Longrightarrow> cs_cancelled s
     \<Longrightarrow> consumer_step c s (s\<lparr>cs_phase := Draining\<rparr>)"
| drain_receive:
    "cs_phase s = Draining \<Longrightarrow> cs_arriving s = d # ds
     \<Longrightarrow> consumer_step c s (s\<lparr>cs_arriving := ds, cs_inflight := cs_inflight s @ [(d, DrainCtx)]\<rparr>)"
| drain_closed:
    "cs_phase s = Draining \<Longrightarrow> cs_arriving s = [] \<Longrightarrow> \<not> cs_open s
     \<Longrightarrow> consumer_step c s (s\<lparr>cs_phase := Waiting\<rparr>)"
| drain_timeout:
    "cs_phase s = Draining \<Longrightarrow> consumer_step c s (s\<lparr>cs_phase := Waiting\<rparr>)"
| drained:
    "cs_phase s = Waiting \<Longrightarrow> held DrainCtx s = 0
     \<Longrightarrow> consumer_step c s (s\<lparr>cs_phase := Returned None\<rparr>)"
| finish:
    "cs_inflight s = xs @ (d, k) # ys
     \<Longrightarrow> consumer_step c s (s\<lparr>cs_inflight := xs @ ys, cs_settled := cs_settled s @ [(d, processSync result)]\<rparr>)"
| finish_stray:
    "cs_stray s = xs @ d # ys
     \<Longrightarrow> consumer_step c s (s\<lparr>cs_stray := xs @ ys, cs_settled := cs_settled s @ [(d, processSync result)]\<rparr>)"

text \<open>A new call of \<open>Run\<close> after one that failed.\<close>

definition next_run :: "cstate \<Rightarrow> cstate" where
  "next_run s = s\<lparr>cs_phase := Starting, cs_inflight := [], cs_stray := cs_stray s @ map fst (cs_inflight s)\<rparr>"

inductive reachable :: "Consumer \<Rightarrow> cstate \<Rightarrow> bool" for c :: Consumer where
  start: "reachable c start_state"
| step: "reachable c s \<Longrightarrow> consumer_step c s s' \<Longrightarrow> reachable c s'"
| again: "reachable c s \<Longrightarrow> cs_phase s = Returned (Some e) \<Longrightarrow> reachable c (next_run s)"

inductive_cases consumer_stepE: "consumer_step c s s'"

section \<open>Invariants\<close>

lemma held_fields [simp]:
  "held k (s\<lparr>cs_inflight := xs\<rparr>) = length (filter (\<lambda>x. snd x = k) xs)"
  "held k (s\<lparr>cs_arriving := a\<rparr>) = held k s" "held k (s\<lparr>cs_open := b\<rparr>) = held k s"
  "held k (s\<lparr>cs_waiting := w\<rparr>) = held k s" "held k (s\<lparr>cs_phase := p\<rparr>) = held k s"
  "held k (s\<lparr>cs_arrived := a\<rparr>) = held k s" "held k (s\<lparr>cs_cancelled := b\<rparr>) = held k s"
  "held k (s\<lparr>cs_settled := t\<rparr>) = held k s" "held k (s\<lparr>cs_stray := ds\<rparr>) = held k s"
  "held k (s\<lparr>cs_dropped := ds\<rparr>) = held k s"
  by (simp_all add: held_def)

text \<open>What the phase of \<open>Run\<close> says: a call that has not started to consume, or has failed, has
  nothing of the delivery channel; only a draining one has handlers under the drain context,
  and it drains because the context was cancelled.\<close>

fun idle :: "phase \<Rightarrow> bool" where
  "idle Starting = True"
| "idle (Returned (Some e)) = True"
| "idle p = False"

definition phase_ok :: "cstate \<Rightarrow> bool" where
  "phase_ok s \<longleftrightarrow> (cs_phase s \<noteq> Running \<longrightarrow> cs_waiting s = None)
     \<and> (idle (cs_phase s) \<longrightarrow> \<not> cs_open s \<and> cs_arriving s = [])
     \<and> (cs_phase s \<notin> {Draining, Waiting} \<longrightarrow> held DrainCtx s = 0)
     \<and> (cs_phase s \<in> {Draining, Waiting, Returned None} \<longrightarrow> cs_cancelled s)"

lemma phase_ok_step: "phase_ok s \<Longrightarrow> consumer_step c s s' \<Longrightarrow> phase_ok s'"
  by (erule consumer_stepE; simp add: phase_ok_def held_def split: if_splits; blast)

lemma phase_ok_next: "phase_ok s \<Longrightarrow> cs_phase s = Returned (Some e) \<Longrightarrow> phase_ok (next_run s)"
  by (auto simp: phase_ok_def next_run_def held_def)

lemma reachable_phase_ok: "reachable c s \<Longrightarrow> phase_ok s"
proof (induction rule: reachable.induct)
  case start
  show ?case by (simp add: phase_ok_def start_state_def held_def)
qed (rule phase_ok_step phase_ok_next; assumption)+

definition limits :: "Consumer \<Rightarrow> cstate \<Rightarrow> bool" where
  "limits c s \<longleftrightarrow> int (slots_taken s) \<le> sint (c_concurrency c)
     \<and> int (length (unsettled s)) \<le> sint (c_prefetchCount c)"

lemma limits_step: "limits c s \<Longrightarrow> consumer_step c s s' \<Longrightarrow> limits c s'"
  by (erule consumer_stepE)
    (auto simp: limits_def slots_taken_def held_def unsettled_def split: option.splits if_splits)

lemma held_sum: "held RunCtx s + held DrainCtx s = length (cs_inflight s)"
proof -
  have "length (filter (\<lambda>x. snd x = RunCtx) xs) + length (filter (\<lambda>x. snd x = DrainCtx) xs) = length xs"
    for xs :: "(Delivery \<times> handler_ctx) list"
    by (induction xs) (use handler_ctx.exhaust in auto)
  then show ?thesis by (simp add: held_def)
qed

lemma limits_next:
  assumes "limits c s" and "phase_ok s" and "cs_phase s = Returned (Some e)"
  shows "limits c (next_run s)"
  using assms held_sum [of s]
  by (auto simp: limits_def slots_taken_def phase_ok_def next_run_def held_def unsettled_def split: option.splits)

lemma reachable_limits:
  assumes "reachable c s" and "0 \<le> sint (c_concurrency c)" and "0 \<le> sint (c_prefetchCount c)"
  shows "limits c s"
  using assms
proof (induction rule: reachable.induct)
  case start
  then show ?case by (simp add: limits_def slots_taken_def start_state_def held_def unsettled_def)
next
  case (step s s')
  then show ?case using limits_step by blast
next
  case (again s e)
  then show ?case using limits_next reachable_phase_ok by blast
qed

text \<open>Nothing the broker handed over is lost or settled twice by the consumer.\<close>

definition outstanding :: "cstate \<Rightarrow> Delivery list" where
  "outstanding s = unsettled s @ cs_stray s @ cs_dropped s"

definition conserved :: "cstate \<Rightarrow> bool" where
  "conserved s \<longleftrightarrow> mset (cs_arrived s) = mset (outstanding s) + mset (map fst (cs_settled s))
     \<and> (\<forall>x \<in> set (cs_settled s). snd x = Acked \<or> snd x = Nacked False)"

lemmas outstanding_defs = conserved_def outstanding_def unsettled_def

lemma conserved_step: "conserved s \<Longrightarrow> consumer_step c s s' \<Longrightarrow> conserved s'"
  by (erule consumer_stepE) (auto simp: outstanding_defs processSync_def split: option.splits)

lemma reachable_conserved: "reachable c s \<Longrightarrow> conserved s"
proof (induction rule: reachable.induct)
  case start
  show ?case by (simp add: outstanding_defs start_state_def)
next
  case (again s e)
  then show ?case by (auto simp: outstanding_defs next_run_def split: option.splits)
qed (rule conserved_step)

lemma normalise_options_bounds:
  "1 \<le> sint (co_Concurrency (normalise_options opts))"
  "sint (co_Concurrency (normalise_options opts)) \<le> sint (co_PrefetchCount (normalise_options opts))"
  by (auto simp: normalise_options_def Let_def)

lemma NewConsumer_bounds:
  assumes "NewConsumer qos q opts w = (Inr c, w')"
  shows "1 \<le> sint (c_concurrency c)" and "sint (c_concurrency c) \<le> sint (c_prefetchCount c)"
    and "c_concurrency c = co_Concurrency (normalise_options opts)"
  using assms normalise_options_bounds [of opts]
  by (auto simp: NewConsumer_def Let_def split: prod.splits option.splits)

section \<open>Properties\<close>

text \<open>A drain receives without asking the semaphore, so it may start a handler for everything the
  broker had handed over: first \<open>n\<close> deliveries arrive, then the context is cancelled, then the
  drain receives them.\<close>

definition filled_state :: "Delivery \<Rightarrow> nat \<Rightarrow> cstate" where
  "filled_state d n =
     start_state\<lparr>cs_phase := Running, cs_open := True, cs_arriving := replicate n d, cs_arrived := replicate n d\<rparr>"

definition draining_state :: "Delivery \<Rightarrow> nat \<Rightarrow> nat \<Rightarrow> cstate" where
  "draining_state d n k = (filled_state d (n + k))\<lparr>cs_phase := Draining, cs_cancelled := True,
     cs_arriving := replicate n d, cs_inflight := replicate k (d, DrainCtx)\<rparr>"

lemma reachable_filled: "int n \<le> sint (c_prefetchCount c) \<Longrightarrow> reachable c (filled_state d n)"
proof (induction n)
  case 0
  have "consumer_step c start_state (filled_state d 0)"
    using consumer_step.consume_starts [of start_state c] by (simp add: filled_state_def start_state_def)
  then show ?case by (rule reachable.step [OF reachable.start])
next
  case (Suc n)
  have "consumer_step c (filled_state d n) (filled_state d (Suc n))"
    using consumer_step.arrive [of "filled_state d n" c d] Suc.prems
    by (simp add: filled_state_def unsettled_def start_state_def replicate_append_same)
  then show ?case using Suc by (intro reachable.step [OF Suc.IH]) simp_all
qed

lemma reachable_draining: "int (n + k) \<le> sint (c_prefetchCount c) \<Longrightarrow> reachable c (draining_state d n k)"
proof (induction k arbitrary: n)
  case 0
  let ?s = "(filled_state d n)\<lparr>cs_cancelled := True\<rparr>"
  have 1: "consumer_step c (filled_state d n) ?s" by (rule consumer_step.cancel)
  have "consumer_step c ?s (?s\<lparr>cs_phase := Draining\<rparr>)"
    by (rule consumer_step.see_cancelled) (simp_all add: filled_state_def start_state_def)
  then have 2: "consumer_step c ?s (draining_state d n 0)"
    by (simp add: draining_state_def filled_state_def start_state_def)
  show ?case using 0 reachable.step [OF reachable.step [OF reachable_filled 1] 2] by simp
next
  case (Suc k)
  have "consumer_step c (draining_state d (Suc n) k) (draining_state d n (Suc k))"
    using consumer_step.drain_receive [of "draining_state d (Suc n) k" d "replicate n d" c]
    by (simp add: draining_state_def filled_state_def start_state_def replicate_append_same)
  then show ?case using Suc by (intro reachable.step [OF Suc.IH]) simp_all
qed

lemma drain_fills:
  assumes "0 \<le> sint (c_prefetchCount c)"
  shows "\<exists>s. reachable c s \<and> cs_cancelled s \<and> int (held DrainCtx s) = sint (c_prefetchCount c)"
proof -
  let ?n = "nat (sint (c_prefetchCount c))" and ?d = "\<lparr>d_Tag = 1, d_RoutingKey = c_queue c, d_Headers = [], d_Body = []\<rparr>"
  have "reachable c (draining_state ?d 0 ?n)" using assms by (intro reachable_draining) simp
  moreover have "cs_cancelled (draining_state ?d 0 ?n) \<and> held DrainCtx (draining_state ?d 0 ?n) = ?n"
    by (simp add: draining_state_def held_def)
  ultimately show ?thesis using assms by (intro exI [of _ "draining_state ?d 0 ?n"]) simp
qed

lemma undrained: "phase_ok s \<Longrightarrow> \<not> cs_cancelled s \<Longrightarrow> held RunCtx s = length (cs_inflight s)"
  using held_sum [of s] by (auto simp: phase_ok_def)

text \<open>C31: Take a consumer that \<open>NewConsumer\<close> returns, whatever the options: the broker took its
  prefetch count, which is no less than its concurrency, which is at least one. Over any
  number of runs, the handlers started by the receive loop, those that outlived an earlier run
  included, are never more than the concurrency; so until the context is cancelled no more
  than that many messages are processed at once. After the cancellation that does not hold:
  the drain takes no slot, and there is a reachable state in which it alone runs as many
  handlers as the prefetch count allows.\<close>

theorem Consumer_limits:
  assumes "NewConsumer qos q opts w = (Inr c, w')"
  shows "qos (c_prefetchCount c) w = (None, w')
    \<and> 1 \<le> sint (c_concurrency c) \<and> sint (c_concurrency c) \<le> sint (c_prefetchCount c)
    \<and> (\<forall>s. reachable c s \<longrightarrow>
          int (held RunCtx s + length (cs_stray s)) \<le> sint (c_concurrency c)
        \<and> (\<not> cs_cancelled s
            \<longrightarrow> int (length (cs_inflight s) + length (cs_stray s)) \<le> sint (c_concurrency c)))
    \<and> (\<exists>s. reachable c s \<and> cs_cancelled s \<and> int (held DrainCtx s) = sint (c_prefetchCount c))"
proof -
  note b = NewConsumer_bounds [OF assms]
  have "qos (c_prefetchCount c) w = (None, w')"
    using assms by (auto simp: NewConsumer_def Let_def split: prod.splits option.splits)
  moreover have loop: "int (held RunCtx s + length (cs_stray s)) \<le> sint (c_concurrency c)"
    if "reachable c s" for s
    using reachable_limits [OF that] b by (simp add: limits_def slots_taken_def)
  moreover have "int (length (cs_inflight s) + length (cs_stray s)) \<le> sint (c_concurrency c)"
    if "reachable c s" "\<not> cs_cancelled s" for s
    using undrained [OF reachable_phase_ok] loop that by fastforce
  ultimately show ?thesis using b drain_fills [of c] by auto
qed

definition zero_options :: ConsumerOptions where
  "zero_options = \<lparr>co_ConsumerTag = [], co_PrefetchCount = 0, co_ShutdownTimeout = 0, co_Concurrency = 0\<rparr>"

definition sample_consumer :: Consumer where
  "sample_consumer = \<lparr>c_queue = ''sms.high'', c_consumerTag = [], c_prefetchCount = 10,
     c_shutdownTimeout = 10 * Second, c_concurrency = 1\<rparr>"

lemma sample_consumer: "NewConsumer (\<lambda>n w. (None, w)) ''sms.high'' zero_options () = (Inr sample_consumer, ())"
  by (simp add: NewConsumer_def normalise_options_def zero_options_def sample_consumer_def Let_def)

definition sample_delivery :: Delivery where
  "sample_delivery = \<lparr>d_Tag = 1, d_RoutingKey = ''sms.high'', d_Headers = [], d_Body = []\<rparr>"

definition arrived_state :: cstate where
  "arrived_state = start_state\<lparr>cs_phase := Running, cs_open := True, cs_arriving := [sample_delivery], cs_arrived := [sample_delivery]\<rparr>"

lemma reachable_arrived: "reachable sample_consumer arrived_state"
proof -
  let ?s = "start_state\<lparr>cs_phase := Running, cs_open := True\<rparr>"
  have "consumer_step sample_consumer start_state ?s"
    by (rule consumer_step.consume_starts) (simp add: start_state_def)
  moreover have "consumer_step sample_consumer ?s
     (?s\<lparr>cs_arriving := cs_arriving ?s @ [sample_delivery], cs_arrived := cs_arrived ?s @ [sample_delivery]\<rparr>)"
    by (rule consumer_step.arrive) (simp_all add: start_state_def unsettled_def sample_consumer_def)
  ultimately show ?thesis using reachable.step [OF reachable.step [OF reachable.start]]
    by (simp add: arrived_state_def start_state_def)
qed

theorem Consumer_limits_witness:
  "((\<lambda>n w. (None, w)) :: go_int \<Rightarrow> unit \<Rightarrow> goerror option \<times> unit) (c_prefetchCount sample_consumer) () = (None, ())
    \<and> 1 \<le> sint (c_concurrency sample_consumer)
    \<and> sint (c_concurrency sample_consumer) \<le> sint (c_prefetchCount sample_consumer)
    \<and> int (held RunCtx arrived_state + length (cs_stray arrived_state)) \<le> sint (c_concurrency sample_consumer)
    \<and> int (length (cs_inflight arrived_state) + length (cs_stray arrived_state)) \<le> sint (c_concurrency sample_consumer)
    \<and> (\<exists>s. reachable sample_consumer s \<and> cs_cancelled s
         \<and> int (held DrainCtx s) = sint (c_prefetchCount sample_consumer))"
proof -
  have "\<not> cs_cancelled arrived_state" by (simp add: arrived_state_def start_state_def)
  then show ?thesis using Consumer_limits [OF sample_consumer] reachable_arrived by blast
qed

text \<open>In every reachable state, over any number of runs, each delivery the broker handed over
  is with this run, with a handler that outlived an earlier one, or dropped by the client when the
  channel closed; or the consumer settled it, exactly once, by an ack or by a nack that does not
  requeue.\<close>

theorem Consumer_settles_once:
  assumes "reachable c s"
  shows "mset (cs_arrived s) = mset (unsettled s @ cs_stray s @ cs_dropped s) + mset (map fst (cs_settled s))
    \<and> list_all (\<lambda>x. snd x = Acked \<or> snd x = Nacked False) (cs_settled s)"
  using reachable_conserved [OF assms] by (simp add: conserved_def outstanding_def list_all_iff)

theorem Consumer_settles_once_witness:
  "mset (cs_arrived arrived_state)
      = mset (unsettled arrived_state @ cs_stray arrived_state @ cs_dropped arrived_state) + mset (map fst (cs_settled arrived_state))
    \<and> list_all (\<lambda>x. snd x = Acked \<or> snd x = Nacked False) (cs_settled arrived_state)"
  by (rule Consumer_settles_once [OF reachable_arrived])

text \<open>\<open>Run\<close> can return nil while a handler it started before the cancellation is still running:
  the drain waits only for the handlers it started itself.\<close>

theorem Run_returns_before_handlers:
  "\<exists>s. reachable sample_consumer s \<and> cs_phase s = Returned None \<and> held RunCtx s = 1"
proof -
  let ?c = sample_consumer
  let ?s1 = "arrived_state\<lparr>cs_arriving := [], cs_waiting := Some sample_delivery\<rparr>"
  let ?s2 = "?s1\<lparr>cs_waiting := None, cs_inflight := cs_inflight ?s1 @ [(sample_delivery, RunCtx)]\<rparr>"
  let ?s3 = "?s2\<lparr>cs_cancelled := True\<rparr>"
  let ?s4 = "?s3\<lparr>cs_phase := Draining\<rparr>"
  let ?s5 = "?s4\<lparr>cs_phase := Waiting\<rparr>"
  let ?s6 = "?s5\<lparr>cs_phase := Returned None\<rparr>"
  note sd = arrived_state_def start_state_def sample_consumer_def held_def slots_taken_def
  have 1: "consumer_step ?c arrived_state ?s1"
    by (rule consumer_step.receive) (simp_all add: sd)
  have 2: "consumer_step ?c ?s1 ?s2"
    by (rule consumer_step.spawn) (simp_all add: sd)
  have 3: "consumer_step ?c ?s2 ?s3" by (rule consumer_step.cancel)
  have 4: "consumer_step ?c ?s3 ?s4" by (rule consumer_step.see_cancelled) (simp_all add: sd)
  have 5: "consumer_step ?c ?s4 ?s5" by (rule consumer_step.drain_timeout) (simp_all add: sd)
  have 6: "consumer_step ?c ?s5 ?s6" by (rule consumer_step.drained) (simp_all add: sd)
  have "reachable ?c ?s6"
    by (rule reachable.step [OF reachable.step [OF reachable.step [OF reachable.step [OF reachable.step
          [OF reachable.step [OF reachable_arrived 1] 2] 3] 4] 5] 6])
  moreover have "cs_phase ?s6 = Returned None \<and> held RunCtx ?s6 = 1" by (simp add: sd)
  ultimately show ?thesis by blast
qed

end
