(* ===== verification/Worker.thy ===== *)
theory Worker
  imports Consumer Deliver_Properties
begin

text \<open>
  \<open>internal/app/worker.go\<close>: the handler that turns a delivery into a call of
  \<open>DeliverUseCase.Handle\<close>, the supervisor loop around each consumer with its backoff, and
  \<open>RunWorker\<close>.
\<close>

section \<open>Headers\<close>

text \<open>A table is an association list; \<open>nil\<close> and a missing key read alike.\<close>

definition headerString :: "amqp_table \<Rightarrow> go_string \<Rightarrow> go_string" where
  "headerString h key = (case map_of h key of Some (VString v) \<Rightarrow> v | _ \<Rightarrow> [])"

definition headerInt32 :: "amqp_table \<Rightarrow> go_string \<Rightarrow> go_int32" where
  "headerInt32 h key =
     (case map_of h key of
        Some (VInt32 v) \<Rightarrow> v
      | Some (VInt64 v) \<Rightarrow> ucast v
      | Some (VInt v) \<Rightarrow> ucast v
      | Some (VUint32 v) \<Rightarrow> v
      | Some (VUint64 v) \<Rightarrow> ucast v
      | Some (VFloat64 v) \<Rightarrow> v
      | _ \<Rightarrow> 0)"

text \<open>The closure \<open>handler\<close> of \<open>RunWorker\<close>.\<close>

definition worker_handler ::
  "uuid_lib \<Rightarrow> 'w DeliverUseCase \<Rightarrow> ('w \<Rightarrow> goerror option) \<Rightarrow> Delivery \<Rightarrow> 'w \<Rightarrow> goerror option \<times> 'w" where
  "worker_handler U u ctx_Err d w =
     (let attempt = headerInt32 (d_Headers d) ''x-attempt'';
          originalRoutingKey = d_RoutingKey d
      in Handle U u ctx_Err (d_Body d) (headerString (d_Headers d) ''correlation_id'')
           (scast attempt) originalRoutingKey w)"

section \<open>Backoff\<close>

definition Millisecond :: duration where
  "Millisecond = 1000000"

text \<open>Durations are \<open>int64\<close>; the product wraps. A negative attempt shifts by more than 63 bits,
  which gives zero.\<close>

definition backoffDelay :: "go_int \<Rightarrow> duration \<Rightarrow> duration \<Rightarrow> duration" where
  "backoffDelay attempt base mx =
     (let shift = (if sint attempt > 30 then 30 else attempt);
          d = base * push_bit (unat shift) 1
      in if sint mx < sint d \<or> sint d \<le> 0 then mx else d)"

definition baseDelay :: duration where
  "baseDelay = 500 * Millisecond"

definition maxDelay :: duration where
  "maxDelay = 30 * Second"

section \<open>The supervisor\<close>

text \<open>
  One turn of the loop, as the environment decides it: what \<open>consumer.Run\<close> returned, whether
  the context was cancelled by then, and whether it was cancelled during the wait.
\<close>

record turn =
  turn_result :: "goerror option"
  turn_cancelled :: bool
  turn_wait_cancelled :: bool

datatype loop_event = Restarts go_string | Waits duration

datatype loop_end = Shutdown | Still_running

fun supervisorLoop ::
  "go_string \<Rightarrow> bool \<Rightarrow> go_int \<Rightarrow> turn list \<Rightarrow> loop_event list \<times> loop_end" where
  "supervisorLoop queueName m attempt [] = ([], Still_running)"
| "supervisorLoop queueName m attempt (t # ts) =
     (case turn_result t of
        None \<Rightarrow> ([], Shutdown)
      | Some err \<Rightarrow>
          if turn_cancelled t then ([], Shutdown)
          else
            (let delay = backoffDelay attempt baseDelay maxDelay;
                 inc = (if m then [Restarts queueName] else [])
             in if turn_wait_cancelled t then (inc @ [Waits delay], Shutdown)
                else (let (ev, e) = supervisorLoop queueName m (attempt + 1) ts
                      in (inc @ [Waits delay] @ ev, e))))"

text \<open>\<open>RunWorker\<close> runs one supervisor for each consumer, independently, and returns nil when all
  have ended. \<open>queueNameFor\<close> is the queue of the consumer, or \<open>unknown\<close> for one that has none.\<close>

definition queueNameFor :: "go_string option \<Rightarrow> go_string" where
  "queueNameFor c = (case c of Some q \<Rightarrow> q | None \<Rightarrow> ''unknown'')"

definition RunWorker ::
  "(go_string option \<times> turn list) list \<Rightarrow> bool
     \<Rightarrow> goerror + (loop_event list \<times> loop_end) list" where
  "RunWorker consumers m =
     (if consumers = [] then Inl (ErrorText ''RunWorker: no consumers provided'')
      else Inr (map (\<lambda>(c, ts). supervisorLoop (queueNameFor c) m 0 ts) consumers))"

section \<open>Backoff is bounded and doubles\<close>

lemma unat_sint:
  fixes x :: go_int
  assumes "0 \<le> sint x"
  shows "unat x = nat (sint x)"
proof -
  have "uint x = uint (word_of_int (sint x) :: go_int)" by simp
  also have "\<dots> = sint x mod 2 ^ 64" by (simp only: uint_word_of_int len_bit0 len_num1) simp
  also have "\<dots> = sint x" using assms sint_lt [of x] by simp
  finally show ?thesis by (simp add: unat_eq_nat_uint)
qed

lemma push_bit_1_word: "n < 64 \<Longrightarrow> push_bit n (1 :: 64 word) = word_of_int (2 ^ n)"
  by (simp add: push_bit_eq_mult)

lemma backoff_product:
  assumes "0 < sint base" and "sint base < 2 ^ 33" and "n \<le> 30"
  shows "sint (base * push_bit n 1 :: duration) = sint base * 2 ^ n"
proof -
  have "base * push_bit n 1 = (word_of_int (sint base * 2 ^ n) :: duration)"
    using assms(3) by (simp add: push_bit_1_word)
  then have "sint (base * push_bit n 1 :: duration) = signed_take_bit 63 (sint base * 2 ^ n)"
    by (simp only: sint_sbintrunc' len_bit0 len_num1) simp
  also have "\<dots> = sint base * 2 ^ n"
  proof (rule signed_take_bit_int_eq_self)
    have "sint base * 2 ^ n \<le> sint base * 2 ^ 30"
      using assms by (intro mult_left_mono power_increasing) auto
    also have "\<dots> < 2 ^ 33 * 2 ^ 30" using assms(2) by (intro mult_strict_right_mono) auto
    finally show "sint base * 2 ^ n < 2 ^ 63" by simp
    have "0 \<le> sint base * 2 ^ n" using assms(1) by simp
    then show "- (2 ^ 63) \<le> sint base * 2 ^ n" by (rule order_trans [rotated]) simp
  qed
  finally show ?thesis .
qed

lemma backoffDelay_min:
  assumes "0 < sint base" and "sint base < 2 ^ 33" and "0 \<le> sint attempt"
    and "sint mx \<le> sint base * 2 ^ 30"
  shows "sint (backoffDelay attempt base mx) = min (sint base * 2 ^ nat (sint attempt)) (sint mx)"
proof (cases "sint attempt > 30")
  case True
  have "sint base * 2 ^ 30 \<le> sint base * 2 ^ nat (sint attempt)"
    using assms(1) True by (intro mult_left_mono power_increasing) auto
  then have m: "min (sint base * 2 ^ nat (sint attempt)) (sint mx) = sint mx"
    using assms(4) by (simp only: min_absorb2 order_trans)
  have "sint (base * push_bit 30 1) = sint base * 2 ^ 30"
    by (rule backoff_product [OF assms(1,2)]) simp
  then show ?thesis using True assms(4) unfolding m by (auto simp: backoffDelay_def)
next
  case False
  have u: "unat attempt = nat (sint attempt)"
    by (rule unat_sint [OF assms(3)])
  have "sint (base * push_bit (unat attempt) 1) = sint base * 2 ^ unat attempt"
    using False assms(3) by (intro backoff_product [OF assms(1,2)]) (simp add: u)
  moreover have "0 < sint base * 2 ^ unat attempt" using assms(1) by simp
  ultimately show ?thesis using False by (auto simp: backoffDelay_def Let_def u)
qed

lemma backoff_production:
  assumes "0 \<le> sint attempt"
  shows "sint (backoffDelay attempt baseDelay maxDelay)
     = min (500000000 * 2 ^ nat (sint attempt)) 30000000000"
proof -
  have b: "sint baseDelay = 500000000" "sint maxDelay = 30000000000"
    by (simp_all add: baseDelay_def maxDelay_def Millisecond_def Second_def)
  show ?thesis using backoffDelay_min [of baseDelay attempt maxDelay] assms by (simp add: b)
qed

section \<open>The supervisor restarts until it is told to stop\<close>

fun waits_of :: "loop_event list \<Rightarrow> duration list" where
  "waits_of [] = []"
| "waits_of (Waits d # es) = d # waits_of es"
| "waits_of (Restarts q # es) = waits_of es"

lemma waits_of_append [simp]: "waits_of (xs @ ys) = waits_of xs @ waits_of ys"
  by (induction xs rule: waits_of.induct) auto

text \<open>A turn after which the loop goes on: the run failed while the context was active.\<close>

definition goes_on :: "turn \<Rightarrow> bool" where
  "goes_on t \<longleftrightarrow> turn_result t \<noteq> None \<and> \<not> turn_cancelled t \<and> \<not> turn_wait_cancelled t"

lemma supervisor_crashes:
  "list_all goes_on ts \<Longrightarrow> supervisorLoop q m attempt (ts @ us) =
     (let (ev, e) = supervisorLoop q m (attempt + word_of_nat (length ts)) us in
       (concat (map (\<lambda>i. (if m then [Restarts q] else [])
            @ [Waits (backoffDelay (attempt + word_of_nat i) baseDelay maxDelay)]) [0..<length ts]) @ ev, e))"
proof (induction ts arbitrary: attempt)
  case (Cons t ts)
  obtain err where t: "turn_result t = Some err" "\<not> turn_cancelled t" "\<not> turn_wait_cancelled t"
    using Cons.prems by (auto simp: goes_on_def)
  have m: "map (\<lambda>i. g (attempt + word_of_nat i)) [0..<Suc (length ts)]
      = g attempt # map (\<lambda>i. g (attempt + 1 + word_of_nat i)) [0..<length ts]" for g :: "go_int \<Rightarrow> loop_event list"
    by (simp add: upt_conv_Cons map_Suc_upt [symmetric] comp_def add.assoc del: upt_Suc)
  show ?case using Cons t m [of "\<lambda>a. (if m then [Restarts q] else []) @ [Waits (backoffDelay a baseDelay maxDelay)]"]
    by (simp add: Let_def split_beta add.assoc del: upt_Suc)
qed simp

lemma waits_of_concat: "waits_of (concat (map f xs)) = concat (map (\<lambda>x. waits_of (f x)) xs)"
  by (induction xs) simp_all

lemma sint_word_of_nat:
  assumes "n < 2 ^ 63"
  shows "sint (word_of_nat n :: go_int) = int n"
proof -
  have "(word_of_nat n :: go_int) = word_of_int (int n)" by simp
  then have "sint (word_of_nat n :: go_int) = signed_take_bit 63 (int n)"
    by (simp only: sint_sbintrunc' len_bit0 len_num1) simp
  also have "\<dots> = int n"
    using assms by (intro signed_take_bit_int_eq_self) simp_all
  finally show ?thesis .
qed

lemma supervisor_waits:
  assumes "list_all goes_on ts" and "length ts < 2 ^ 63"
  shows "supervisorLoop q True 0 ts
     = (concat (map (\<lambda>i. [Restarts q, Waits (backoffDelay (word_of_nat i) baseDelay maxDelay)]) [0..<length ts]),
        Still_running)"
  using supervisor_crashes [OF assms(1), of q True 0 "[]"] by simp

section \<open>Properties\<close>

text \<open>The supervisor's backoff after the n-th crash is exactly the smaller of 0.5 s times 2 to
  the n and 30 s, for every attempt number: the shift and the product never overflow.\<close>

theorem backoff_doubles_to_cap:
  assumes "0 \<le> sint attempt"
  shows "sint (backoffDelay attempt baseDelay maxDelay)
     = min (500000000 * 2 ^ nat (sint attempt)) 30000000000"
  by (rule backoff_production [OF assms])

theorem backoff_doubles_to_cap_witness:
  "sint (backoffDelay 5 baseDelay maxDelay) = min (500000000 * 2 ^ nat (sint (5 :: go_int))) 30000000000"
  by (rule backoff_doubles_to_cap) simp

text \<open>C34: As long as its consumer crashes and nothing is cancelled, the supervisor restarts it
  without end: after any number of crashes the loop is still running, has counted one restart
  for each and has waited the capped doubling backoffs in order.\<close>

theorem supervisor_restarts:
  assumes "list_all goes_on ts" and "length ts < 2 ^ 63"
  shows "snd (supervisorLoop q True 0 ts) = Still_running
    \<and> map sint (waits_of (fst (supervisorLoop q True 0 ts)))
        = map (\<lambda>i. min (500000000 * 2 ^ i) 30000000000) [0..<length ts]
    \<and> length (filter (\<lambda>e. e = Restarts q) (fst (supervisorLoop q True 0 ts))) = length ts"
proof -
  have w: "sint (backoffDelay (word_of_nat i) baseDelay maxDelay) = min (500000000 * 2 ^ i) 30000000000"
    if "i < length ts" for i
  proof -
    have i: "sint (word_of_nat i :: go_int) = int i"
      using that assms(2) by (intro sint_word_of_nat) simp
    show ?thesis using backoff_production [of "word_of_nat i"] by (simp add: i)
  qed
  have "length (filter (\<lambda>e. e = Restarts q)
      (concat (map (\<lambda>i. [Restarts q, Waits (backoffDelay (word_of_nat i) baseDelay maxDelay)]) [0..<n]))) = n" for n
    by (induction n) simp_all
  then show ?thesis
    unfolding supervisor_waits [OF assms]
    by (simp add: waits_of_concat w flip: map_map) (simp add: map_concat comp_def w)
qed

definition crash_turn :: turn where
  "crash_turn = \<lparr>turn_result = Some (ErrorText ''delivery channel closed''), turn_cancelled = False,
     turn_wait_cancelled = False\<rparr>"

theorem supervisor_restarts_witness:
  "snd (supervisorLoop ''sms.high'' True 0 [crash_turn, crash_turn]) = Still_running
    \<and> map sint (waits_of (fst (supervisorLoop ''sms.high'' True 0 [crash_turn, crash_turn])))
        = map (\<lambda>i. min (500000000 * 2 ^ i) 30000000000) [0..<length [crash_turn, crash_turn]]
    \<and> length (filter (\<lambda>e. e = Restarts ''sms.high'')
          (fst (supervisorLoop ''sms.high'' True 0 [crash_turn, crash_turn]))) = length [crash_turn, crash_turn]"
  by (rule supervisor_restarts) (simp_all add: goes_on_def crash_turn_def)

lemma ucast_of_sint: "(ucast (a :: go_int) :: go_int32) = word_of_int (sint a)"
  by transfer (simp add: take_bit_signed_take_bit)

lemma int32_roundtrip:
  fixes a :: go_int
  assumes "- (2 ^ 31) \<le> sint a" and "sint a < 2 ^ 31"
  shows "scast (ucast a :: go_int32) = a"
proof -
  have "sint (ucast a :: go_int32) = signed_take_bit 31 (sint a)"
    unfolding ucast_of_sint by (simp only: sint_sbintrunc' len_bit0 len_num1) simp
  also have "\<dots> = sint a" by (rule signed_take_bit_int_eq_self) (use assms in simp_all)
  finally show ?thesis by (simp only: scast_eq) simp
qed
text \<open>What the retry publisher writes into the headers the worker reads back: the attempt
  number (within 32 bits) and the correlation id.\<close>

theorem retry_headers_read_back:
  assumes "- (2 ^ 31) \<le> sint a" and "sint a < 2 ^ 31"
  shows "scast (headerInt32 (retry_headers ch a corr) ''x-attempt'') = a
    \<and> headerString (retry_headers ch a corr) ''correlation_id'' = corr"
  using int32_roundtrip [OF assms] by (simp add: headerInt32_def headerString_def retry_headers_def)

theorem retry_headers_read_back_witness:
  "scast (headerInt32 (retry_headers ''sms'' 2 ''c'') ''x-attempt'') = (2 :: go_int)
    \<and> headerString (retry_headers ''sms'' 2 ''c'') ''correlation_id'' = ''c''"
  by (rule retry_headers_read_back) simp_all

end
