(* ===== verification/Supervisor.thy ===== *)
theory Supervisor
  imports Worker
begin

text \<open>
  One queue of the worker as it runs: the loop of \<open>supervisorLoop\<close> around the runs of its consumer
  (\<open>internal/app/worker.go\<close>, \<open>internal/adapter/rabbitmq/consumer.go\<close>), the handler on the state of the
  world, and the broker's side of the queue. The loop as a function of the outcomes of the runs
  is \<open>Worker\<close>; here the outcomes are those of the consumer's steps.
\<close>

section \<open>The state\<close>

text \<open>
  \<open>sv_channel\<close> says whether the consumer's AMQP channel is open: \<open>main\<close> opens one per consumer and
  nothing opens another. \<open>sv_ready\<close> is the queue, \<open>sv_acked\<close> and \<open>sv_discarded\<close> what the broker
  removed on an ack and on a nack without requeue. \<open>sv_entered\<close> (all that was ever put into the
  queue) and \<open>sv_results\<close> (what the runs returned) only record.
\<close>

datatype sup_phase = Consuming | Sleeping | Ended

record 'w supervised =
  sv_run :: cstate
  sv_world :: 'w
  sv_phase :: sup_phase
  sv_attempt :: go_int
  sv_events :: "loop_event list"
  sv_results :: "goerror option list"
  sv_channel :: bool
  sv_ready :: "Delivery list"
  sv_acked :: "Delivery list"
  sv_discarded :: "Delivery list"
  sv_entered :: "Delivery list"

definition sup_start :: "'w \<Rightarrow> 'w supervised" where
  "sup_start w =
     \<lparr>sv_run = start_state, sv_world = w, sv_phase = Consuming, sv_attempt = 0, sv_events = [],
      sv_results = [], sv_channel = True, sv_ready = [], sv_acked = [], sv_discarded = [],
      sv_entered = []\<rparr>"

text \<open>A message keeps its content when it is delivered again; only its delivery tag is new.\<close>

definition untag :: "Delivery \<Rightarrow> Delivery" where
  "untag d = d\<lparr>d_Tag := 0\<rparr>"

text \<open>The broker obeys a settlement on an open channel; on a closed one the call fails, which the
  consumer only logs.\<close>

definition settle :: "Delivery \<Rightarrow> settlement \<Rightarrow> 'w supervised \<Rightarrow> 'w supervised" where
  "settle d k s =
     (if \<not> sv_channel s then s
      else case k of
             Acked \<Rightarrow> s\<lparr>sv_acked := sv_acked s @ [d]\<rparr>
           | Nacked True \<Rightarrow> s\<lparr>sv_ready := sv_ready s @ [d]\<rparr>
           | Nacked False \<Rightarrow> s\<lparr>sv_discarded := sv_discarded s @ [d]\<rparr>)"

definition restart_events :: "Consumer \<Rightarrow> bool \<Rightarrow> go_int \<Rightarrow> loop_event list" where
  "restart_events c m attempt =
     (if m then [Restarts (queueNameFor (Some (QueueName c)))] else [])
     @ [Waits (backoffDelay attempt baseDelay maxDelay)]"

section \<open>The steps\<close>

text \<open>
  \<open>h\<close> is the handler, which runs when its delivery is settled. \<open>ConsumeWithContext\<close> on a closed channel
  returns \<open>amqp.ErrClosed\<close>, so a delivery channel only opens while the AMQP channel is open. When it
  closes, the broker puts back what it has not seen settled.
\<close>

inductive sup_step ::
  "Consumer \<Rightarrow> bool \<Rightarrow> (Delivery \<Rightarrow> 'w \<Rightarrow> goerror option \<times> 'w) \<Rightarrow> 'w supervised \<Rightarrow> 'w supervised \<Rightarrow> bool"
  for c :: Consumer and m :: bool and h :: "Delivery \<Rightarrow> 'w \<Rightarrow> goerror option \<times> 'w" where
  enters:
    "sup_step c m h s (s\<lparr>sv_ready := sv_ready s @ [d], sv_entered := sv_entered s @ [d]\<rparr>)"
| elsewhere:
    "sup_step c m h s (s\<lparr>sv_world := w\<rparr>)"
| inside:
    "consumer_step c (sv_run s) r \<Longrightarrow> cs_arrived r = cs_arrived (sv_run s)
     \<Longrightarrow> cs_settled r = cs_settled (sv_run s) \<Longrightarrow> cs_open r \<longrightarrow> sv_channel s
     \<Longrightarrow> sup_step c m h s (s\<lparr>sv_run := r\<rparr>)"
| delivers:
    "consumer_step c (sv_run s) r \<Longrightarrow> cs_arrived r = cs_arrived (sv_run s) @ [d]
     \<Longrightarrow> sv_ready s = xs @ e # ys \<Longrightarrow> untag d = untag e
     \<Longrightarrow> sup_step c m h s (s\<lparr>sv_run := r, sv_ready := xs @ ys\<rparr>)"
| handles:
    "consumer_step c (sv_run s) r \<Longrightarrow> cs_settled r = cs_settled (sv_run s) @ [(d, processSync result)]
     \<Longrightarrow> h d (sv_world s) = (result, w)
     \<Longrightarrow> sup_step c m h s (settle d (processSync result) (s\<lparr>sv_run := r, sv_world := w\<rparr>))"
| channel_closes:
    "sv_channel s
     \<Longrightarrow> sup_step c m h s (s\<lparr>sv_channel := False, sv_run := (sv_run s)\<lparr>cs_open := False\<rparr>,
           sv_ready := sv_ready s @ outstanding (sv_run s)\<rparr>)"
| crashes:
    "sv_phase s = Consuming \<Longrightarrow> cs_phase (sv_run s) = Returned (Some e) \<Longrightarrow> \<not> cs_cancelled (sv_run s)
     \<Longrightarrow> sup_step c m h s (s\<lparr>sv_phase := Sleeping, sv_attempt := sv_attempt s + 1,
           sv_events := sv_events s @ restart_events c m (sv_attempt s),
           sv_results := sv_results s @ [Some e]\<rparr>)"
| stops:
    "sv_phase s = Consuming \<Longrightarrow> cs_phase (sv_run s) = Returned r
     \<Longrightarrow> r = None \<or> cs_cancelled (sv_run s)
     \<Longrightarrow> sup_step c m h s (s\<lparr>sv_phase := Ended, sv_results := sv_results s @ [r]\<rparr>)"
| wakes:
    "sv_phase s = Sleeping
     \<Longrightarrow> sup_step c m h s (s\<lparr>sv_phase := Consuming, sv_run := next_run (sv_run s)\<rparr>)"
| gives_up:
    "sv_phase s = Sleeping \<Longrightarrow> cs_cancelled (sv_run s) \<Longrightarrow> sup_step c m h s (s\<lparr>sv_phase := Ended\<rparr>)"

inductive_cases sup_stepE: "sup_step c m h s s'"

text \<open>The states of a supervised consumer, from those of another on.\<close>

inductive sup_reaches ::
  "Consumer \<Rightarrow> bool \<Rightarrow> (Delivery \<Rightarrow> 'w \<Rightarrow> goerror option \<times> 'w) \<Rightarrow> 'w supervised \<Rightarrow> 'w supervised \<Rightarrow> bool"
  for c :: Consumer and m :: bool and h :: "Delivery \<Rightarrow> 'w \<Rightarrow> goerror option \<times> 'w"
    and s0 :: "'w supervised" where
  here: "sup_reaches c m h s0 s0"
| step: "sup_reaches c m h s0 s \<Longrightarrow> sup_step c m h s s' \<Longrightarrow> sup_reaches c m h s0 s'"

lemma settle_fields [simp]:
  "sv_run (settle d k s) = sv_run s" "sv_world (settle d k s) = sv_world s"
  "sv_phase (settle d k s) = sv_phase s" "sv_attempt (settle d k s) = sv_attempt s"
  "sv_events (settle d k s) = sv_events s" "sv_results (settle d k s) = sv_results s"
  "sv_channel (settle d k s) = sv_channel s" "sv_entered (settle d k s) = sv_entered s"
  by (simp_all add: settle_def split: settlement.split bool.split)

section \<open>The runs inside\<close>

lemma consumer_arrivals:
  "consumer_step c r r' \<Longrightarrow> cs_settled r' \<noteq> cs_settled r \<Longrightarrow> cs_arrived r' = cs_arrived r"
  by (erule consumer_stepE) simp_all

lemma close_reachable: "reachable c r \<Longrightarrow> reachable c (r\<lparr>cs_open := False\<rparr>)"
  by (rule reachable.step [OF _ consumer_step.close])

text \<open>What the loop knows of its consumer: the run is one of the consumer's, a sleeping loop has seen
  it fail, an open delivery channel needs the AMQP channel, and only a cancellation ends the loop.\<close>

definition sup_ok :: "Consumer \<Rightarrow> 'w supervised \<Rightarrow> bool" where
  "sup_ok c s \<longleftrightarrow> reachable c (sv_run s)
     \<and> (sv_phase s = Sleeping \<longrightarrow> (\<exists>e. cs_phase (sv_run s) = Returned (Some e)))
     \<and> (cs_open (sv_run s) \<longrightarrow> sv_channel s)
     \<and> (sv_phase s = Ended \<longrightarrow> cs_cancelled (sv_run s))"

lemma returned_stays:
  "consumer_step c r r' \<Longrightarrow> cs_phase r = Returned e \<Longrightarrow> cs_phase r' = Returned e"
  by (erule consumer_stepE) simp_all

lemma cancelled_stays: "consumer_step c r r' \<Longrightarrow> cs_cancelled r \<Longrightarrow> cs_cancelled r'"
  by (erule consumer_stepE) simp_all

lemma arrival_open:
  "consumer_step c r r' \<Longrightarrow> cs_arrived r' \<noteq> cs_arrived r \<Longrightarrow> cs_open r \<and> cs_open r' = cs_open r"
  by (erule consumer_stepE) simp_all

lemma settle_open: "consumer_step c r r' \<Longrightarrow> cs_settled r' \<noteq> cs_settled r \<Longrightarrow> cs_open r' = cs_open r"
  by (erule consumer_stepE) simp_all

lemma sup_ok_run:
  assumes "sup_ok c s" and "consumer_step c (sv_run s) r" and "cs_open r \<longrightarrow> sv_channel s"
    and "sv_run s' = r" "sv_phase s' = sv_phase s" "sv_channel s' = sv_channel s"
  shows "sup_ok c s'"
  using assms returned_stays [OF assms(2)] cancelled_stays [OF assms(2)] reachable.step [OF _ assms(2)]
  unfolding sup_ok_def by metis

lemma sup_ok_step:
  assumes "sup_ok c s" and "sup_step c m h s s'"
  shows "sup_ok c s'"
  using assms(2)
proof (cases rule: sup_step.cases)
  case (inside r)
  then show ?thesis by (intro sup_ok_run [OF assms(1) inside(2,5)]) simp_all
next
  case (delivers r d xs e ys)
  have "cs_open r \<longrightarrow> sv_channel s"
    using arrival_open [OF delivers(2)] delivers(3) assms(1) by (simp add: sup_ok_def)
  then show ?thesis using delivers(1) by (intro sup_ok_run [OF assms(1) delivers(2)]) simp_all
next
  case (handles r d result w)
  have "cs_open r \<longrightarrow> sv_channel s"
    using settle_open [OF handles(2)] handles(3) assms(1) by (simp add: sup_ok_def)
  then show ?thesis using handles(1) by (intro sup_ok_run [OF assms(1) handles(2)]) simp_all
next
  case channel_closes
  then show ?thesis using assms(1) close_reachable by (auto simp: sup_ok_def)
next
  case (stops r)
  have "phase_ok (sv_run s)" using assms(1) by (intro reachable_phase_ok [of c]) (simp add: sup_ok_def)
  then have "cs_cancelled (sv_run s)" using stops by (auto simp: phase_ok_def)
  then show ?thesis using stops assms(1) by (simp add: sup_ok_def)
next
  case wakes
  then obtain e where e: "cs_phase (sv_run s) = Returned (Some e)" using assms(1) by (auto simp: sup_ok_def)
  then have "reachable c (next_run (sv_run s))" using assms(1) reachable.again by (simp add: sup_ok_def)
  then show ?thesis using wakes assms(1) by (simp add: sup_ok_def next_run_def)
qed (use assms(1) in \<open>auto simp: sup_ok_def\<close>)

lemma sup_ok_start: "sup_ok c (sup_start w)"
  by (simp add: sup_ok_def sup_start_def reachable.start)

lemma sup_reaches_ok:
  assumes "sup_reaches c m h s0 s" and "sup_ok c s0"
  shows "sup_ok c s"
  using assms(1)
proof (induction rule: sup_reaches.induct)
  case here
  show ?case by (rule assms(2))
qed (rule sup_ok_step)

section \<open>The loop refines its function\<close>

text \<open>One more turn at the end of a list of crashes.\<close>

definition turn_of :: "goerror option \<Rightarrow> bool \<Rightarrow> bool \<Rightarrow> turn" where
  "turn_of r k w = \<lparr>turn_result = r, turn_cancelled = k, turn_wait_cancelled = w\<rparr>"

lemma turn_of_simps [simp]:
  "turn_result (turn_of r k w) = r" "turn_cancelled (turn_of r k w) = k"
  "turn_wait_cancelled (turn_of r k w) = w" "goes_on (turn_of r k w) \<longleftrightarrow> r \<noteq> None \<and> \<not> k \<and> \<not> w"
  by (simp_all add: turn_of_def goes_on_def)

definition crash_events :: "Consumer \<Rightarrow> bool \<Rightarrow> nat \<Rightarrow> loop_event list" where
  "crash_events c m n = concat (map (\<lambda>i. restart_events c m (word_of_nat i)) [0..<n])"

lemma crash_events_Suc: "crash_events c m (Suc n) = crash_events c m n @ restart_events c m (word_of_nat n)"
  by (simp add: crash_events_def)

abbreviation loop_of :: "Consumer \<Rightarrow> bool \<Rightarrow> turn list \<Rightarrow> loop_event list \<times> loop_end" where
  "loop_of c m ts \<equiv> supervisorLoop (queueNameFor (Some (QueueName c))) m 0 ts"

lemma loop_of_crashes:
  assumes "list_all goes_on ts"
  shows "loop_of c m ts = (crash_events c m (length ts), Still_running)"
    and "turn_result t = None \<or> turn_cancelled t
      \<Longrightarrow> loop_of c m (ts @ [t]) = (crash_events c m (length ts), Shutdown)"
    and "turn_result t = Some e \<Longrightarrow> \<not> turn_cancelled t \<Longrightarrow> turn_wait_cancelled t
      \<Longrightarrow> loop_of c m (ts @ [t]) = (crash_events c m (Suc (length ts)), Shutdown)"
  using supervisor_crashes [OF assms, of "queueNameFor (Some (QueueName c))" m 0 "[]"]
    supervisor_crashes [OF assms, of "queueNameFor (Some (QueueName c))" m 0 "[t]"]
  by (auto simp: crash_events_def restart_events_def Let_def split: option.splits)

text \<open>Before it ends the loop has seen only crashes, and has done for each what the code does. When it
  has ended, its results are those of a list of turns that the function of the loop answers
  with the same events and \<open>Shutdown\<close>.\<close>

definition loop_state :: "Consumer \<Rightarrow> bool \<Rightarrow> 'w supervised \<Rightarrow> turn list \<Rightarrow> bool" where
  "loop_state c m s ts \<longleftrightarrow> map turn_result ts = sv_results s
     \<and> (if sv_phase s = Ended then loop_of c m ts = (sv_events s, Shutdown)
        else list_all goes_on ts \<and> sv_events s = crash_events c m (length ts)
          \<and> sv_attempt s = word_of_nat (length ts) \<and> (sv_phase s = Sleeping \<longrightarrow> ts \<noteq> []))"

lemma loop_state_cong:
  "sv_results s' = sv_results s \<Longrightarrow> sv_phase s' = sv_phase s \<Longrightarrow> sv_events s' = sv_events s
   \<Longrightarrow> sv_attempt s' = sv_attempt s \<Longrightarrow> loop_state c m s' ts = loop_state c m s ts"
  by (simp add: loop_state_def)

lemma loop_state_step:
  assumes "loop_state c m s ts" and "sup_step c m h s s'"
  shows "\<exists>ts'. loop_state c m s' ts'"
  using assms(2)
proof (cases rule: sup_step.cases)
  case (crashes e)
  have "loop_state c m s' (ts @ [turn_of (Some e) False False])"
    using assms(1) crashes by (simp add: loop_state_def crash_events_Suc)
  then show ?thesis ..
next
  case (stops r)
  have "loop_state c m s' (ts @ [turn_of r (cs_cancelled (sv_run s)) False])"
    using assms(1) stops loop_of_crashes(2) [of ts "turn_of r (cs_cancelled (sv_run s)) False"]
    by (auto simp: loop_state_def)
  then show ?thesis ..
next
  case gives_up
  then obtain us t where ts: "ts = us @ [t]" "list_all goes_on us" "goes_on t"
    using assms(1) by (cases ts rule: rev_cases) (auto simp: loop_state_def)
  then obtain e where "turn_result t = Some e" by (auto simp: goes_on_def)
  then have "loop_state c m s' (us @ [turn_of (Some e) False True])"
    using assms(1) gives_up ts loop_of_crashes(3) [OF ts(2), of "turn_of (Some e) False True" e]
    by (simp add: loop_state_def)
  then show ?thesis ..
next
  case wakes
  have "loop_state c m s' ts" using assms(1) wakes by (simp add: loop_state_def)
  then show ?thesis ..
qed (use assms(1) loop_state_cong in \<open>(intro exI [of _ ts], simp add: loop_state_def)+\<close>)

lemma sup_reaches_loop:
  assumes "sup_reaches c m h (sup_start w) s"
  shows "\<exists>ts. loop_state c m s ts"
  using assms
proof (induction rule: sup_reaches.induct)
  case here
  show ?case by (rule exI [of _ "[]"]) (simp add: loop_state_def sup_start_def crash_events_def)
qed (use loop_state_step in blast)

section \<open>What the loop has done\<close>

text \<open>The restarts counted and the delays waited after \<open>k\<close> crashes: half a second, doubled at every
  crash, and never more than half a minute.\<close>

definition restart_log :: "Consumer \<Rightarrow> bool \<Rightarrow> nat \<Rightarrow> loop_event list" where
  "restart_log c m k = concat (map (\<lambda>i. (if m then [Restarts (c_queue c)] else [])
     @ [Waits (word_of_int (min (500000000 * 2 ^ i) 30000000000))]) [0..<k])"

text \<open>The runs of a supervised consumer that ended by themselves were crashes, and each was logged. A
  loop that has not ended saw nothing else; one that has was cancelled, in the wait after the last
  crash or with a last run that returned.\<close>

definition keeps_restarting :: "Consumer \<Rightarrow> bool \<Rightarrow> 'w supervised \<Rightarrow> bool" where
  "keeps_restarting c m s \<longleftrightarrow> (\<exists>errs ending. sv_results s = map Some errs @ ending
     \<and> sv_events s = restart_log c m (length errs)
     \<and> (case sv_phase s of
          Consuming \<Rightarrow> ending = []
        | Sleeping \<Rightarrow> ending = [] \<and> errs \<noteq> []
        | Ended \<Rightarrow> cs_cancelled (sv_run s) \<and> length ending \<le> 1 \<and> (ending = [] \<longrightarrow> errs \<noteq> [])))"

definition logged :: "Consumer \<Rightarrow> bool \<Rightarrow> 'w supervised \<Rightarrow> bool" where
  "logged c m s \<longleftrightarrow> (\<exists>errs ending. sv_results s = map Some errs @ ending
     \<and> sv_events s = crash_events c m (length errs)
     \<and> (sv_phase s \<noteq> Ended \<longrightarrow> sv_attempt s = word_of_nat (length errs) \<and> ending = [])
     \<and> (sv_phase s = Sleeping \<longrightarrow> errs \<noteq> [])
     \<and> length ending \<le> 1 \<and> (sv_phase s = Ended \<longrightarrow> ending = [] \<longrightarrow> errs \<noteq> []))"

lemma logged_step:
  assumes "logged c m s" and "sup_step c m h s s'"
  shows "logged c m s'"
proof -
  obtain errs ending where l: "sv_results s = map Some errs @ ending"
    "sv_events s = crash_events c m (length errs)"
    "sv_phase s \<noteq> Ended \<longrightarrow> sv_attempt s = word_of_nat (length errs) \<and> ending = []"
    "sv_phase s = Sleeping \<longrightarrow> errs \<noteq> []" "length ending \<le> 1"
    "sv_phase s = Ended \<longrightarrow> ending = [] \<longrightarrow> errs \<noteq> []"
    using assms(1) unfolding logged_def by blast
  show ?thesis using assms(2)
  proof (cases rule: sup_step.cases)
    case (crashes e)
    then show ?thesis using l unfolding logged_def
      by (intro exI [of _ "errs @ [e]"] exI [of _ "[]"]) (simp add: crash_events_Suc)
  next
    case (stops r)
    then show ?thesis using l unfolding logged_def
      by (intro exI [of _ errs] exI [of _ "[r]"]) simp
  qed (use l in \<open>unfold logged_def, (intro exI [of _ errs] exI [of _ ending], simp)+\<close>)
qed

lemma sup_reaches_logged:
  assumes "sup_reaches c m h (sup_start w) s"
  shows "logged c m s"
  using assms
proof (induction rule: sup_reaches.induct)
  case here
  show ?case unfolding logged_def
    by (intro exI [of _ "[]"]) (simp add: sup_start_def crash_events_def)
qed (rule logged_step)

lemma crash_log:
  assumes "n < 2 ^ 63"
  shows "crash_events c m n = restart_log c m n"
proof -
  have "backoffDelay (word_of_nat i) baseDelay maxDelay = word_of_int (min (500000000 * 2 ^ i) 30000000000)"
    if "i < n" for i
  proof -
    have "sint (word_of_nat i :: go_int) = int i" using that assms by (intro sint_word_of_nat) simp
    then have delay: "sint (backoffDelay (word_of_nat i) baseDelay maxDelay) = min (500000000 * 2 ^ i) 30000000000"
      using backoff_production [of "word_of_nat i"] by simp
    from arg_cong [OF delay, of "word_of_int :: int \<Rightarrow> duration"] show ?thesis
      by (simp only: of_int_sint scast_id)
  qed
  then show ?thesis unfolding crash_events_def restart_log_def
    by (intro arg_cong [where f = concat] map_cong)
      (simp_all add: restart_events_def queueNameFor_def QueueName_def)
qed

lemma supervised_restarting:
  assumes "sup_reaches c m h (sup_start w) s" and "length (sv_results s) < 2 ^ 63"
  shows "keeps_restarting c m s"
proof -
  obtain errs ending where l: "sv_results s = map Some errs @ ending"
    "sv_events s = crash_events c m (length errs)"
    "sv_phase s \<noteq> Ended \<longrightarrow> ending = []" "sv_phase s = Sleeping \<longrightarrow> errs \<noteq> []"
    "length ending \<le> 1" "sv_phase s = Ended \<longrightarrow> ending = [] \<longrightarrow> errs \<noteq> []"
    using sup_reaches_logged [OF assms(1)] unfolding logged_def by blast
  have "length errs < 2 ^ 63" using assms(2) l(1) by simp
  then have "sv_events s = restart_log c m (length errs)" using l(2) crash_log by metis
  moreover have "sv_phase s = Ended \<longrightarrow> cs_cancelled (sv_run s)"
    using sup_reaches_ok [OF assms(1) sup_ok_start] by (simp add: sup_ok_def)
  ultimately show ?thesis using l unfolding keeps_restarting_def
    by (intro exI [of _ errs] exI [of _ ending]) (cases "sv_phase s"; simp)
qed

section \<open>The queue\<close>

text \<open>What the broker counts as unacknowledged.\<close>

definition unacked :: "'w supervised \<Rightarrow> Delivery list" where
  "unacked s = (if sv_channel s then outstanding (sv_run s) else [])"

definition in_broker :: "'w supervised \<Rightarrow> Delivery list" where
  "in_broker s = sv_ready s @ unacked s @ sv_acked s @ sv_discarded s"

definition messages :: "Delivery list \<Rightarrow> Delivery multiset" where
  "messages ds = image_mset untag (mset ds)"

lemma messages_simps [simp]:
  "messages (xs @ ys) = messages xs + messages ys"
  "messages (x # xs) = add_mset (untag x) (messages xs)" "messages [] = {#}"
  by (simp_all add: messages_def)

lemma messages_cong: "mset xs = mset ys \<Longrightarrow> messages xs = messages ys"
  by (simp add: messages_def)

lemma outstanding_step:
  assumes "reachable c r" and "consumer_step c r r'"
  shows "cs_arrived r' = cs_arrived r \<Longrightarrow> cs_settled r' = cs_settled r
      \<Longrightarrow> mset (outstanding r') = mset (outstanding r)"
    and "cs_arrived r' = cs_arrived r @ [d] \<Longrightarrow> mset (outstanding r') = add_mset d (mset (outstanding r))"
    and "cs_settled r' = cs_settled r @ [(d, k)] \<Longrightarrow> mset (outstanding r) = add_mset d (mset (outstanding r'))"
  using reachable_conserved [OF assms(1)] reachable_conserved [OF reachable.step [OF assms]]
    consumer_arrivals [OF assms(2)]
  by (cases "cs_settled r' = cs_settled r"; simp add: conserved_def)+

text \<open>A message that entered the queue is there, unacknowledged, acknowledged or discarded.\<close>

definition queue_ok :: "'w supervised \<Rightarrow> bool" where
  "queue_ok s \<longleftrightarrow> messages (sv_entered s) = messages (in_broker s)"

lemma queue_ok_step:
  assumes "queue_ok s" and "sup_ok c s" and "sup_step c m h s s'"
  shows "queue_ok s'"
  using assms(3)
proof (cases rule: sup_step.cases)
  case (inside r)
  have "messages (outstanding r) = messages (outstanding (sv_run s))"
    using assms(2) inside by (intro messages_cong outstanding_step(1)) (simp_all add: sup_ok_def)
  then show ?thesis using assms(1) inside by (simp add: queue_ok_def in_broker_def unacked_def)
next
  case (delivers r d xs e ys)
  have "messages (outstanding r) = messages (d # outstanding (sv_run s))"
    using assms(2) delivers outstanding_step(2) [of c "sv_run s" r d]
    by (intro messages_cong) (simp add: sup_ok_def)
  moreover have "sv_channel s"
    using arrival_open [OF delivers(2)] delivers(3) assms(2) by (simp add: sup_ok_def)
  ultimately show ?thesis using assms(1) delivers by (simp add: queue_ok_def in_broker_def unacked_def)
next
  case (handles r d result w)
  have "messages (outstanding (sv_run s)) = messages (d # outstanding r)"
    using assms(2) handles outstanding_step(3) [of c "sv_run s" r d "processSync result"]
    by (intro messages_cong) (simp add: sup_ok_def)
  then show ?thesis using assms(1) handles
    by (cases result) (simp_all add: queue_ok_def in_broker_def unacked_def settle_def processSync_def)
next
  case channel_closes
  then show ?thesis using assms(1) by (simp add: queue_ok_def in_broker_def unacked_def)
next
  case wakes
  have "messages (outstanding (next_run (sv_run s))) = messages (outstanding (sv_run s))"
    by (intro messages_cong) (simp add: outstanding_def unsettled_def next_run_def)
  then show ?thesis using assms(1) wakes by (simp add: queue_ok_def in_broker_def unacked_def)
qed (use assms(1) in \<open>simp_all add: queue_ok_def in_broker_def unacked_def\<close>)

text \<open>Why the broker has removed a message: a handler returned nil for it, or an error.\<close>

definition settled_ok :: "(Delivery \<Rightarrow> 'w \<Rightarrow> goerror option \<times> 'w) \<Rightarrow> 'w supervised \<Rightarrow> bool" where
  "settled_ok h s \<longleftrightarrow> list_all (\<lambda>d. \<exists>w. fst (h d w) = None) (sv_acked s)
     \<and> list_all (\<lambda>d. \<exists>w. fst (h d w) \<noteq> None) (sv_discarded s)"

lemma settled_ok_step:
  assumes "settled_ok h s" and "sup_step c m h s s'"
  shows "settled_ok h s'"
  using assms(2)
proof (cases rule: sup_step.cases)
  case (handles r d result w)
  then have "fst (h d (sv_world s)) = result" by simp
  then show ?thesis using assms(1) handles(1)
    by (cases result) (auto simp: settled_ok_def settle_def processSync_def)
qed (use assms(1) in \<open>simp_all add: settled_ok_def\<close>)

lemma sup_reaches_queue:
  assumes "sup_reaches c m h (sup_start w) s"
  shows "queue_ok s \<and> settled_ok h s"
  using assms
proof (induction rule: sup_reaches.induct)
  case here
  show ?case
    by (simp add: queue_ok_def settled_ok_def in_broker_def unacked_def sup_start_def start_state_def
        outstanding_def unsettled_def)
next
  case (step s s')
  have "sup_ok c s" by (rule sup_reaches_ok [OF step(1) sup_ok_start])
  then show ?case using queue_ok_step settled_ok_step step by blast
qed

section \<open>A closed channel\<close>

lemma closed_step:
  assumes "sup_ok c s" and "\<not> sv_channel s" and "sup_step c m h s s'"
  shows "\<not> sv_channel s' \<and> cs_arrived (sv_run s') = cs_arrived (sv_run s)
    \<and> sv_acked s' = sv_acked s \<and> sv_discarded s' = sv_discarded s"
  using assms(3)
proof (cases rule: sup_step.cases)
  case (delivers r d xs e ys)
  then show ?thesis using arrival_open [OF delivers(2)] assms(1,2) by (simp add: sup_ok_def)
next
  case (handles r d result w)
  then show ?thesis using consumer_arrivals [OF handles(2)] assms(2) by (simp add: settle_def)
qed (use assms(2) in \<open>simp_all add: next_run_def\<close>)

lemma sup_reaches_closed:
  assumes "sup_reaches c m h s s'" and "sup_ok c s" and "\<not> sv_channel s"
  shows "\<not> sv_channel s' \<and> cs_arrived (sv_run s') = cs_arrived (sv_run s)
    \<and> sv_acked s' = sv_acked s \<and> sv_discarded s' = sv_discarded s"
  using assms(1)
proof (induction rule: sup_reaches.induct)
  case (step s1 s2)
  then show ?case using closed_step [OF sup_reaches_ok [OF step(1) assms(2)] _ step(2)] by simp
qed (simp add: assms(3))

section \<open>RunWorker\<close>

text \<open>
  \<open>RunWorker\<close> starts one supervisor for each consumer. They take their steps in any order and share
  the handler and the world. A metrics registry is wired or not for all of them.
\<close>

type_synonym 'w pool = "(Consumer \<times> 'w supervised) list"

definition start_pool :: "Consumer list \<Rightarrow> 'w \<Rightarrow> 'w pool" where
  "start_pool cs w = map (\<lambda>c. (c, sup_start w)) cs"

definition set_world :: "'w \<Rightarrow> 'w supervised \<Rightarrow> 'w supervised" where
  "set_world w s = s\<lparr>sv_world := w\<rparr>"

inductive pool_reaches ::
  "bool \<Rightarrow> (Delivery \<Rightarrow> 'w \<Rightarrow> goerror option \<times> 'w) \<Rightarrow> 'w pool \<Rightarrow> 'w pool \<Rightarrow> bool"
  for m :: bool and h :: "Delivery \<Rightarrow> 'w \<Rightarrow> goerror option \<times> 'w" and p0 :: "'w pool" where
  here: "pool_reaches m h p0 p0"
| step: "pool_reaches m h p0 p \<Longrightarrow> i < length p \<Longrightarrow> p ! i = (c, s) \<Longrightarrow> sup_step c m h s s'
    \<Longrightarrow> pool_reaches m h p0 (map (\<lambda>(c, t). (c, set_world (sv_world s') t)) (p[i := (c, s')]))"

lemma set_world_reaches: "sup_reaches c m h s0 s \<Longrightarrow> sup_reaches c m h s0 (set_world w s)"
  unfolding set_world_def by (rule sup_reaches.step [OF _ sup_step.elsewhere])

text \<open>Each supervisor of a pool is one that runs alone, for the others only change the world.\<close>

lemma pool_reaches_each:
  assumes "pool_reaches m h (start_pool cs w) p"
  shows "map fst p = cs \<and> list_all (\<lambda>(c, s). sup_reaches c m h (sup_start w) s) p"
  using assms
proof (induction rule: pool_reaches.induct)
  case here
  show ?case by (auto simp: start_pool_def list_all_iff comp_def sup_reaches.here)
next
  case (step p i c s s')
  have p: "sup_reaches (fst x) m h (sup_start w) (snd x)" if "x \<in> set p" for x
    using step.IH that by (auto simp: list_all_iff)
  have c: "map fst (p[i := (c, s')]) = cs"
    using step.IH step.hyps by (metis map_update fst_conv list_update_id nth_map)
  have "sup_reaches c m h (sup_start w) s'"
    using p [of "(c, s)"] step.hyps nth_mem [of i p] by (auto intro: sup_reaches.step)
  then have "sup_reaches (fst x) m h (sup_start w) (snd x)" if "x \<in> set (p[i := (c, s')])" for x
    using that p set_update_subset_insert [of p i "(c, s')"] by auto
  then show ?case using c set_world_reaches by (force simp: list_all_iff comp_def split_beta)
qed

definition loop_end_of :: "'w supervised \<Rightarrow> loop_end" where
  "loop_end_of s = (if sv_phase s = Ended then Shutdown else Still_running)"

lemma loop_state_end:
  "loop_state c m s ts \<Longrightarrow> loop_of c m ts = (sv_events s, loop_end_of s) \<and> map turn_result ts = sv_results s"
  using loop_of_crashes(1) [of ts c m] by (auto simp: loop_state_def loop_end_of_def split: if_splits)

lemma pool_turns:
  assumes "list_all (\<lambda>(c, s). sup_reaches c m h (sup_start w) s) p"
  shows "\<exists>tss. map (\<lambda>(c, ts). loop_of c m ts) (zip (map fst p) tss) = map (\<lambda>(c, s). (sv_events s, loop_end_of s)) p
    \<and> map (map turn_result) tss = map (\<lambda>(c, s). sv_results s) p \<and> length tss = length p"
  using assms
proof (induction p)
  case (Cons x p)
  obtain c s where x: "x = (c, s)" by (cases x)
  obtain ts where "loop_of c m ts = (sv_events s, loop_end_of s)" "map turn_result ts = sv_results s"
    using Cons.prems sup_reaches_loop [of c m h w s] loop_state_end [of c m s] by (auto simp: x)
  moreover obtain tss where "map (\<lambda>(c, ts). loop_of c m ts) (zip (map fst p) tss)
      = map (\<lambda>(c, s). (sv_events s, loop_end_of s)) p"
    "map (map turn_result) tss = map (\<lambda>(c, s). sv_results s) p" "length tss = length p"
    using Cons by auto
  ultimately show ?case by (intro exI [of _ "ts # tss"]) (simp add: x)
qed simp

section \<open>Properties\<close>

subsection \<open>Sample runs\<close>

abbreviation sample_use_case :: "call list DeliverUseCase" where
  "sample_use_case \<equiv> traced (answering None) full_wiring"

definition sample_handler :: "Delivery \<Rightarrow> call list \<Rightarrow> goerror option \<times> call list" where
  "sample_handler = worker_handler binary_uuid sample_use_case (\<lambda>w. None)"

text \<open>A message enters the queue, is delivered and handled.\<close>

definition busy_run :: cstate where
  "busy_run = arrived_state\<lparr>cs_arriving := [], cs_inflight := [(sample_delivery, RunCtx)]\<rparr>"

definition busy_state :: "call list supervised" where
  "busy_state = (sup_start [])\<lparr>sv_run := busy_run, sv_entered := [sample_delivery]\<rparr>"

definition handled_state :: "call list supervised" where
  "handled_state = settle sample_delivery (processSync (fst (sample_handler sample_delivery [])))
     (busy_state\<lparr>sv_run := busy_run\<lparr>cs_inflight := [], cs_settled := [(sample_delivery,
        processSync (fst (sample_handler sample_delivery [])))]\<rparr>,
        sv_world := snd (sample_handler sample_delivery [])\<rparr>)"

definition handled_pool :: "call list pool" where
  "handled_pool = [(sample_consumer, handled_state)]"

lemma busy_reached: "sup_reaches sample_consumer m h (sup_start []) busy_state"
proof -
  let ?c = sample_consumer and ?d = sample_delivery
  note defs = sup_start_def start_state_def arrived_state_def busy_run_def busy_state_def sample_consumer_def
    unsettled_def slots_taken_def held_def
  let ?s1 = "(sup_start [])\<lparr>sv_ready := [?d], sv_entered := [?d]\<rparr>"
  let ?s2 = "?s1\<lparr>sv_run := start_state\<lparr>cs_phase := Running, cs_open := True\<rparr>\<rparr>"
  let ?s3 = "?s2\<lparr>sv_run := arrived_state, sv_ready := []\<rparr>"
  let ?s4 = "?s3\<lparr>sv_run := arrived_state\<lparr>cs_arriving := [], cs_waiting := Some ?d\<rparr>\<rparr>"
  have 1: "sup_step ?c m h (sup_start []) ?s1"
    using sup_step.enters [of ?c m h "sup_start []" ?d] by (simp add: sup_start_def)
  have 2: "sup_step ?c m h ?s1 ?s2"
    by (rule sup_step.inside) (use consumer_step.consume_starts [of start_state ?c] in \<open>simp_all add: defs\<close>)
  have 3: "sup_step ?c m h ?s2 ?s3"
    using sup_step.delivers [of ?c ?s2 arrived_state ?d "[]" ?d "[]" m h]
      consumer_step.arrive [of "sv_run ?s2" ?c ?d] by (simp add: defs)
  have 4: "sup_step ?c m h ?s3 ?s4"
    by (rule sup_step.inside) (use consumer_step.receive [of arrived_state ?d "[]" ?c] in \<open>simp_all add: defs\<close>)
  have 5: "sup_step ?c m h ?s4 busy_state"
    using sup_step.inside [of ?c ?s4 busy_run m h] consumer_step.spawn [of "sv_run ?s4" ?d ?c] by (simp add: defs)
  show ?thesis
    by (rule sup_reaches.step [OF sup_reaches.step [OF sup_reaches.step [OF sup_reaches.step
          [OF sup_reaches.step [OF sup_reaches.here 1] 2] 3] 4] 5])
qed

lemma handled_reached: "sup_reaches sample_consumer m sample_handler (sup_start []) handled_state"
proof -
  let ?r = "fst (sample_handler sample_delivery [])" and ?w = "snd (sample_handler sample_delivery [])"
  have f: "consumer_step sample_consumer busy_run (busy_run\<lparr>cs_inflight := [] @ [],
      cs_settled := cs_settled busy_run @ [(sample_delivery, processSync ?r)]\<rparr>)"
    by (rule consumer_step.finish [where k = RunCtx]) (simp add: busy_run_def)
  have "sup_step sample_consumer m sample_handler busy_state handled_state"
    unfolding handled_state_def
    by (rule sup_step.handles)
      (use f in \<open>simp_all add: busy_state_def busy_run_def sup_start_def arrived_state_def start_state_def\<close>)
  then show ?thesis by (rule sup_reaches.step [OF busy_reached])
qed

lemma alone_pool:
  assumes "sup_reaches c m h (sup_start w) s"
  shows "pool_reaches m h (start_pool [c] w) [(c, s)]"
  using assms
proof (induction rule: sup_reaches.induct)
  case here
  show ?case using pool_reaches.here [of m h "start_pool [c] w"] by (simp add: start_pool_def)
next
  case (step s s')
  have "set_world (sv_world s') s' = s'" by (simp add: set_world_def)
  then show ?case using pool_reaches.step [OF step.IH, of 0 c s s'] step.hyps by simp
qed

lemmas handled_pool_reached = alone_pool [OF handled_reached, folded handled_pool_def]

text \<open>The AMQP channel closes before the consumer starts, so its run fails and the loop waits.\<close>

definition failed_run :: cstate where
  "failed_run = start_state\<lparr>cs_phase :=
     Returned (Some (ErrorWrap (''start consume on '' @ c_queue sample_consumer @ '': '') (ErrorText ''closed'') []))\<rparr>"

definition closed_state :: "call list supervised" where
  "closed_state = (sup_start [])\<lparr>sv_channel := False, sv_run := failed_run\<rparr>"

definition waiting_state :: "call list supervised" where
  "waiting_state = closed_state\<lparr>sv_phase := Sleeping, sv_attempt := 1,
     sv_events := restart_events sample_consumer True 0,
     sv_results := [Some (ErrorWrap (''start consume on '' @ c_queue sample_consumer @ '': '') (ErrorText ''closed'') [])]\<rparr>"

lemma closed_reached: "sup_reaches sample_consumer m h (sup_start []) closed_state"
proof -
  let ?s = "(sup_start [])\<lparr>sv_channel := False\<rparr>"
  have 1: "sup_step sample_consumer m h (sup_start []) ?s"
    using sup_step.channel_closes [of "sup_start []" sample_consumer m h]
    by (simp add: sup_start_def start_state_def outstanding_def unsettled_def)
  have "consumer_step sample_consumer start_state failed_run"
    unfolding failed_run_def by (rule consumer_step.consume_fails) (simp add: start_state_def)
  then have 2: "sup_step sample_consumer m h ?s closed_state"
    using sup_step.inside [of sample_consumer ?s failed_run m h]
    by (simp add: closed_state_def sup_start_def failed_run_def start_state_def)
  show ?thesis by (rule sup_reaches.step [OF sup_reaches.step [OF sup_reaches.here 1] 2])
qed

lemma waiting_step: "sup_step sample_consumer True h closed_state waiting_state"
  using sup_step.crashes [of closed_state _ sample_consumer True h]
  by (simp add: waiting_state_def closed_state_def failed_run_def start_state_def sup_start_def)

lemmas waiting_reached = sup_reaches.step [OF closed_reached waiting_step]

text \<open>The supervisors of a pool, whatever their consumers, handlers, broker and cancellation do and
  in whatever order, have at any moment counted the restarts, waited the delays and ended or not
  exactly as \<open>RunWorker\<close> computes from the results their consumers' runs have returned.\<close>

theorem pool_refines_RunWorker:
  assumes "pool_reaches m (worker_handler U u ctx) (start_pool cs w) p" and "cs \<noteq> []"
  shows "\<exists>tss. RunWorker (zip (map (\<lambda>c. Some (QueueName c)) cs) tss) m
        = Inr (map (\<lambda>(c, s). (sv_events s, loop_end_of s)) p)
      \<and> map (map turn_result) tss = map (\<lambda>(c, s). sv_results s) p"
proof -
  note each = pool_reaches_each [OF assms(1)]
  obtain tss where t: "map (\<lambda>(c, ts). loop_of c m ts) (zip cs tss) = map (\<lambda>(c, s). (sv_events s, loop_end_of s)) p"
    "map (map turn_result) tss = map (\<lambda>(c, s). sv_results s) p" "length tss = length p"
    using pool_turns [OF conjunct2 [OF each]] unfolding conjunct1 [OF each] by blast
  moreover have "length cs = length p" using each by (metis length_map)
  moreover have "zip (map f cs) tss = map (\<lambda>(c, ts). (f c, ts)) (zip cs tss)" for f :: "Consumer \<Rightarrow> go_string option"
    by (simp add: zip_map1)
  ultimately show ?thesis using assms(2)
    by (intro exI [of _ tss]) (auto simp: RunWorker_def comp_def case_prod_unfold)
qed

theorem pool_refines_RunWorker_witness:
  "\<exists>tss. RunWorker (zip (map (\<lambda>c. Some (QueueName c)) [sample_consumer]) tss) True
        = Inr (map (\<lambda>(c, s). (sv_events s, loop_end_of s)) [(sample_consumer, waiting_state)])
      \<and> map (map turn_result) tss = map (\<lambda>(c, s). sv_results s) [(sample_consumer, waiting_state)]"
  by (rule pool_refines_RunWorker [OF alone_pool [OF waiting_reached]]) simp

text \<open>C32: In every reachable state of a pool of supervisors, whatever their consumers, handlers,
  broker and cancellation do and in whatever order, each supervisor has answered every crash of
  its consumer with one restart: it has counted it under the consumer's queue if metrics are
  wired, and waited half a second after the first crash, twice as long after each further one
  and half a minute at most. It has ended only if its context was cancelled: during such a wait,
  or with the run that returned last; and no run before the last returned nil.\<close>

theorem supervisors_keep_restarting:
  assumes "pool_reaches m (worker_handler U u ctx) (start_pool cs w) p"
    and "list_all (\<lambda>(c, s). length (sv_results s) < 2 ^ 63) p"
  shows "map fst p = cs \<and> list_all (\<lambda>(c, s). keeps_restarting c m s) p"
proof -
  have "list_all (\<lambda>(c, s). sup_reaches c m (worker_handler U u ctx) (sup_start w) s) p"
    and fst: "map fst p = cs"
    using pool_reaches_each [OF assms(1)] by auto
  then have "\<forall>(c, s) \<in> set p. keeps_restarting c m s"
    using assms(2) supervised_restarting by (fastforce simp: list_all_iff)
  then show ?thesis using fst by (simp add: list_all_iff)
qed

theorem supervisors_keep_restarting_witness:
  "map fst [(sample_consumer, waiting_state)] = [sample_consumer]
    \<and> list_all (\<lambda>(c, s). keeps_restarting c True s) [(sample_consumer, waiting_state)]"
  by (rule supervisors_keep_restarting [OF alone_pool [OF waiting_reached]])
    (simp add: waiting_state_def)

text \<open>C8: No message is lost between the broker and the handlers: whatever fails, crashes or is
  restarted, each message that ever entered a work queue is waiting there, or unacknowledged and
  put back when the channel closes, or was acknowledged after its handler returned nil, or
  discarded after its handler returned an error.\<close>

theorem worker_queues_account:
  assumes "pool_reaches m (worker_handler U u ctx) (start_pool cs w) p"
  shows "list_all (\<lambda>(c, s).
      messages (sv_entered s)
        = messages (sv_ready s) + messages (unacked s) + messages (sv_acked s) + messages (sv_discarded s)
    \<and> list_all (\<lambda>d. \<exists>w. fst (worker_handler U u ctx d w) = None) (sv_acked s)
    \<and> list_all (\<lambda>d. \<exists>w. fst (worker_handler U u ctx d w) \<noteq> None) (sv_discarded s)) p"
proof (rule list.pred_mono_strong [OF conjunct2 [OF pool_reaches_each [OF assms]]])
  fix x :: "Consumer \<times> 'a supervised"
  assume "case x of (c, s) \<Rightarrow> sup_reaches c m (worker_handler U u ctx) (sup_start w) s"
  then show "case x of (c, s) \<Rightarrow>
      messages (sv_entered s)
        = messages (sv_ready s) + messages (unacked s) + messages (sv_acked s) + messages (sv_discarded s)
    \<and> list_all (\<lambda>d. \<exists>w. fst (worker_handler U u ctx d w) = None) (sv_acked s)
    \<and> list_all (\<lambda>d. \<exists>w. fst (worker_handler U u ctx d w) \<noteq> None) (sv_discarded s)"
    using sup_reaches_queue [of "fst x" m "worker_handler U u ctx" w "snd x"]
    by (cases x) (simp add: queue_ok_def settled_ok_def in_broker_def add.assoc)
qed

theorem worker_queues_account_witness:
  "list_all (\<lambda>(c, s).
      messages (sv_entered s)
        = messages (sv_ready s) + messages (unacked s) + messages (sv_acked s) + messages (sv_discarded s)
    \<and> list_all (\<lambda>d. \<exists>w. fst (sample_handler d w) = None) (sv_acked s)
    \<and> list_all (\<lambda>d. \<exists>w. fst (sample_handler d w) \<noteq> None) (sv_discarded s)) handled_pool"
  by (rule worker_queues_account [OF handled_pool_reached [unfolded sample_handler_def], folded sample_handler_def])

text \<open>C33: When the AMQP channel of a consumer closes, its supervisor goes on until it is cancelled but
  nothing is ever delivered to the consumer again and nothing it settles counts: each restart
  runs the same consumer on the same channel.\<close>

theorem closed_channel_is_final:
  assumes "sup_reaches c m (worker_handler U u ctx) (sup_start w) s" and "\<not> sv_channel s"
    and "sup_reaches c m (worker_handler U u ctx) s s'"
  shows "cs_arrived (sv_run s') = cs_arrived (sv_run s) \<and> sv_acked s' = sv_acked s
    \<and> sv_discarded s' = sv_discarded s \<and> \<not> (sv_phase s' = Ended \<and> \<not> cs_cancelled (sv_run s'))"
proof -
  have ok: "sup_ok c s" by (rule sup_reaches_ok [OF assms(1) sup_ok_start])
  then show ?thesis using sup_reaches_closed [OF assms(3) ok assms(2)] sup_reaches_ok [OF assms(3) ok]
    by (auto simp: sup_ok_def)
qed

theorem closed_channel_is_final_witness:
  "cs_arrived (sv_run waiting_state) = cs_arrived (sv_run closed_state)
    \<and> sv_acked waiting_state = sv_acked closed_state
    \<and> sv_discarded waiting_state = sv_discarded closed_state
    \<and> \<not> (sv_phase waiting_state = Ended \<and> \<not> cs_cancelled (sv_run waiting_state))"
proof -
  have "\<not> sv_channel closed_state" by (simp add: closed_state_def)
  then show ?thesis
    by (rule closed_channel_is_final [OF closed_reached _ sup_reaches.step [OF sup_reaches.here waiting_step]])
qed

end
