(* ===== verification/Journey.thy ===== *)
theory Journey
  imports Worker Rabbitmq_Properties
begin

text \<open>
  The life of one message in the worker: runs of \<open>DeliverUseCase.Handle\<close> joined by the retry
  queues of the topology. A message published to the retry exchange waits in the queue its key
  is routed to; when its time-to-live is over the broker delivers it again under the
  dead-letter key of that queue, with the headers it was published with.
\<close>

section \<open>Redelivery through the topology\<close>

text \<open>The key under which a message published to the retry exchange comes back.\<close>

definition redelivery_key :: "(go_string \<Rightarrow> go_string \<Rightarrow> bool) \<Rightarrow> go_string \<Rightarrow> go_string option" where
  "redelivery_key matches k =
     (case routed_to matches ProductionTopology ExchangeRetry k of
        [q] \<Rightarrow> (case queue_args ProductionTopology q of
                  [args] \<Rightarrow> (case map_of args ''x-dead-letter-routing-key'' of
                             Some (VString k') \<Rightarrow> Some k' | _ \<Rightarrow> None)
                | _ \<Rightarrow> None)
      | _ \<Rightarrow> None)"

text \<open>The key \<open>PublishRetry\<close> publishes under.\<close>

definition publish_retry_key :: "go_string \<Rightarrow> go_string \<Rightarrow> go_int \<Rightarrow> go_string" where
  "publish_retry_key channel priority level = channel @ ''.'' @ priority @ ''.retry.'' @ Itoa (sint level)"

lemma redelivery_same_queue:
  assumes "topic_literal matches" and "Channel_Valid ch" and "Priority_Valid p"
    and "1 \<le> sint level" and "sint level \<le> 3"
  shows "redelivery_key matches (publish_retry_key ch p level) = Some (ch @ ''.'' @ p)"
proof -
  have c: "ch \<in> set topo_channels" and p: "p \<in> set topo_priorities"
    using assms(2,3) by (simp_all add: channel_mem priority_mem)
  have l: "sint level = 1 \<or> sint level = 2 \<or> sint level = 3" using assms(4,5) by auto
  have k: "publish_retry_key ch p level = retry_routing_key ch p (sint level)"
    by (simp add: publish_retry_key_def retry_routing_key_def)
  have r: "routed_to matches ProductionTopology ExchangeRetry (retry_routing_key ch p (sint level))
      = [RetryQueueName ProductionTopology ch p (sint level)]"
    using retry_routes c p l unfolding production_routes [OF assms(1)] list_all_iff by auto
  have "\<exists>ms. queue_args ProductionTopology (RetryQueueName ProductionTopology ch p (sint level))
      = [[(''x-message-ttl'', VInt32 ms),
             (''x-dead-letter-exchange'', VString ExchangeNotifications),
             (''x-dead-letter-routing-key'', VString (ch @ ''.'' @ p))]]"
    using retry_queue_args c p l unfolding list_all_iff by auto
  then show ?thesis by (auto simp: redelivery_key_def k r)
qed

section \<open>The journey\<close>

text \<open>
  Stage \<open>i\<close> of a journey runs against the environment \<open>E i\<close>; \<open>x\<close> is the \<open>x-attempt\<close> header of
  the delivery and \<open>key\<close> its routing key. The journey goes on with the message its run sent to
  the retry exchange, whether or not the publisher was told that the broker took it.
\<close>

fun retry_call_of :: "call list \<Rightarrow> (go_string \<times> go_string \<times> go_int \<times> go_int) option" where
  "retry_call_of [] = None"
| "retry_call_of (CRetry ch p level a corr body # h) = Some (ch, p, level, a)"
| "retry_call_of (c # h) = retry_call_of h"

fun journey ::
  "(go_string \<Rightarrow> go_string \<Rightarrow> bool) \<Rightarrow> uuid_lib \<Rightarrow> (nat \<Rightarrow> env) \<Rightarrow> wiring \<Rightarrow> go_string \<Rightarrow> go_string
     \<Rightarrow> nat \<Rightarrow> nat \<Rightarrow> go_int32 \<Rightarrow> go_string \<Rightarrow> (goerror option \<times> call list) list" where
  "journey matches U E W body corr 0 i x key = []"
| "journey matches U E W body corr (Suc n) i x key =
     (let rh = run U (E i) W body corr (scast x) key
      in rh # (case retry_call_of (snd rh) of
                 None \<Rightarrow> []
               | Some (ch, p, level, a) \<Rightarrow>
                   (case redelivery_key matches (publish_retry_key ch p level) of
                      None \<Rightarrow> []
                    | Some key' \<Rightarrow>
                        journey matches U E W body corr n (i + 1)
                          (headerInt32 (retry_headers ch a corr) ''x-attempt'') key')))"

lemma retry_call_of_None: "filter is_publish h = [] \<Longrightarrow> retry_call_of h = None"
  by (induction h rule: retry_call_of.induct) auto

lemma retry_call_of_filter: "retry_call_of h = retry_call_of (filter is_publish h)"
  by (induction h rule: retry_call_of.induct) auto

text \<open>A stage below the bound either ends the journey or sends the message to the next level.\<close>

lemma stage_retry:
  fixes x :: go_int32
  assumes "Unmarshal U body = Some m" and "0 \<le> sint x"
    and "retry_call_of (snd (run U E W body corr (scast x) key)) = Some (ch, p, level, a)"
  shows "ch = m_Channel m \<and> p = resolvePriority key (m_Priority m) \<and> level = scast x + 1 \<and> a = scast x + 1
    \<and> sint x < 3"
proof -
  obtain v where v: "realises E W body corr (scast x) key m v (run U E W body corr (scast x) key)"
    using run_verdict [OF assms(1)] by blast
  have "retry_call_of (publish_of body corr (scast x) key m v) = Some (ch, p, level, a)"
    using assms(3) retry_call_of_filter realises_publishes [OF v] by metis
  moreover have "verdict_possible W (scast x) v" using v by (simp add: realises_def)
  ultimately show ?thesis
    by (cases v) (auto simp: publish_of_def retry_call_def dlq_call_def sint_succ_int32)
qed

lemma stage_end:
  fixes x :: go_int32
  assumes "Unmarshal U body = Some m" and "3 \<le> sint x"
  shows "retry_call_of (snd (run U E W body corr (scast x) key)) = None"
  using stage_retry [OF assms(1), of x E W corr key] assms(2)
  by (cases "retry_call_of (snd (run U E W body corr (scast x) key))") force+

lemma attempt_header:
  fixes x :: go_int32
  assumes "0 \<le> sint x" and "sint x < 3"
  shows "sint (headerInt32 (retry_headers ch (scast x + 1) corr) ''x-attempt'') = sint x + 1"
proof -
  have "sint (scast x + 1 :: go_int) = sint x + 1" by (rule sint_succ_int32)
  then have "scast (headerInt32 (retry_headers ch (scast x + 1) corr) ''x-attempt'') = (scast x + 1 :: go_int)"
    using assms int32_roundtrip [of "scast x + 1"]
    by (simp add: headerInt32_def retry_headers_def)
  then have "sint (scast (headerInt32 (retry_headers ch (scast x + 1) corr) ''x-attempt'') :: go_int)
      = sint x + 1" using sint_succ_int32 [of x] by simp
  then show ?thesis by (simp add: sint_up_scast is_up)
qed

lemma journey_bound:
  assumes "Unmarshal U body = Some m" and "0 \<le> sint x" and "sint x \<le> 3"
  shows "length (journey matches U E W body corr n i x key) \<le> nat (4 - sint x)"
  using assms(2,3)
proof (induction n arbitrary: i x key)
  case (Suc n)
  show ?case
  proof (cases "retry_call_of (snd (run U (E i) W body corr (scast x) key))")
    case None
    then show ?thesis using Suc.prems by (simp add: Let_def)
  next
    case (Some r)
    obtain ch p level a where r: "r = (ch, p, level, a)" by (cases r)
    note s = stage_retry [OF assms(1) Suc.prems(1) Some [unfolded r]]
    let ?x = "headerInt32 (retry_headers ch a corr) ''x-attempt''"
    have x: "sint ?x = sint x + 1" using attempt_header [OF Suc.prems(1)] s by simp
    have "length (journey matches U E W body corr n (i + 1) ?x key') \<le> nat (4 - (sint x + 1))" for key'
      using Suc.IH [of ?x "i + 1" key'] x s Suc.prems by simp
    moreover have "nat (4 - sint x) = Suc (nat (4 - (sint x + 1)))" using s
      by (simp add: Suc_nat_eq_nat_zadd1)
    ultimately show ?thesis using Some r s by (simp add: Let_def split: option.split)
  qed
qed simp

text \<open>A run in which the provider accepted the notification publishes nothing, so it ends the
  journey.\<close>

definition delivers :: "env \<Rightarrow> NotificationMessage \<Rightarrow> goerror option \<times> call list \<Rightarrow> bool" where
  "delivers E m rh \<longleftrightarrow> answered E (snd rh) (CSend (ToNotification m)) None"

lemma delivers_ends:
  assumes "Unmarshal U body = Some m" and "delivers E m (run U E W body corr a key)"
  shows "retry_call_of (snd (run U E W body corr a key)) = None"
proof -
  have "filter is_publish (snd (run U E W body corr a key)) = []"
    using run_once [OF assms(1), of E W corr a key] assms(2) by (simp add: delivers_def Let_def)
  then show ?thesis by (rule retry_call_of_None)
qed

lemma journey_delivers_last:
  assumes "Unmarshal U body = Some m" and "j < length (journey matches U E W body corr n i x key)"
    and "delivers (E (i + j)) m (journey matches U E W body corr n i x key ! j)"
  shows "Suc j = length (journey matches U E W body corr n i x key)"
  using assms(2,3)
proof (induction n arbitrary: i j x key)
  case (Suc n)
  let ?rh = "run U (E i) W body corr (scast x) key"
  let ?rest = "case retry_call_of (snd ?rh) of None \<Rightarrow> []
       | Some (ch, p, level, a) \<Rightarrow>
           (case redelivery_key matches (publish_retry_key ch p level) of None \<Rightarrow> []
            | Some key' \<Rightarrow> journey matches U E W body corr n (i + 1)
                  (headerInt32 (retry_headers ch a corr) ''x-attempt'') key')"
  have j: "journey matches U E W body corr (Suc n) i x key = ?rh # ?rest" by (simp add: Let_def)
  show ?case
  proof (cases j)
    case 0
    then have "delivers (E i) m ?rh" using Suc.prems unfolding j by simp
    then have "retry_call_of (snd ?rh) = None" by (rule delivers_ends [OF assms(1)])
    then show ?thesis unfolding j using 0 by simp
  next
    case (Suc k)
    then have k: "k < length ?rest" "delivers (E (i + 1 + k)) m (?rest ! k)"
      using Suc.prems unfolding j by simp_all
    then have "Suc k = length ?rest"
      using Suc.IH [of k "i + 1"] by (auto split: option.splits prod.splits)
    then show ?thesis unfolding j using Suc by simp
  qed
qed simp

section \<open>A provider that never recovers\<close>

text \<open>The provider refuses every call, while the broker confirms every publication, the dedup
  store answers and nothing is cancelled.\<close>

definition hopeless :: "env \<Rightarrow> goerror \<Rightarrow> bool" where
  "hopeless E e \<longleftrightarrow> (\<forall>h n. ans_err E (h @ [CSend n]) = Some e)
     \<and> (\<forall>h c. is_publish c \<longrightarrow> ans_err E (h @ [c]) = None)
     \<and> (\<forall>h. ans_mark E h = Inr True) \<and> (\<forall>h. ans_ctx E h = None)"

lemma hopeless_answers:
  assumes "hopeless E e"
  shows "answered E h (CSend n) r \<Longrightarrow> r = Some e"
    and "is_publish c \<Longrightarrow> answered E h c r \<Longrightarrow> r = None"
    and "mark_answered E h i b \<Longrightarrow> b = Inr True"
    and "\<not> interrupted E h"
  using assms by (auto simp: hopeless_def answered_def mark_answered_def interrupted_def)

lemma hopeless_verdict:
  assumes "hopeless E e" and "has_retry W" and "realises E W body corr a key m v rh"
  shows "v = (if sint (a + 1) \<le> 3 then Retry_published else Dead_lettered)"
proof -
  have p: "verdict_possible W a v" and ev: "verdict_evidence E (snd rh) body corr a key m v"
    using assms(3) by (simp_all add: realises_def)
  note ans = hopeless_answers [OF assms(1)]
  show ?thesis using p ev assms(2)
    by (cases v) (auto dest: ans(1) ans(3) ans(2) [rotated] simp: ans(4))
qed

lemma hopeless_stage:
  fixes x :: go_int32
  assumes "Unmarshal U body = Some m" and "hopeless E e" and "has_retry W" and "0 \<le> sint x"
  shows "fst (run U E W body corr (scast x) key) = None"
    and "filter is_publish (snd (run U E W body corr (scast x) key))
      = (if sint x < 3 then [retry_call body corr (scast x) key m] else [dlq_call body corr (scast x) key m])"
proof -
  let ?rh = "run U E W body corr (scast x) key"
  obtain v where v: "realises E W body corr (scast x) key m v ?rh" using run_verdict [OF assms(1)] by blast
  have vv: "v = (if sint x < 3 then Retry_published else Dead_lettered)"
    using hopeless_verdict [OF assms(2,3) v] by (simp add: sint_succ_int32)
  show "fst ?rh = None" using v vv by (auto simp: realises_def)
  show "filter is_publish (snd ?rh)
      = (if sint x < 3 then [retry_call body corr (scast x) key m] else [dlq_call body corr (scast x) key m])"
    using realises_publishes [OF v] vv by (simp add: publish_of_def)
qed

lemma hopeless_step:
  fixes x :: go_int32
  assumes "Unmarshal U body = Some m" and "hopeless (E i) e" and "has_retry W"
    and "topic_literal matches" and "Channel_Valid (m_Channel m)" and "0 \<le> sint x" and "sint x < 3"
  shows "journey matches U E W body corr (Suc n) i x key
    = run U (E i) W body corr (scast x) key
      # journey matches U E W body corr n (i + 1)
          (headerInt32 (retry_headers (m_Channel m) (scast x + 1) corr) ''x-attempt'')
          (m_Channel m @ ''.'' @ resolvePriority key (m_Priority m))"
proof -
  have "retry_call_of (snd (run U (E i) W body corr (scast x) key))
      = Some (m_Channel m, resolvePriority key (m_Priority m), scast x + 1, scast x + 1)"
    using hopeless_stage(2) [OF assms(1-3,6), of corr key] assms(7)
    by (subst retry_call_of_filter) (simp add: retry_call_def)
  moreover have "redelivery_key matches
      (publish_retry_key (m_Channel m) (resolvePriority key (m_Priority m)) (scast x + 1))
      = Some (m_Channel m @ ''.'' @ resolvePriority key (m_Priority m))"
    using assms(6,7) by (intro redelivery_same_queue [OF assms(4,5) resolvePriority_valid])
      (simp_all add: sint_succ_int32)
  ultimately show ?thesis by (simp add: Let_def)
qed

lemma hopeless_last:
  fixes x :: go_int32
  assumes "Unmarshal U body = Some m" and "hopeless (E i) e" and "has_retry W" and "3 \<le> sint x"
  shows "journey matches U E W body corr (Suc n) i x key = [run U (E i) W body corr (scast x) key]"
  using stage_end [OF assms(1,4)] by (simp add: Let_def)

lemma resolve_redelivered:
  assumes "Channel_Valid ch"
  shows "resolvePriority (ch @ ''.'' @ resolvePriority key p) q = resolvePriority key p"
proof -
  have "priorityFromRoutingKey (ch @ ''.'' @ resolvePriority key p) = resolvePriority key p"
    by (rule priorityFromRoutingKey_two [OF no_dot_channel [OF assms] resolvePriority_valid])
  moreover have "resolvePriority key p \<noteq> []"
    using resolvePriority_valid [of key p] by (auto simp: Priority_Valid_iff)
  ultimately show ?thesis by (simp add: resolvePriority_def)
qed

lemma journey_stage:
  "rh \<in> set (journey matches U E W body corr n i x key) \<Longrightarrow> \<exists>j y k. rh = run U (E j) W body corr y k"
proof (induction n arbitrary: i x key)
  case (Suc n)
  then show ?case by (auto simp: Let_def split: option.splits prod.splits)
qed simp

lemma journey_sends:
  assumes "Unmarshal U body = Some m"
  shows "length (filter is_send (concat (map snd (journey matches U E W body corr n i x key))))
     \<le> length (journey matches U E W body corr n i x key)"
proof -
  have "length (filter is_send (snd rh)) \<le> 1" if "rh \<in> set (journey matches U E W body corr n i x key)" for rh
    using journey_stage [OF that] run_once [OF assms] by (auto simp: Let_def)
  then have "length (filter is_send (concat (map snd js))) \<le> length js"
    if "set js \<subseteq> set (journey matches U E W body corr n i x key)" for js
    using that by (induction js) force+
  then show ?thesis by blast
qed

lemma journey_hopeless:
  fixes key :: go_string
  assumes "Unmarshal U body = Some m" and "has_retry W" and "topic_literal matches"
    and "Channel_Valid (m_Channel m)" and "\<And>i. hopeless (E i) (e i)"
  defines "p \<equiv> resolvePriority key (m_Priority m)"
  defines "k \<equiv> m_Channel m @ ''.'' @ p"
  shows "\<exists>(x1 :: go_int32) (x2 :: go_int32) (x3 :: go_int32). sint x1 = 1 \<and> sint x2 = 2 \<and> sint x3 = 3
    \<and> journey matches U E W body corr (Suc (Suc (Suc (Suc n)))) 0 0 key
      = [run U (E 0) W body corr (scast (0 :: go_int32)) key, run U (E 1) W body corr (scast x1) k,
         run U (E 2) W body corr (scast x2) k, run U (E 3) W body corr (scast x3) k]"
proof -
  note step = hopeless_step [where E = E and corr = corr, OF assms(1) assms(5) assms(2-4)]
  have e: "(0 :: nat) + 1 = 1" "(1 :: nat) + 1 = 2" "(2 :: nat) + 1 = 3" by simp_all
  have res: "resolvePriority k (m_Priority m) = p"
    unfolding k_def p_def by (rule resolve_redelivered [OF assms(4)])
  obtain x1 :: go_int32 where x1: "headerInt32 (retry_headers (m_Channel m) (scast (0 :: go_int32) + 1) corr) ''x-attempt'' = x1"
    "sint x1 = 1" using attempt_header [of 0 "m_Channel m" corr] by simp
  obtain x2 :: go_int32 where x2: "headerInt32 (retry_headers (m_Channel m) (scast x1 + 1) corr) ''x-attempt'' = x2"
    "sint x2 = 2" using attempt_header [of x1 "m_Channel m" corr] x1(2) by simp
  obtain x3 :: go_int32 where x3: "headerInt32 (retry_headers (m_Channel m) (scast x2 + 1) corr) ''x-attempt'' = x3"
    "sint x3 = 3" using attempt_header [of x2 "m_Channel m" corr] x2(2) by simp
  have 0: "journey matches U E W body corr (Suc (Suc (Suc (Suc n)))) 0 0 key
      = run U (E 0) W body corr (scast (0 :: go_int32)) key
        # journey matches U E W body corr (Suc (Suc (Suc n))) 1 x1 k"
    using step [where n = "Suc (Suc (Suc n))" and x = 0 and i = 0 and key = key]
    by (simp only: x1(1) e p_def [symmetric] k_def [symmetric]) simp
  have 1: "journey matches U E W body corr (Suc (Suc (Suc n))) 1 x1 k
      = run U (E 1) W body corr (scast x1) k # journey matches U E W body corr (Suc (Suc n)) 2 x2 k"
    using step [where n = "Suc (Suc n)" and x = x1 and i = 1 and key = k] x1(2)
    by (simp del: journey.simps add: x2(1) res [unfolded k_def, simplified] k_def numeral_2_eq_2)
  have 2: "journey matches U E W body corr (Suc (Suc n)) 2 x2 k
      = run U (E 2) W body corr (scast x2) k # journey matches U E W body corr (Suc n) 3 x3 k"
    using step [where n = "Suc n" and x = x2 and i = 2 and key = k] x2(2)
    by (simp del: journey.simps add: x3(1) res [unfolded k_def, simplified] k_def)
  have 3: "journey matches U E W body corr (Suc n) 3 x3 k = [run U (E 3) W body corr (scast x3) k]"
    using x3(2) by (intro hopeless_last [OF assms(1) assms(5) assms(2)]) simp
  show ?thesis unfolding 0 1 2 3
    by (rule exI [of _ x1], rule exI [of _ x2], rule exI [of _ x3]) (simp only: x1(2) x2(2) x3(2) refl simp_thms)
qed

lemma scast_sint_eq: "sint (x :: go_int32) = sint (c :: go_int) \<Longrightarrow> scast x = c"
  by (simp only: scast_eq) simp

section \<open>Properties\<close>

text \<open>A body that does not parse is neither offered to the provider nor sent to a retry
  queue.\<close>

lemma poison_run:
  assumes "Unmarshal U body = None"
  shows "retry_call_of (snd (run U E W body corr a key)) = None"
    and "filter is_send (snd (run U E W body corr a key)) = []"
  using assms by (simp_all add: run_def Handle_def Let_def ask_def emit_traced)

lemma journey_poison:
  assumes "Unmarshal U body = None"
  shows "journey matches U E W body corr (Suc n) i x key = [run U (E i) W body corr (scast x) key]"
  using poison_run(1) [OF assms] by simp

lemma accepted_delivers:
  assumes "Unmarshal U body = Some m" and "answered E (snd (run U E W body corr a key)) (CSend nt) None"
  shows "delivers E m (run U E W body corr a key)"
proof -
  obtain v where v: "realises E W body corr a key m v (run U E W body corr a key)"
    using run_verdict [OF assms(1)] by blast
  have "CSend nt \<in> set (filter is_send (snd (run U E W body corr a key)))"
    using answered_mem [OF assms(2)] by simp
  then have "nt = ToNotification m" by (simp add: realises_sends [OF v] split: if_splits)
  then show ?thesis using assms(2) by (simp add: delivers_def)
qed

lemma journey_stage_nth:
  "j < length (journey matches U E W body corr n i x key)
     \<Longrightarrow> \<exists>y k. journey matches U E W body corr n i x key ! j = run U (E (i + j)) W body corr y k"
proof (induction n arbitrary: i j x key)
  case (Suc n)
  show ?case
  proof (cases j)
    case 0
    then show ?thesis by (auto simp: Let_def)
  next
    case (Suc k)
    then show ?thesis using Suc.prems Suc.IH [of k "i + 1"]
      by (auto simp: Let_def split: option.splits prod.splits)
  qed
qed simp

text \<open>C12: Follow the copies of one message through the retry queues: a first delivery with no
  attempts behind it, then the copy its handling sends to the retry exchange, as the broker
  gives it back when it expires, and so on. Whatever the body, the provider, the database, the
  broker and cancellation do at each stage, this chain has at most four handlings and offers
  the message to the provider at most four times, and the handling in which the provider takes
  it is the last of the chain. The chain holds one handling of every copy: a copy the broker
  delivers twice, and a message an administrator replays from the DLQ, start chains of their
  own.\<close>

theorem journey_bounded:
  "let js = journey matches U E W body corr n 0 0 key in
      length js \<le> 4 \<and> length (filter is_send (concat (map snd js))) \<le> 4
    \<and> (\<forall>j < length js. (\<exists>nt. answered (E j) (snd (js ! j)) (CSend nt) None) \<longrightarrow> Suc j = length js)"
proof (cases "Unmarshal U body")
  case None
  then show ?thesis using poison_run(2) [OF None]
    by (cases n) (auto simp: journey_poison Let_def simp del: journey.simps(2))
next
  case (Some m)
  let ?js = "journey matches U E W body corr n 0 0 key"
  have l: "length ?js \<le> 4" using journey_bound [OF Some, of 0 matches E W corr n 0 key] by simp
  moreover have "length (filter is_send (concat (map snd ?js))) \<le> 4"
    using journey_sends [OF Some, of matches E W corr n 0 0 key] l by linarith
  moreover have "Suc j = length ?js"
    if "j < length ?js" "\<exists>nt. answered (E j) (snd (?js ! j)) (CSend nt) None" for j
  proof -
    have "delivers (E (0 + j)) m (?js ! j)"
      using journey_stage_nth [OF that(1)] accepted_delivers [OF Some] that(2) by auto
    then show ?thesis by (rule journey_delivers_last [OF Some that(1)])
  qed
  ultimately show ?thesis by (simp add: Let_def)
qed

theorem journey_bounded_witness:
  "let js = journey (=) binary_uuid (\<lambda>i. answering None) full_wiring sample_body ''c'' 9 0 0 ''sms.high''
   in length js \<le> 4 \<and> length (filter is_send (concat (map snd js))) \<le> 4
    \<and> (\<forall>j < length js. (\<exists>nt. answered (answering None) (snd (js ! j)) (CSend nt) None)
         \<longrightarrow> Suc j = length js)"
  by (rule journey_bounded [where E = "\<lambda>i. answering None"])

text \<open>C13: When the provider never accepts and everything else works, the journey has exactly four
  stages, each acknowledged: three go through the retry queues and come back to the work queue
  of the same channel and priority, the fourth publishes the unchanged message to the DLQ with
  attempt 3 and the key of that work queue.\<close>

theorem journey_exhausts_to_dlq:
  assumes "Unmarshal U body = Some m" and "has_retry W" and "topic_literal matches"
    and "Channel_Valid (m_Channel m)" and "\<And>i. hopeless (E i) (e i)"
  shows "let js = journey matches U E W body corr (Suc (Suc (Suc (Suc n)))) 0 0 key;
             p = resolvePriority key (m_Priority m) in
      length js = 4 \<and> (\<forall>rh \<in> set js. fst rh = None)
    \<and> map (\<lambda>rh. filter is_publish (snd rh)) js
      = [[CRetry (m_Channel m) p 1 1 corr body], [CRetry (m_Channel m) p 2 2 corr body],
         [CRetry (m_Channel m) p 3 3 corr body],
         [CDLQ (m_Channel m) 3 corr (m_Channel m @ ''.'' @ p) body]]"
proof -
  let ?p = "resolvePriority key (m_Priority m)"
  let ?k = "m_Channel m @ ''.'' @ ?p"
  obtain x1 x2 x3 :: go_int32 where x: "sint x1 = 1" "sint x2 = 2" "sint x3 = 3"
    and js: "journey matches U E W body corr (Suc (Suc (Suc (Suc n)))) 0 0 key
      = [run U (E 0) W body corr (scast (0 :: go_int32)) key, run U (E 1) W body corr (scast x1) ?k,
         run U (E 2) W body corr (scast x2) ?k, run U (E 3) W body corr (scast x3) ?k]"
    using journey_hopeless [where E = E and corr = corr and n = n and key = key, OF assms] by blast
  have c: "scast x1 = (1 :: go_int)" "scast x2 = (2 :: go_int)" "scast x3 = (3 :: go_int)"
    using x by (auto intro!: scast_sint_eq)
  have r: "resolvePriority ?k (m_Priority m) = ?p" by (rule resolve_redelivered [OF assms(4)])
  have st: "fst (run U (E i) W body corr (scast y) k) = None"
    "filter is_publish (snd (run U (E i) W body corr (scast y) k))
      = (if sint y < 3 then [retry_call body corr (scast y) k m] else [dlq_call body corr (scast y) k m])"
    if "0 \<le> sint y" for y :: go_int32 and i k
    using hopeless_stage [OF assms(1) assms(5) assms(2) that] by auto
  have a: "fst (run U (E 0) W body corr (scast (0 :: go_int32)) key) = None"
    "fst (run U (E 1) W body corr (scast x1) ?k) = None"
    "fst (run U (E 2) W body corr (scast x2) ?k) = None"
    "fst (run U (E 3) W body corr (scast x3) ?k) = None"
    using x st(1) [of 0 0 key] by (simp_all add: st(1))
  have f: "filter is_publish (snd (run U (E 0) W body corr (scast (0 :: go_int32)) key))
        = [CRetry (m_Channel m) ?p 1 1 corr body]"
    "filter is_publish (snd (run U (E 1) W body corr (scast x1) ?k)) = [CRetry (m_Channel m) ?p 2 2 corr body]"
    "filter is_publish (snd (run U (E 2) W body corr (scast x2) ?k)) = [CRetry (m_Channel m) ?p 3 3 corr body]"
    "filter is_publish (snd (run U (E 3) W body corr (scast x3) ?k)) = [CDLQ (m_Channel m) 3 corr ?k body]"
    using x r st(2) [of 0 0 key] st(2) [of x1 1 ?k] st(2) [of x2 2 ?k] st(2) [of x3 3 ?k]
    by (simp_all add: retry_call_def dlq_call_def c)
  show ?thesis unfolding js Let_def using a f by simp
qed

definition hopeless_env :: env where
  "hopeless_env =
     \<lparr>ans_err = (\<lambda>h. case last h of CSend n \<Rightarrow> Some ErrDeliveryFailed | _ \<Rightarrow> None),
      ans_mark = (\<lambda>_. Inr True), ans_ctx = (\<lambda>_. None)\<rparr>"

lemma hopeless_env: "hopeless hopeless_env ErrDeliveryFailed"
  by (auto simp: hopeless_def hopeless_env_def split: call.split)

theorem journey_exhausts_to_dlq_witness:
  "let js = journey (=) binary_uuid (\<lambda>i. hopeless_env) full_wiring sample_body ''c''
              (Suc (Suc (Suc (Suc 0)))) 0 0 ''sms.high'';
       p = resolvePriority ''sms.high'' (m_Priority sample_message) in
      length js = 4 \<and> (\<forall>rh \<in> set js. fst rh = None)
    \<and> map (\<lambda>rh. filter is_publish (snd rh)) js
      = [[CRetry (m_Channel sample_message) p 1 1 ''c'' sample_body],
         [CRetry (m_Channel sample_message) p 2 2 ''c'' sample_body],
         [CRetry (m_Channel sample_message) p 3 3 ''c'' sample_body],
         [CDLQ (m_Channel sample_message) 3 ''c'' (m_Channel sample_message @ ''.'' @ p) sample_body]]"
  by (rule journey_exhausts_to_dlq [OF sample_parses _ topic_literal_eq _ hopeless_env])
    (simp_all add: full_wiring_def sample_message_def Channel_Valid_iff)

end
