(* ===== verification/Provider.thy ===== *)
theory Provider
  imports Deliver
begin

text \<open>
  \<open>internal/adapter/provider\<close>: the registry that dispatches by channel, the circuit breakers
  around it and the webhook provider. \<open>sony/gobreaker\<close> and the HTTP client are parameters;
  \<open>ctx_Err\<close> reads the context's error off the state of the world.
\<close>

section \<open>registry.go\<close>

text \<open>\<open>fmt\<close>'s \<open>%q\<close>: quotes, the named escapes and \<open>\xNN\<close> for the other control characters.
  It is exact on ASCII; bytes above are kept.\<close>

definition quote_char :: "char \<Rightarrow> go_string" where
  "quote_char c =
     (if c = CHR 0x22 \<or> c = CHR 0x5C then [CHR 0x5C, c]
      else if c = CHR 0x07 then [CHR 0x5C, CHR ''a''] else if c = CHR 0x08 then [CHR 0x5C, CHR ''b'']
      else if c = CHR 0x0C then [CHR 0x5C, CHR ''f''] else if c = CHR 0x0A then [CHR 0x5C, CHR ''n'']
      else if c = CHR 0x0D then [CHR 0x5C, CHR ''r''] else if c = CHR 0x09 then [CHR 0x5C, CHR ''t'']
      else if c = CHR 0x0B then [CHR 0x5C, CHR ''v'']
      else if byte c < 32 \<or> byte c = 127
        then [CHR 0x5C, CHR ''x'', hex_char (byte c div 16), hex_char (byte c mod 16)]
      else [c])"

definition fmt_q :: "go_string \<Rightarrow> go_string" where
  "fmt_q s = [CHR 0x22] @ concat (map quote_char s) @ [CHR 0x22]"

type_synonym 'w Registry = "Channel \<Rightarrow> 'w Provider option"

definition NewRegistry :: "'w Registry" where
  "NewRegistry = Map.empty"

text \<open>\<open>None\<close> is the panic on a second registration of a channel.\<close>

definition MustRegister :: "Channel \<Rightarrow> 'w Provider \<Rightarrow> 'w Registry \<Rightarrow> 'w Registry option" where
  "MustRegister ch p r = (if r ch \<noteq> None then None else Some (r(ch \<mapsto> p)))"

definition Registry_Send :: "'w Registry \<Rightarrow> 'w Provider" where
  "Registry_Send r n w =
     (case r (n_Channel n) of
        None \<Rightarrow> (Some (ErrorText (''no provider registered for channel '' @ fmt_q (n_Channel n))), w)
      | Some p \<Rightarrow> p n w)"

section \<open>gobreaker\<close>

text \<open>
  What the code uses of the library: the settings it passes, the two errors it compares with,
  and a breaker. \<open>Execute\<close> runs the request if the breaker admits it, tells the breaker the
  outcome, and returns the outcome; it returns the breaker's error when it does not admit. Of
  the counts only the consecutive failures are read.
\<close>

record Counts =
  cnt_ConsecutiveFailures :: "32 word"

record Settings =
  st_Name :: go_string
  st_MaxRequests :: "32 word"
  st_Interval :: duration
  st_Timeout :: duration
  st_ReadyToTrip :: "Counts \<Rightarrow> bool"

datatype State = StateClosed | StateHalfOpen | StateOpen

definition ErrOpenState :: goerror where
  "ErrOpenState = ErrorNew ''gobreaker.ErrOpenState'' ''circuit breaker is open''"

definition ErrTooManyRequests :: goerror where
  "ErrTooManyRequests = ErrorNew ''gobreaker.ErrTooManyRequests'' ''too many requests''"

text \<open>\<open>cb_admit\<close> answers the generation of the request it admits, \<open>cb_report\<close> is told the
  generation and the outcome.\<close>

record 'w CircuitBreaker =
  cb_admit :: "'w \<Rightarrow> (goerror + nat) \<times> 'w"
  cb_report :: "nat \<Rightarrow> goerror option \<Rightarrow> 'w \<Rightarrow> 'w"
  cb_State :: "'w \<Rightarrow> State \<times> 'w"

definition Execute ::
  "'w CircuitBreaker \<Rightarrow> ('w \<Rightarrow> goerror option \<times> 'w) \<Rightarrow> 'w \<Rightarrow> goerror option \<times> 'w" where
  "Execute cb req w =
     (case cb_admit cb w of
        (Inl err, w) \<Rightarrow> (Some err, w)
      | (Inr gen, w) \<Rightarrow> (let (r, w) = req w in (r, cb_report cb gen r w)))"

section \<open>circuit_breaker.go\<close>

record CBConfig =
  cfg_FailureThreshold :: "32 word"
  cfg_OpenDuration :: duration
  cfg_HalfOpenMaxCalls :: "32 word"

definition DefaultCBConfig :: CBConfig where
  "DefaultCBConfig =
     \<lparr>cfg_FailureThreshold = 5, cfg_OpenDuration = 30 * Second, cfg_HalfOpenMaxCalls = 2\<rparr>"

record 'w CircuitBreakerRegistry =
  cbr_inner :: "'w Registry"
  cbr_breakers :: "Channel \<Rightarrow> 'w CircuitBreaker option"

definition breaker_settings :: "CBConfig \<Rightarrow> Channel \<Rightarrow> Settings" where
  "breaker_settings cfg ch =
     \<lparr>st_Name = ''provider-'' @ ch, st_MaxRequests = cfg_HalfOpenMaxCalls cfg, st_Interval = 0,
      st_Timeout = cfg_OpenDuration cfg,
      st_ReadyToTrip = (\<lambda>counts. cfg_FailureThreshold cfg \<le> cnt_ConsecutiveFailures counts)\<rparr>"

definition breaker_name :: "Channel \<Rightarrow> go_string" where
  "breaker_name ch = ''provider-'' @ ch"

lemma breaker_settings_name [simp]: "st_Name (breaker_settings cfg ch) = breaker_name ch"
  by (simp add: breaker_settings_def breaker_name_def)

text \<open>One breaker per registered channel; \<open>new\<close> is \<open>gobreaker.NewCircuitBreaker\<close>.\<close>

definition NewCircuitBreakerRegistry ::
  "(Settings \<Rightarrow> 'w CircuitBreaker) \<Rightarrow> 'w Registry \<Rightarrow> CBConfig \<Rightarrow> 'w CircuitBreakerRegistry" where
  "NewCircuitBreakerRegistry new reg cfg =
     \<lparr>cbr_inner = reg,
      cbr_breakers = (\<lambda>ch. map_option (\<lambda>_. new (breaker_settings cfg ch)) (reg ch))\<rparr>"

text \<open>The request handed to \<open>Execute\<close>.\<close>

definition guarded_request ::
  "'w CircuitBreakerRegistry \<Rightarrow> ('w \<Rightarrow> goerror option) \<Rightarrow> Notification \<Rightarrow> 'w \<Rightarrow> goerror option \<times> 'w"
where
  "guarded_request r ctx_Err n w =
     (case Registry_Send (cbr_inner r) n w of
        (Some sendErr, w) \<Rightarrow>
          (if ctx_Err w \<noteq> None then (Some ErrOpenState, w) else (Some sendErr, w))
      | (None, w) \<Rightarrow> (None, w))"

definition CircuitBreakerRegistry_Send ::
  "'w CircuitBreakerRegistry \<Rightarrow> ('w \<Rightarrow> goerror option) \<Rightarrow> 'w Provider" where
  "CircuitBreakerRegistry_Send r ctx_Err n w =
     (case cbr_breakers r (n_Channel n) of
        None \<Rightarrow> Registry_Send (cbr_inner r) n w
      | Some cb \<Rightarrow>
          (case Execute cb (guarded_request r ctx_Err n) w of
             (None, w) \<Rightarrow> (None, w)
           | (Some cbErr, w) \<Rightarrow>
               if errors_Is cbErr ErrOpenState \<or> errors_Is cbErr ErrTooManyRequests then
                 (case ctx_Err w of
                    Some err \<Rightarrow> (Some err, w)
                  | None \<Rightarrow> (Some (ErrorWrap [] ErrCircuitOpen ('': channel '' @ n_Channel n)), w))
               else (Some cbErr, w)))"

definition BreakerState :: "'w CircuitBreakerRegistry \<Rightarrow> Channel \<Rightarrow> 'w \<Rightarrow> State \<times> 'w" where
  "BreakerState r ch w =
     (case cbr_breakers r ch of Some cb \<Rightarrow> cb_State cb w | None \<Rightarrow> (StateClosed, w))"

text \<open>\<open>Channels\<close> lists the keys of the map, in an order Go leaves open.\<close>

definition Channels :: "'w CircuitBreakerRegistry \<Rightarrow> Channel set" where
  "Channels r = dom (cbr_breakers r)"

section \<open>webhook.go\<close>

record WebhookOptions =
  wo_URL :: go_string
  wo_Timeout :: duration

record WebhookProvider =
  wh_url :: go_string
  wh_timeout :: duration

definition NewWebhookProvider :: "WebhookOptions \<Rightarrow> WebhookProvider" where
  "NewWebhookProvider opts =
     (let opts = (if sint (wo_Timeout opts) \<le> 0 then opts\<lparr>wo_Timeout := 10 * Second\<rparr> else opts)
      in \<lparr>wh_url = wo_URL opts, wh_timeout = wo_Timeout opts\<rparr>)"

text \<open>The HTTP client: whether a request to a URL can be built, and what a request with a timeout,
  method, URL, headers and body comes to, an error or a status.\<close>

record 'w http_client =
  hc_NewRequest :: "go_string \<Rightarrow> go_string \<Rightarrow> goerror option"
  hc_Do :: "duration \<Rightarrow> go_string \<Rightarrow> go_string \<Rightarrow> (go_string \<times> go_string) list \<Rightarrow> go_string
     \<Rightarrow> 'w \<Rightarrow> (goerror + go_int) \<times> 'w"

definition webhook_payload :: "uuid_lib \<Rightarrow> Notification \<Rightarrow> (go_string \<times> go_string) list" where
  "webhook_payload U n =
     [(''notification_id'', uuid_String U (n_ID n)),
      (''recipient'', n_Recipient n),
      (''channel'', n_Channel n),
      (''content'', n_Content n),
      (''correlation_id'', uuid_String U (n_CorrelationID n))]"

text \<open>\<open>json.Marshal\<close> of a struct of strings does not fail. Reading the rest of the response body
  is not modelled.\<close>

definition Webhook_Send ::
  "uuid_lib \<Rightarrow> 'w http_client \<Rightarrow> WebhookProvider \<Rightarrow> ('w \<Rightarrow> goerror option) \<Rightarrow> 'w Provider" where
  "Webhook_Send U H p ctx_Err n w =
     (let body = encode_object (webhook_payload U n)
      in case hc_NewRequest H ''POST'' (wh_url p) of
           Some err \<Rightarrow> (Some (ErrorWrap ''build webhook request: '' err []), w)
         | None \<Rightarrow>
            (case hc_Do H (wh_timeout p) ''POST'' (wh_url p) [(''Content-Type'', ''application/json'')]
                    body w of
               (Inl err, w) \<Rightarrow>
                 (case ctx_Err w of
                    Some ctxErr \<Rightarrow> (Some ctxErr, w)
                  | None \<Rightarrow>
                     (Some (ErrorWrap [] ErrDeliveryFailed ('': webhook transport: '' @ error_text err)), w))
             | (Inr statusCode, w) \<Rightarrow>
                 if sint statusCode < 200 \<or> 300 \<le> sint statusCode
                 then (Some (ErrorWrap [] ErrDeliveryFailed ('': webhook status '' @ Itoa (sint statusCode))), w)
                 else (None, w)))"

end
