(* ===== verification/Provider_Properties.thy ===== *)
theory Provider_Properties
  imports Provider
begin

text \<open>
  The provider of the worker, wired as in \<open>cmd/worker/main.go\<close>: one webhook behind a registry
  behind one circuit breaker for each channel. The environment answers every call from the
  history of calls, so a statement for all environments covers every behaviour of the HTTP
  server, the breaker library and the cancellation.
\<close>

section \<open>The wiring\<close>

definition worker_registry :: "'w Provider \<Rightarrow> 'w Registry option" where
  "worker_registry webhook =
     Option.bind (MustRegister ChannelEmail webhook NewRegistry) (\<lambda>reg.
       Option.bind (MustRegister ChannelSMS webhook reg) (\<lambda>reg.
         MustRegister ChannelPush webhook reg))"

lemma worker_registry:
  "worker_registry p = Some (\<lambda>ch. if Channel_Valid ch then Some p else None)"
  by (simp add: worker_registry_def MustRegister_def NewRegistry_def)
    (auto simp: fun_eq_iff Channel_Valid_iff)

section \<open>An environment that answers from the history\<close>

datatype prov_call =
    PAdmit go_string
  | PReport go_string nat "goerror option"
  | PDo duration go_string go_string "(go_string \<times> go_string) list" go_string

record prov_env =
  pv_admit :: "prov_call list \<Rightarrow> goerror + nat"
  pv_answer :: "prov_call list \<Rightarrow> goerror + go_int"
  pv_build :: "go_string \<Rightarrow> goerror option"
  pv_ctx :: "prov_call list \<Rightarrow> goerror option"

definition traced_client :: "prov_env \<Rightarrow> prov_call list http_client" where
  "traced_client E =
     \<lparr>hc_NewRequest = (\<lambda>m u. pv_build E u),
      hc_Do = (\<lambda>t m u hs b h. (pv_answer E (h @ [PDo t m u hs b]), h @ [PDo t m u hs b]))\<rparr>"

definition traced_breaker :: "prov_env \<Rightarrow> Settings \<Rightarrow> prov_call list CircuitBreaker" where
  "traced_breaker E st =
     \<lparr>cb_admit = (\<lambda>h. (pv_admit E (h @ [PAdmit (st_Name st)]), h @ [PAdmit (st_Name st)])),
      cb_report = (\<lambda>g r h. h @ [PReport (st_Name st) g r]),
      cb_State = (\<lambda>h. (StateClosed, h))\<rparr>"

definition worker_provider ::
  "uuid_lib \<Rightarrow> prov_env \<Rightarrow> WebhookOptions \<Rightarrow> CBConfig \<Rightarrow> prov_call list Provider option" where
  "worker_provider U E opts cfg =
     map_option (\<lambda>reg. CircuitBreakerRegistry_Send (NewCircuitBreakerRegistry (traced_breaker E) reg cfg) (pv_ctx E))
       (worker_registry (Webhook_Send U (traced_client E) (NewWebhookProvider opts) (pv_ctx E)))"

text \<open>What the code relies on: the library rejects with one of its two errors, a context that
  is cancelled stays so with the same error, and neither the client nor the context answers
  with the library's errors.\<close>

definition prov_env_ok :: "prov_env \<Rightarrow> bool" where
  "prov_env_ok E \<longleftrightarrow>
     (\<forall>h e. pv_admit E h = Inl e \<longrightarrow> e = ErrOpenState \<or> e = ErrTooManyRequests)
     \<and> (\<forall>h h' e. pv_ctx E h = Some e \<longrightarrow> pv_ctx E (h @ h') = Some e)
     \<and> (\<forall>u e. pv_build E u = Some e
          \<longrightarrow> \<not> errors_Is e ErrOpenState \<and> \<not> errors_Is e ErrTooManyRequests)"

section \<open>What one send does\<close>

definition webhook_post :: "uuid_lib \<Rightarrow> WebhookOptions \<Rightarrow> Notification \<Rightarrow> prov_call" where
  "webhook_post U opts n =
     PDo (wh_timeout (NewWebhookProvider opts)) ''POST'' (wo_URL opts)
       [(''Content-Type'', ''application/json'')] (encode_object (webhook_payload U n))"

text \<open>The verdict on a request that was admitted, from the answer of the client.\<close>

definition webhook_verdict :: "goerror option \<Rightarrow> goerror + go_int \<Rightarrow> goerror option" where
  "webhook_verdict ctx answer =
     (case answer of
        Inl err \<Rightarrow> (case ctx of Some c \<Rightarrow> Some c
          | None \<Rightarrow> Some (ErrorWrap [] ErrDeliveryFailed ('': webhook transport: '' @ error_text err)))
      | Inr status \<Rightarrow>
          if 200 \<le> sint status \<and> sint status < 300 then None
          else Some (ErrorWrap [] ErrDeliveryFailed ('': webhook status '' @ Itoa (sint status))))"

definition circuit_open_error :: "Channel \<Rightarrow> goerror" where
  "circuit_open_error ch = ErrorWrap [] ErrCircuitOpen ('': channel '' @ ch)"

lemma webhook_verdict_not_breaker:
  "webhook_verdict None a = Some e \<Longrightarrow> \<not> errors_Is e ErrOpenState \<and> \<not> errors_Is e ErrTooManyRequests
     \<and> \<not> errors_Is e ErrCircuitOpen \<and> errors_Is e ErrDeliveryFailed"
  by (auto simp: webhook_verdict_def ErrDeliveryFailed_def ErrOpenState_def ErrTooManyRequests_def
      ErrCircuitOpen_def split: sum.splits if_splits)

lemma Webhook_traced:
  "Webhook_Send U (traced_client E) (NewWebhookProvider opts) (pv_ctx E) n h =
     (case pv_build E (wo_URL opts) of
        Some err \<Rightarrow> (Some (ErrorWrap ''build webhook request: '' err []), h)
      | None \<Rightarrow> (webhook_verdict (pv_ctx E (h @ [webhook_post U opts n])) (pv_answer E (h @ [webhook_post U opts n])),
          h @ [webhook_post U opts n]))"
  by (auto simp: Webhook_Send_def traced_client_def webhook_post_def webhook_verdict_def Let_def
      NewWebhookProvider_def split: option.splits sum.splits)

lemma worker_provider_valid:
  assumes "Channel_Valid (n_Channel n)"
  shows "map_option (\<lambda>send. send n h) (worker_provider U E opts cfg) = Some
    (let wh = Webhook_Send U (traced_client E) (NewWebhookProvider opts) (pv_ctx E);
         cb = traced_breaker E (breaker_settings cfg (n_Channel n))
     in case Execute cb (\<lambda>h. case wh n h of
              (Some e, h) \<Rightarrow> (if pv_ctx E h \<noteq> None then (Some ErrOpenState, h) else (Some e, h))
            | (None, h) \<Rightarrow> (None, h)) h of
          (None, h) \<Rightarrow> (None, h)
        | (Some e, h) \<Rightarrow>
            if errors_Is e ErrOpenState \<or> errors_Is e ErrTooManyRequests
            then (case pv_ctx E h of Some c \<Rightarrow> (Some c, h) | None \<Rightarrow> (Some (circuit_open_error (n_Channel n)), h))
            else (Some e, h))"
proof -
  let ?wh = "Webhook_Send U (traced_client E) (NewWebhookProvider opts) (pv_ctx E)"
  let ?r = "NewCircuitBreakerRegistry (traced_breaker E) (\<lambda>ch. if Channel_Valid ch then Some ?wh else None) cfg"
  have "guarded_request ?r (pv_ctx E) n
    = (\<lambda>h. case ?wh n h of
              (Some e, h) \<Rightarrow> (if pv_ctx E h \<noteq> None then (Some ErrOpenState, h) else (Some e, h))
            | (None, h) \<Rightarrow> (None, h))"
    by (simp add: fun_eq_iff guarded_request_def NewCircuitBreakerRegistry_def Registry_Send_def assms)
  moreover have "cbr_breakers ?r (n_Channel n) = Some (traced_breaker E (breaker_settings cfg (n_Channel n)))"
    by (simp add: NewCircuitBreakerRegistry_def assms)
  ultimately show ?thesis
    unfolding circuit_open_error_def
    by (simp add: worker_provider_def worker_registry CircuitBreakerRegistry_Send_def)
qed

section \<open>Properties\<close>

text \<open>C19: One send of the worker's provider asks the breaker of the notification's channel. If
  it rejects, nothing is posted and the error is \<open>ErrCircuitOpen\<close> (or the context's error). If
  it admits, the webhook gets exactly one POST, the breaker one report, and the send succeeds
  exactly when the answer was 2xx; a failure under a live context is \<open>ErrDeliveryFailed\<close>, never
  \<open>ErrCircuitOpen\<close>, and is what the breaker is told; under a cancelled context it is the
  context's error.\<close>

theorem worker_provider_protocol:
  assumes "prov_env_ok E" and "Channel_Valid (n_Channel n)" and "pv_build E (wo_URL opts) = None"
  shows "case map_option (\<lambda>send. send n h) (worker_provider U E opts cfg) of
    None \<Rightarrow> False
  | Some (r, h') \<Rightarrow> let b = breaker_name (n_Channel n);
             h1 = h @ [PAdmit b]; h2 = h1 @ [webhook_post U opts n] in
    case pv_admit E h1 of
      Inl e \<Rightarrow> h' = h1
        \<and> r = Some (case pv_ctx E h1 of Some c \<Rightarrow> c | None \<Rightarrow> circuit_open_error (n_Channel n))
    | Inr g \<Rightarrow>
        (case webhook_verdict (pv_ctx E h2) (pv_answer E h2) of
           None \<Rightarrow> r = None \<and> h' = h2 @ [PReport b g None]
         | Some e \<Rightarrow>
             (case pv_ctx E h2 of
                Some c \<Rightarrow> r = Some c \<and> h' = h2 @ [PReport b g (Some ErrOpenState)]
              | None \<Rightarrow> h' = h2 @ [PReport b g (Some e)] \<and> r = Some e
                  \<and> errors_Is e ErrDeliveryFailed \<and> \<not> errors_Is e ErrCircuitOpen))"
proof -
  let ?b = "breaker_name (n_Channel n)"
  let ?h1 = "h @ [PAdmit ?b]" and ?h2 = "(h @ [PAdmit ?b]) @ [webhook_post U opts n]"
  have name: "st_Name (breaker_settings cfg (n_Channel n)) = ?b"
    by (rule breaker_settings_name)
  have rej: "errors_Is e ErrOpenState \<or> errors_Is e ErrTooManyRequests" if "pv_admit E h1 = Inl e" for h1 e
    using that assms(1) by (metis errors_Is_refl prov_env_ok_def)
  have ctx: "pv_ctx E (h1 @ h') = Some c" if "pv_ctx E h1 = Some c" for h1 h' c
    using that assms(1) by (simp add: prov_env_ok_def)
  note run = worker_provider_valid [where U = U and E = E and opts = opts and cfg = cfg and h = h, OF assms(2)]
    Webhook_traced assms(3)
  show ?thesis
  proof (cases "pv_admit E ?h1")
    case (Inl e)
    then show ?thesis using rej [OF Inl]
      by (simp add: run Execute_def traced_breaker_def name Let_def split: option.split)
  next
    case (Inr g)
    show ?thesis
    proof (cases "webhook_verdict (pv_ctx E ?h2) (pv_answer E ?h2)")
      case None
      then show ?thesis using Inr
        by (simp add: run Execute_def traced_breaker_def name Let_def)
    next
      case (Some e)
      show ?thesis
      proof (cases "pv_ctx E ?h2")
        case (Some c)
        then show ?thesis using Inr \<open>webhook_verdict _ _ = Some e\<close> ctx [OF Some]
          by (simp add: run Execute_def traced_breaker_def name Let_def)
      next
        case None
        then show ?thesis
          using Inr Some webhook_verdict_not_breaker [OF Some [unfolded None]]
          by (simp add: run Execute_def traced_breaker_def name Let_def)
      qed
    qed
  qed
qed

definition teapot :: prov_env where
  "teapot = \<lparr>pv_admit = (\<lambda>h. Inr 0), pv_answer = (\<lambda>h. Inr 418), pv_build = (\<lambda>u. None), pv_ctx = (\<lambda>h. None)\<rparr>"

definition sample_options :: WebhookOptions where
  "sample_options = \<lparr>wo_URL = ''http://hook'', wo_Timeout = 0\<rparr>"

definition sample_sms :: Notification where
  "sample_sms = Notification_zero\<lparr>n_Channel := ''sms'', n_Content := ''hi''\<rparr>"

theorem worker_provider_protocol_witness:
  "case map_option (\<lambda>send. send sample_sms []) (worker_provider binary_uuid teapot sample_options DefaultCBConfig) of
    None \<Rightarrow> False
  | Some (r, h') \<Rightarrow> let b = breaker_name (n_Channel sample_sms);
       h1 = [] @ [PAdmit b]; h2 = h1 @ [webhook_post binary_uuid sample_options sample_sms] in
    case pv_admit teapot h1 of
      Inl e \<Rightarrow> h' = h1
        \<and> r = Some (case pv_ctx teapot h1 of Some c \<Rightarrow> c | None \<Rightarrow> circuit_open_error (n_Channel sample_sms))
    | Inr g \<Rightarrow>
        (case webhook_verdict (pv_ctx teapot h2) (pv_answer teapot h2) of
           None \<Rightarrow> r = None \<and> h' = h2 @ [PReport b g None]
         | Some e \<Rightarrow>
             (case pv_ctx teapot h2 of
                Some c \<Rightarrow> r = Some c \<and> h' = h2 @ [PReport b g (Some ErrOpenState)]
              | None \<Rightarrow> h' = h2 @ [PReport b g (Some e)] \<and> r = Some e
                  \<and> errors_Is e ErrDeliveryFailed \<and> \<not> errors_Is e ErrCircuitOpen))"
  by (rule worker_provider_protocol)
    (simp_all add: prov_env_ok_def teapot_def sample_sms_def Channel_Valid_iff)

end
