(* ===== verification/Breaker_Properties.thy ===== *)
theory Breaker_Properties
  imports Provider
begin

text \<open>
  When a channel's breaker opens. \<open>gobreaker_ok\<close> states the documented behaviour of
  \<open>sony/gobreaker\<close> in the closed and the open state; the statements are about the registry
  of \<open>internal/adapter/provider/circuit_breaker.go\<close> over any library that behaves so.
\<close>

section \<open>The documented breaker\<close>

text \<open>What can be observed of the breaker of a name. A change of state, and nothing else, starts a
  new generation.\<close>

record breaker_view =
  bv_state :: State
  bv_failures :: "32 word"
  bv_generation :: nat

text \<open>Closed, it admits every request; a success clears the consecutive failures, a failure (any
  non-nil error, there being no \<open>IsSuccessful\<close>) adds one and opens the breaker when
  \<open>ReadyToTrip\<close> says so. Open, until its timeout, it rejects every request.\<close>

definition outcome_law :: "(Settings \<Rightarrow> 'w CircuitBreaker) \<Rightarrow> (go_string \<Rightarrow> 'w \<Rightarrow> breaker_view)
    \<Rightarrow> Settings \<Rightarrow> breaker_view \<Rightarrow> nat \<Rightarrow> 'w \<Rightarrow> bool" where
  "outcome_law new view st v g w \<longleftrightarrow>
     view (st_Name st) (cb_report (new st) g None w) = v\<lparr>bv_failures := 0\<rparr>
     \<and> (\<forall>e. if st_ReadyToTrip st \<lparr>cnt_ConsecutiveFailures = bv_failures v + 1\<rparr>
          then bv_state (view (st_Name st) (cb_report (new st) g (Some e) w)) = StateOpen
          else view (st_Name st) (cb_report (new st) g (Some e) w) = v\<lparr>bv_failures := bv_failures v + 1\<rparr>)"

definition gobreaker_ok :: "(Settings \<Rightarrow> 'w CircuitBreaker) \<Rightarrow> (go_string \<Rightarrow> 'w \<Rightarrow> breaker_view) \<Rightarrow> bool" where
  "gobreaker_ok new view \<longleftrightarrow>
     (\<forall>st w. bv_state (view (st_Name st) w) = StateClosed \<longrightarrow>
        (\<exists>g w1. cb_admit (new st) w = (Inr g, w1) \<and> view (st_Name st) w1 = view (st_Name st) w
          \<and> (\<forall>w2. view (st_Name st) w2 = view (st_Name st) w
                \<longrightarrow> outcome_law new view st (view (st_Name st) w) g w2)))
   \<and> (\<forall>st w. bv_state (view (st_Name st) w) = StateOpen \<longrightarrow>
        (\<exists>w1. cb_admit (new st) w = (Inl ErrOpenState, w1) \<and> view (st_Name st) w1 = view (st_Name st) w))"

text \<open>The provider of a channel does not touch the breakers.\<close>

definition leaves_breaker :: "(go_string \<Rightarrow> 'w \<Rightarrow> breaker_view) \<Rightarrow> 'w Provider \<Rightarrow> bool" where
  "leaves_breaker view p \<longleftrightarrow> (\<forall>nm n w. view nm (snd (p n w)) = view nm w)"

abbreviation view_of :: "(go_string \<Rightarrow> 'w \<Rightarrow> breaker_view) \<Rightarrow> Channel \<Rightarrow> 'w \<Rightarrow> breaker_view" where
  "view_of view ch \<equiv> view (breaker_name ch)"

section \<open>One send\<close>

lemma ready_to_trip [simp]:
  "st_ReadyToTrip (breaker_settings cfg ch) c \<longleftrightarrow> cfg_FailureThreshold cfg \<le> cnt_ConsecutiveFailures c"
  by (simp add: breaker_settings_def)

lemma closed_admits:
  assumes "gobreaker_ok new view" and "bv_state (view (st_Name st) w) = StateClosed"
  obtains g w1 where "cb_admit (new st) w = (Inr g, w1)" "view (st_Name st) w1 = view (st_Name st) w"
    "\<And>w2. view (st_Name st) w2 = view (st_Name st) w \<Longrightarrow> outcome_law new view st (view (st_Name st) w) g w2"
  using assms unfolding gobreaker_ok_def by blast

lemma open_rejects:
  assumes "gobreaker_ok new view" and "bv_state (view (st_Name st) w) = StateOpen"
  obtains w1 where "cb_admit (new st) w = (Inl ErrOpenState, w1)" "view (st_Name st) w1 = view (st_Name st) w"
  using assms unfolding gobreaker_ok_def by blast

text \<open>The view after a request that failed, whatever the reason it failed for.\<close>

definition after_failure :: "CBConfig \<Rightarrow> breaker_view \<Rightarrow> breaker_view \<Rightarrow> bool" where
  "after_failure cfg v v' \<longleftrightarrow>
     (if cfg_FailureThreshold cfg \<le> bv_failures v + 1 then bv_state v' = StateOpen
      else v' = v\<lparr>bv_failures := bv_failures v + 1\<rparr>)"

lemma failed_send:
  assumes ok: "gobreaker_ok new view" and reg: "reg (n_Channel n) = Some p" and fr: "leaves_breaker view p"
    and closed: "bv_state (view_of view (n_Channel n) w) = StateClosed"
    and fails: "\<And>w. fst (p n w) \<noteq> None"
  shows "after_failure cfg (view_of view (n_Channel n) w) (view_of view (n_Channel n)
      (snd (CircuitBreakerRegistry_Send (NewCircuitBreakerRegistry new reg cfg) ctx n w)))"
proof -
  let ?st = "breaker_settings cfg (n_Channel n)"
  have nm: "st_Name ?st = breaker_name (n_Channel n)" by (rule breaker_settings_name)
  obtain g w1 where a: "cb_admit (new ?st) w = (Inr g, w1)" "view (st_Name ?st) w1 = view (st_Name ?st) w"
    "\<And>w2. view (st_Name ?st) w2 = view (st_Name ?st) w
        \<Longrightarrow> outcome_law new view ?st (view (st_Name ?st) w) g w2"
    using closed_admits [OF ok, of ?st w] closed unfolding nm by blast
  obtain e w2 where p: "p n w1 = (Some e, w2)" using fails [of w1] by (cases "p n w1") auto
  have v2: "view (st_Name ?st) w2 = view (st_Name ?st) w"
    using fr p a(2) by (metis leaves_breaker_def snd_conv)
  let ?e = "if ctx w2 \<noteq> None then ErrOpenState else e"
  have s: "snd (CircuitBreakerRegistry_Send (NewCircuitBreakerRegistry new reg cfg) ctx n w)
      = cb_report (new ?st) g (Some ?e) w2"
    by (simp add: CircuitBreakerRegistry_Send_def NewCircuitBreakerRegistry_def reg Execute_def a(1)
        guarded_request_def Registry_Send_def p split: option.split)
  show ?thesis using a(3) [OF v2] unfolding s outcome_law_def
    by (auto simp: after_failure_def split: if_splits)
qed

lemma rejected_send:
  assumes ok: "gobreaker_ok new view" and reg: "reg (n_Channel n) = Some p"
    and op: "bv_state (view_of view (n_Channel n) w) = StateOpen" and live: "\<And>w. ctx w = None"
  obtains w1 where "cb_admit (new (breaker_settings cfg (n_Channel n))) w = (Inl ErrOpenState, w1)"
    "CircuitBreakerRegistry_Send (NewCircuitBreakerRegistry new reg cfg) ctx n w
       = (Some (ErrorWrap [] ErrCircuitOpen ('': channel '' @ n_Channel n)), w1)"
proof -
  let ?st = "breaker_settings cfg (n_Channel n)"
  have nm: "st_Name ?st = breaker_name (n_Channel n)" by (rule breaker_settings_name)
  obtain w1 where a: "cb_admit (new ?st) w = (Inl ErrOpenState, w1)"
    using open_rejects [OF ok, of ?st w] op unfolding nm by blast
  show ?thesis
    by (rule that [OF a]) (simp add: CircuitBreakerRegistry_Send_def NewCircuitBreakerRegistry_def reg
        Execute_def a live)
qed

section \<open>Several sends\<close>

definition sends :: "'w Provider \<Rightarrow> Notification \<Rightarrow> nat \<Rightarrow> 'w \<Rightarrow> 'w" where
  "sends send n k w = ((\<lambda>w. snd (send n w)) ^^ k) w"

lemma sends_Suc: "sends send n (Suc k) w = snd (send n (sends send n k w))"
  by (simp add: sends_def)

lemma below_threshold:
  fixes ctx :: "'w \<Rightarrow> goerror option"
  assumes ok: "gobreaker_ok new view" and reg: "reg (n_Channel n) = Some p" and fr: "leaves_breaker view p"
    and fails: "\<And>w. fst (p n w) \<noteq> None"
    and start: "bv_state (view_of view (n_Channel n) w) = StateClosed" "bv_failures (view_of view (n_Channel n) w) = 0"
    and k: "k < unat (cfg_FailureThreshold cfg)"
  defines "send \<equiv> CircuitBreakerRegistry_Send (NewCircuitBreakerRegistry new reg cfg) ctx"
  shows "bv_state (view_of view (n_Channel n) (sends send n k w)) = StateClosed
    \<and> bv_failures (view_of view (n_Channel n) (sends send n k w)) = word_of_nat k"
  using k
proof (induction k)
  case 0
  then show ?case by (simp add: sends_def start)
next
  case (Suc k)
  let ?w = "sends send n k w"
  have ih: "bv_state (view_of view (n_Channel n) ?w) = StateClosed"
    "bv_failures (view_of view (n_Channel n) ?w) = word_of_nat k"
    using Suc by simp_all
  have "\<not> cfg_FailureThreshold cfg \<le> (word_of_nat k + 1 :: 32 word)"
  proof -
    have l: "unat (cfg_FailureThreshold cfg) < 2 ^ 32" by (rule order_less_le_trans [OF unsigned_less]) simp
    have "(word_of_nat k + 1 :: 32 word) = word_of_nat (Suc k)" by simp
    moreover have "unat (word_of_nat (Suc k) :: 32 word) = Suc k"
      using l Suc.prems by (simp only: unsigned_of_nat take_bit_nat_eq_self) (simp add: take_bit_nat_eq_self)
    ultimately show ?thesis using Suc.prems by (simp only: word_le_nat_alt not_le)
  qed
  then show ?case
    using failed_send [where new = new and view = view and reg = reg and p = p and n = n and cfg = cfg and ctx = ctx,
      OF ok reg fr ih(1) fails] ih
    by (simp add: after_failure_def sends_Suc send_def add.commute)
qed

lemma at_threshold:
  fixes ctx :: "'w \<Rightarrow> goerror option"
  assumes ok: "gobreaker_ok new view" and reg: "reg (n_Channel n) = Some p" and fr: "leaves_breaker view p"
    and fails: "\<And>w. fst (p n w) \<noteq> None"
    and start: "bv_state (view_of view (n_Channel n) w) = StateClosed" "bv_failures (view_of view (n_Channel n) w) = 0"
    and pos: "0 < unat (cfg_FailureThreshold cfg)"
  defines "send \<equiv> CircuitBreakerRegistry_Send (NewCircuitBreakerRegistry new reg cfg) ctx"
  shows "bv_state (view_of view (n_Channel n) (sends send n (unat (cfg_FailureThreshold cfg)) w)) = StateOpen"
proof -
  obtain k where k: "unat (cfg_FailureThreshold cfg) = Suc k" using pos gr0_implies_Suc by blast
  have v: "bv_state (view_of view (n_Channel n) (sends send n k w)) = StateClosed"
    "bv_failures (view_of view (n_Channel n) (sends send n k w)) = word_of_nat k"
    using below_threshold [where new = new and view = view and reg = reg and p = p and n = n and w = w and cfg = cfg and ctx = ctx and k = k,
      OF ok reg fr fails start] k by (simp_all add: send_def)
  have "cfg_FailureThreshold cfg = word_of_nat (Suc k)" unfolding k [symmetric] by simp
  then have "cfg_FailureThreshold cfg \<le> word_of_nat k + 1" by (simp add: add.commute)
  then show ?thesis
    using failed_send [where new = new and view = view and reg = reg and p = p and n = n and cfg = cfg and ctx = ctx,
      OF ok reg fr v(1) fails] v(2)
    by (simp add: k after_failure_def sends_Suc send_def)
qed

section \<open>A library that behaves as documented\<close>

text \<open>A breaker whose timeout never passes, over a world that is the views of all names.\<close>

definition patient_breaker :: "Settings \<Rightarrow> (go_string \<Rightarrow> breaker_view) CircuitBreaker" where
  "patient_breaker st =
     \<lparr>cb_admit = (\<lambda>w. (if bv_state (w (st_Name st)) = StateClosed then Inr 0 else Inl ErrOpenState, w)),
      cb_report = (\<lambda>g r w. let v = w (st_Name st); c = bv_failures v + 1 in
         case r of
           None \<Rightarrow> w(st_Name st := v\<lparr>bv_failures := 0\<rparr>)
         | Some e \<Rightarrow>
             if st_ReadyToTrip st \<lparr>cnt_ConsecutiveFailures = c\<rparr>
             then w(st_Name st := \<lparr>bv_state = StateOpen, bv_failures = 0, bv_generation = bv_generation v + 1\<rparr>)
             else w(st_Name st := v\<lparr>bv_failures := c\<rparr>)),
      cb_State = (\<lambda>w. (bv_state (w (st_Name st)), w))\<rparr>"

lemma patient_breaker_ok: "gobreaker_ok patient_breaker (\<lambda>nm w. w nm)"
  by (auto simp: gobreaker_ok_def outcome_law_def patient_breaker_def Let_def)

definition fresh_breakers :: "go_string \<Rightarrow> breaker_view" where
  "fresh_breakers = (\<lambda>_. \<lparr>bv_state = StateClosed, bv_failures = 0, bv_generation = 0\<rparr>)"

definition failing_webhook :: "(go_string \<Rightarrow> breaker_view) Provider" where
  "failing_webhook n w = (Some ErrDeliveryFailed, w)"

definition sms_only :: "Channel \<Rightarrow> (go_string \<Rightarrow> breaker_view) Provider option" where
  "sms_only = [''sms'' \<mapsto> failing_webhook]"

definition sms_notification :: Notification where
  "sms_notification = Notification_zero\<lparr>n_Channel := ''sms''\<rparr>"

lemma sms_setup:
  "sms_only (n_Channel sms_notification) = Some failing_webhook"
  "leaves_breaker (\<lambda>nm w. w nm) failing_webhook" "fst (failing_webhook sms_notification w) \<noteq> None"
  "bv_state (fresh_breakers x) = StateClosed" "bv_failures (fresh_breakers x) = 0"
  by (simp_all add: sms_only_def sms_notification_def leaves_breaker_def failing_webhook_def fresh_breakers_def)

section \<open>Properties\<close>

text \<open>C20: A channel whose provider keeps failing is cut off after exactly \<open>FailureThreshold\<close> sends:
  until then the breaker is closed, so every send reaches the provider; from then on, while
  the breaker is open, a send is rejected by the breaker and returns \<open>ErrCircuitOpen\<close> without
  reaching the provider.\<close>

theorem breaker_opens_at_threshold:
  assumes "gobreaker_ok new view" and "reg (n_Channel n) = Some p" and "leaves_breaker view p"
    and "\<And>w. fst (p n w) \<noteq> None"
    and "bv_state (view_of view (n_Channel n) w) = StateClosed"
    and "bv_failures (view_of view (n_Channel n) w) = 0"
    and "0 < unat (cfg_FailureThreshold cfg)" and "\<And>w. ctx w = None"
  shows "let send = CircuitBreakerRegistry_Send (NewCircuitBreakerRegistry new reg cfg) ctx;
             N = unat (cfg_FailureThreshold cfg); w' = sends send n N w in
      (\<forall>k < N. bv_state (view_of view (n_Channel n) (sends send n k w)) = StateClosed)
    \<and> bv_state (view_of view (n_Channel n) w') = StateOpen
    \<and> (\<exists>w1. cb_admit (new (breaker_settings cfg (n_Channel n))) w' = (Inl ErrOpenState, w1)
         \<and> send n w' = (Some (ErrorWrap [] ErrCircuitOpen ('': channel '' @ n_Channel n)), w1))"
proof -
  note t = at_threshold [where new = new and view = view and reg = reg and p = p and n = n and w = w and cfg = cfg and ctx = ctx,
    OF assms(1-7)]
  show ?thesis
    using below_threshold [where new = new and view = view and reg = reg and p = p and n = n and w = w and cfg = cfg and ctx = ctx,
      OF assms(1-6)] t
      rejected_send [where new = new and view = view and reg = reg and p = p and n = n and cfg = cfg and ctx = ctx,
        OF assms(1,2) t assms(8)]
    by (auto simp: Let_def)
qed

theorem breaker_opens_at_threshold_witness:
  "let send = CircuitBreakerRegistry_Send (NewCircuitBreakerRegistry patient_breaker sms_only DefaultCBConfig) (\<lambda>_. None);
       N = unat (cfg_FailureThreshold DefaultCBConfig); w' = sends send sms_notification N fresh_breakers in
      (\<forall>k < N. bv_state (view_of (\<lambda>nm w. w nm) (n_Channel sms_notification) (sends send sms_notification k fresh_breakers)) = StateClosed)
    \<and> bv_state (view_of (\<lambda>nm w. w nm) (n_Channel sms_notification) w') = StateOpen
    \<and> (\<exists>w1. cb_admit (patient_breaker (breaker_settings DefaultCBConfig (n_Channel sms_notification))) w' = (Inl ErrOpenState, w1)
         \<and> send sms_notification w' = (Some (ErrorWrap [] ErrCircuitOpen ('': channel '' @ n_Channel sms_notification)), w1))"
  by (rule breaker_opens_at_threshold [where new = patient_breaker and view = "\<lambda>nm w. w nm" and reg = sms_only
        and n = sms_notification and p = failing_webhook])
    (simp_all add: patient_breaker_ok sms_setup DefaultCBConfig_def)

text \<open>A send that failed because its context was cancelled counts against the breaker like any
  other failure: the next threshold check sees one more consecutive failure.\<close>

theorem cancelled_send_counts:
  assumes "gobreaker_ok new view" and "reg (n_Channel n) = Some p" and "leaves_breaker view p"
    and "bv_state (view_of view (n_Channel n) w) = StateClosed"
    and "\<And>w. p n w = (Some cancelled, w)" and "\<And>w. ctx w = Some cancelled"
  shows "let (r, w') = CircuitBreakerRegistry_Send (NewCircuitBreakerRegistry new reg cfg) ctx n w in
     r = Some cancelled \<and> after_failure cfg (view_of view (n_Channel n) w) (view_of view (n_Channel n) w')"
proof -
  let ?s = "CircuitBreakerRegistry_Send (NewCircuitBreakerRegistry new reg cfg) ctx n w"
  have "after_failure cfg (view_of view (n_Channel n) w) (view_of view (n_Channel n) (snd ?s))"
    by (rule failed_send [where new = new and view = view and reg = reg and n = n and p = p, OF assms(1-4)]) (simp add: assms(5))
  moreover have "fst ?s = Some cancelled"
  proof -
    obtain g w1 where "cb_admit (new (breaker_settings cfg (n_Channel n))) w = (Inr g, w1)"
      using closed_admits [OF assms(1), of "breaker_settings cfg (n_Channel n)" w] assms(4)
      unfolding breaker_settings_name by blast
    then show ?thesis
      by (simp add: CircuitBreakerRegistry_Send_def NewCircuitBreakerRegistry_def assms(2) Execute_def
          guarded_request_def Registry_Send_def assms(5,6))
  qed
  ultimately show ?thesis by (simp add: split_beta)
qed

definition context_canceled :: goerror where
  "context_canceled = ErrorNew ''context.Canceled'' ''context canceled''"

theorem cancelled_send_counts_witness:
  "let (r, w') = CircuitBreakerRegistry_Send (NewCircuitBreakerRegistry patient_breaker
         [''sms'' \<mapsto> \<lambda>n w. (Some context_canceled, w)] DefaultCBConfig) (\<lambda>_. Some context_canceled) sms_notification fresh_breakers in
     r = Some context_canceled
     \<and> after_failure DefaultCBConfig (view_of (\<lambda>nm w. w nm) (n_Channel sms_notification) fresh_breakers)
         (view_of (\<lambda>nm w. w nm) (n_Channel sms_notification) w')"
  by (rule cancelled_send_counts [where new = patient_breaker and view = "\<lambda>nm w. w nm"
        and n = sms_notification and p = "\<lambda>n w. (Some context_canceled, w)"])
    (simp_all add: patient_breaker_ok sms_setup sms_notification_def leaves_breaker_def)

end
