(* ===== verification/Go_Time.thy ===== *)
theory Go_Time
  imports Go_Strings
begin

text \<open>
  What the code uses of Go's \<open>time\<close> package: \<open>Format\<close> and \<open>Parse\<close> for \<open>RFC3339\<close>, the JSON form of
  a \<open>time.Time\<close>, and the whole seconds above a duration. An instant is the number of nanoseconds
  since Go's zero time, 1 January of year 1, UTC; instants are printed in UTC.
\<close>

section \<open>The calendar\<close>

text \<open>Days since the zero time and dates of the proleptic Gregorian calendar. Years are counted from
  1 March, so that the leap day is the last one.\<close>

definition days_to_date :: "int \<Rightarrow> int \<times> int \<times> int" where
  "days_to_date days =
     (let z = days + 306;
          era = z div 146097;
          doe = z mod 146097;
          yoe = (doe - doe div 1460 + doe div 36524 - doe div 146096) div 365;
          doy = doe - (365 * yoe + yoe div 4 - yoe div 100);
          mp = (5 * doy + 2) div 153;
          d = doy - (153 * mp + 2) div 5 + 1;
          m = (if mp < 10 then mp + 3 else mp - 9)
      in (yoe + era * 400 + (if m \<le> 2 then 1 else 0), m, d))"

definition date_to_days :: "int \<Rightarrow> int \<Rightarrow> int \<Rightarrow> int" where
  "date_to_days y m d =
     (let y' = (if m \<le> 2 then y - 1 else y);
          yoe = y' mod 400;
          doy = (153 * ((m + 9) mod 12) + 2) div 5 + d - 1
      in (y' div 400) * 146097 + yoe * 365 + yoe div 4 - yoe div 100 + doy - 306)"

definition is_leap :: "int \<Rightarrow> bool" where
  "is_leap y \<longleftrightarrow> y mod 4 = 0 \<and> (y mod 100 \<noteq> 0 \<or> y mod 400 = 0)"

definition days_in_month :: "int \<Rightarrow> int \<Rightarrow> int" where
  "days_in_month y m =
     (if m = 2 then (if is_leap y then 29 else 28)
      else if m = 4 \<or> m = 6 \<or> m = 9 \<or> m = 11 then 30 else 31)"

section \<open>Printing\<close>

definition pad :: "nat \<Rightarrow> int \<Rightarrow> go_string" where
  "pad width i = (let ds = nat_decimal (nat \<bar>i\<bar>)
     in (if i < 0 then ''-'' else []) @ replicate (width - length ds) CHR ''0'' @ ds)"

definition date_text :: "time \<Rightarrow> go_string" where
  "date_text t =
     (let secs = t div 1000000000;
          (y, m, d) = days_to_date (secs div 86400);
          s = secs mod 86400
      in pad 4 y @ ''-'' @ pad 2 m @ ''-'' @ pad 2 d @ ''T''
         @ pad 2 (s div 3600) @ '':'' @ pad 2 (s div 60 mod 60) @ '':'' @ pad 2 (s mod 60))"

definition Format_RFC3339 :: "time \<Rightarrow> go_string" where
  "Format_RFC3339 t = date_text t @ ''Z''"

text \<open>\<open>RFC3339Nano\<close>: the nanoseconds without trailing zeros.\<close>

definition nanos_text :: "int \<Rightarrow> go_string" where
  "nanos_text ns =
     (if ns = 0 then []
      else ''.'' @ rev (dropWhile (\<lambda>c. c = CHR ''0'') (rev (pad 9 ns))))"

text \<open>\<open>Time.MarshalJSON\<close> refuses a year outside 0 to 9999.\<close>

definition time_json :: "time \<Rightarrow> go_string option" where
  "time_json t =
     (let (y, _, _) = days_to_date (t div 1000000000 div 86400)
      in if 0 \<le> y \<and> y \<le> 9999 then Some (date_text t @ nanos_text (t mod 1000000000) @ ''Z'') else None)"

section \<open>Parsing\<close>

text \<open>\<open>time.Parse\<close> with the layout \<open>RFC3339\<close>: fields of two digits, the year of four, the hour of one
  or two; a fraction after the seconds, of which nine digits count; a zone \<open>Z\<close> or
  \<open>+hh:mm\<close>, \<open>-hh:mm\<close>; nothing behind it.\<close>

definition take_num :: "nat \<Rightarrow> go_string \<Rightarrow> (int \<times> go_string) option" where
  "take_num width s =
     (if length s < width \<or> \<not> list_all is_digit (take width s) then None
      else Some (int (decimal_value (take width s)), drop width s))"

definition take_hour :: "go_string \<Rightarrow> (int \<times> go_string) option" where
  "take_hour s = (case take_num 2 s of Some r \<Rightarrow> Some r | None \<Rightarrow> take_num 1 s)"

definition expect :: "char \<Rightarrow> go_string \<Rightarrow> go_string option" where
  "expect c s = (case s of x # t \<Rightarrow> if x = c then Some t else None | [] \<Rightarrow> None)"

definition take_fraction :: "go_string \<Rightarrow> int \<times> go_string" where
  "take_fraction s =
     (case s of
        c # d # t \<Rightarrow>
          if (c = CHR ''.'' \<or> c = CHR '','') \<and> is_digit d then
            (let ds = takeWhile is_digit (d # t)
             in (int (decimal_value (take 9 (ds @ replicate 9 CHR ''0''))), dropWhile is_digit (d # t)))
          else (0, s)
      | _ \<Rightarrow> (0, s))"

text \<open>The offset of the zone, in seconds.\<close>

definition take_zone :: "go_string \<Rightarrow> int option" where
  "take_zone s =
     (case s of
        [] \<Rightarrow> None
      | c # t \<Rightarrow>
          if c = CHR ''Z'' then (if t = [] then Some 0 else None)
          else if c = CHR ''+'' \<or> c = CHR ''-'' then
            Option.bind (take_num 2 t) (\<lambda>(hh, t).
            Option.bind (expect CHR '':'' t) (\<lambda>t.
            Option.bind (take_num 2 t) (\<lambda>(mm, t).
              if t = [] \<and> hh \<le> 24 \<and> mm \<le> 60
              then Some ((if c = CHR ''-'' then - 1 else 1) * (hh * 3600 + mm * 60)) else None)))
          else None)"

definition Parse_RFC3339 :: "go_string \<Rightarrow> time option" where
  "Parse_RFC3339 s =
     Option.bind (take_num 4 s) (\<lambda>(y, s).
     Option.bind (expect CHR ''-'' s) (\<lambda>s.
     Option.bind (take_num 2 s) (\<lambda>(mo, s).
     Option.bind (expect CHR ''-'' s) (\<lambda>s.
     Option.bind (take_num 2 s) (\<lambda>(d, s).
     Option.bind (expect CHR ''T'' s) (\<lambda>s.
     Option.bind (take_hour s) (\<lambda>(h, s).
     Option.bind (expect CHR '':'' s) (\<lambda>s.
     Option.bind (take_num 2 s) (\<lambda>(mi, s).
     Option.bind (expect CHR '':'' s) (\<lambda>s.
     Option.bind (take_num 2 s) (\<lambda>(sec, s).
       let (ns, s) = take_fraction s in
     Option.bind (take_zone s) (\<lambda>off.
       if 1 \<le> mo \<and> mo \<le> 12 \<and> 1 \<le> d \<and> d \<le> days_in_month y mo \<and> h < 24 \<and> mi < 60 \<and> sec < 60
       then Some ((date_to_days y mo d * 86400 + h * 3600 + mi * 60 + sec - off) * 1000000000 + ns)
       else None))))))))))))"

section \<open>Seconds\<close>

text \<open>
  \<open>int(math.Ceil(d.Seconds()))\<close>. \<open>Seconds\<close> is \<open>float64(s) + float64(n)/1e9\<close> for the whole seconds
  \<open>s\<close> and the remaining nanoseconds \<open>n\<close>; with \<open>2^k \<le> s < 2^(k+1)\<close> the sum is rounded to a
  multiple of \<open>2^(k-52)\<close>, so a remainder of at most half of that is lost.
\<close>

definition float_loses :: "int \<Rightarrow> int \<Rightarrow> bool" where
  "float_loses s n \<longleftrightarrow>
     0 < s \<and> n * 2 ^ 53 \<le> 1000000000 * 2 ^ length (takeWhile (\<lambda>k. 2 ^ (k + 1) \<le> s) [0..<64])"

definition ceil_seconds :: "duration \<Rightarrow> int" where
  "ceil_seconds d =
     (let i = sint d; s = \<bar>i\<bar> div 1000000000; n = \<bar>i\<bar> mod 1000000000
      in if 0 \<le> i then (if n = 0 \<or> float_loses s n then s else s + 1)
         else (if n \<noteq> 0 \<and> float_loses s (1000000000 - n) then - (s + 1) else - s))"

section \<open>Laws\<close>

lemma float_keeps:
  assumes "s < 2 ^ 22" and "0 < n"
  shows "\<not> float_loses s n"
proof
  let ?P = "\<lambda>k. 2 ^ (k + 1) \<le> s" and ?k = "length (takeWhile (\<lambda>k. 2 ^ (k + 1) \<le> s) [0..<64])"
  assume l: "float_loses s n"
  have "?k \<le> 21"
  proof (rule ccontr)
    assume "\<not> ?k \<le> 21"
    then have m: "21 < ?k" by simp
    then have "takeWhile ?P [0..<64] ! 21 \<in> set (takeWhile ?P [0..<64])" by (rule nth_mem)
    moreover have "takeWhile ?P [0..<64] ! 21 = 21" using m by (subst takeWhile_nth) auto
    ultimately have "2 ^ 22 \<le> s" by (auto dest: set_takeWhileD)
    with assms(1) show False by simp
  qed
  then have "(2 :: int) ^ ?k \<le> 2 ^ 21" by (intro power_increasing) auto
  moreover have "1 * 2 ^ 53 \<le> n * 2 ^ 53" using assms(2) by (intro mult_right_mono) auto
  ultimately show False using l by (simp add: float_loses_def)
qed

lemma ceil_seconds_short:
  assumes "0 \<le> sint d" and "sint d < 2 ^ 22 * 1000000000"
  shows "ceil_seconds d = (sint d + 999999999) div 1000000000"
proof -
  let ?s = "sint d div 1000000000" and ?n = "sint d mod 1000000000"
  have "?s < 2 ^ 22" using assms(2) by simp
  then have c: "ceil_seconds d = (if ?n = 0 then ?s else ?s + 1)"
    using assms(1) float_keeps [of ?s ?n] by (simp add: ceil_seconds_def Let_def order_less_le)
  have "sint d + 999999999 = ?n + 999999999 + ?s * 1000000000"
    using div_mult_mod_eq [of "sint d" 1000000000] by linarith
  then have d: "(sint d + 999999999) div 1000000000 = ?s + (?n + 999999999) div 1000000000"
    by (simp only: div_mult_self1)
  show ?thesis
  proof (cases "?n = 0")
    case False
    moreover have "0 \<le> ?n" "?n < 1000000000" by simp_all
    ultimately have "0 < ?n" "?n < 1000000000" by linarith+
    then have "(?n + 999999999) div 1000000000 = 1" by (subst div_pos_geq) auto
    then show ?thesis using False c d by simp
  qed (use c d in simp)
qed

end
