(* ===== verification/Ratelimit.thy ===== *)
theory Ratelimit
  imports Domain
begin

text \<open>
  \<open>internal/platform/ratelimit\<close>: one token bucket per channel, created on first use. The library
  \<open>golang.org/x/time/rate\<close> and the \<open>float64\<close> arithmetic of the waiting time are parameters; the
  mutex makes every call atomic.
\<close>

text \<open>\<open>rt_wait n rps\<close> is \<open>time.Duration(float64(n) / float64(rps) * float64(time.Second))\<close>.\<close>

record ('f, 'l, 'r) rate_lib =
  rt_NewLimiter :: "'f \<Rightarrow> go_int \<Rightarrow> 'l"
  rt_ReserveN :: "'l \<Rightarrow> time \<Rightarrow> go_int \<Rightarrow> 'r \<times> 'l"
  rt_OK :: "'r \<Rightarrow> bool"
  rt_DelayFrom :: "'r \<Rightarrow> time \<Rightarrow> duration"
  rt_Cancel :: "'r \<Rightarrow> 'l \<Rightarrow> 'l"
  rt_wait :: "go_int \<Rightarrow> 'f \<Rightarrow> duration"

record ('f, 'l) ChannelLimiter =
  cl_limiters :: "Channel \<Rightarrow> 'l option"
  cl_rps :: 'f
  cl_burst :: go_int

definition NewChannelLimiter :: "'f \<Rightarrow> go_int \<Rightarrow> ('f, 'l) ChannelLimiter" where
  "NewChannelLimiter rps burst = \<lparr>cl_limiters = Map.empty, cl_rps = rps, cl_burst = burst\<rparr>"

definition limiterFor ::
  "('f, 'l, 'r) rate_lib \<Rightarrow> Channel \<Rightarrow> ('f, 'l) ChannelLimiter \<Rightarrow> 'l \<times> ('f, 'l) ChannelLimiter" where
  "limiterFor R ch c =
     (case cl_limiters c ch of
        Some l \<Rightarrow> (l, c)
      | None \<Rightarrow> (let l = rt_NewLimiter R (cl_rps c) (cl_burst c)
                in (l, c\<lparr>cl_limiters := (cl_limiters c)(ch \<mapsto> l)\<rparr>)))"

definition AllowChannel ::
  "('f, 'l, 'r) rate_lib \<Rightarrow> time \<Rightarrow> Channel \<Rightarrow> go_int \<Rightarrow> ('f, 'l) ChannelLimiter
     \<Rightarrow> (bool \<times> duration) \<times> ('f, 'l) ChannelLimiter" where
  "AllowChannel R now ch n c =
     (let (l, c) = limiterFor R ch c;
          (r, l) = rt_ReserveN R l now n;
          put = (\<lambda>l. c\<lparr>cl_limiters := (cl_limiters c)(ch \<mapsto> l)\<rparr>)
      in if \<not> rt_OK R r then ((False, rt_wait R n (cl_rps c) + Second), put l)
         else (let delay = rt_DelayFrom R r now
               in if sint delay \<le> 0 then ((True, 0), put l)
                  else ((False, delay), put (rt_Cancel R r l))))"

section \<open>A refusal costs nothing\<close>

text \<open>What is observed of a bucket, and the documented behaviour of the library: a reservation that
  is not OK takes nothing, and cancelling a reservation gives back what it took.\<close>

definition rate_lib_ok :: "('f, 'l, 'r) rate_lib \<Rightarrow> ('l \<Rightarrow> 'b) \<Rightarrow> bool" where
  "rate_lib_ok R bucket \<longleftrightarrow>
     (\<forall>l now n r l'. rt_ReserveN R l now n = (r, l') \<longrightarrow>
        (\<not> rt_OK R r \<longrightarrow> bucket l' = bucket l) \<and> bucket (rt_Cancel R r l') = bucket l)"

text \<open>The bucket of a channel; one that was never used is a new one.\<close>

definition bucket_of :: "('f, 'l, 'r) rate_lib \<Rightarrow> ('l \<Rightarrow> 'b) \<Rightarrow> ('f, 'l) ChannelLimiter \<Rightarrow> Channel \<Rightarrow> 'b" where
  "bucket_of R bucket c ch = bucket (fst (limiterFor R ch c))"

lemma AllowChannel_config:
  "cl_rps (snd (AllowChannel R now ch n c)) = cl_rps c \<and> cl_burst (snd (AllowChannel R now ch n c)) = cl_burst c"
  by (auto simp: AllowChannel_def limiterFor_def Let_def split: option.split prod.split)

lemma AllowChannel_other:
  "ch' \<noteq> ch \<Longrightarrow> cl_limiters (snd (AllowChannel R now ch n c)) ch' = cl_limiters c ch'"
  by (auto simp: AllowChannel_def limiterFor_def Let_def split: option.split prod.split)

lemma bucket_other:
  assumes "ch' \<noteq> ch"
  shows "bucket_of R bucket (snd (AllowChannel R now ch n c)) ch' = bucket_of R bucket c ch'"
  using AllowChannel_config [of R now ch n c] AllowChannel_other [OF assms, of R now n c]
  by (simp add: bucket_of_def limiterFor_def Let_def split: option.split)

lemma bucket_refused:
  assumes "rate_lib_ok R bucket" and "\<not> fst (fst (AllowChannel R now ch n c))"
  shows "bucket_of R bucket (snd (AllowChannel R now ch n c)) ch = bucket_of R bucket c ch"
proof -
  obtain l c' where l: "limiterFor R ch c = (l, c')" by fastforce
  obtain r l' where r: "rt_ReserveN R l now n = (r, l')" by fastforce
  have ok: "\<not> rt_OK R r \<Longrightarrow> bucket l' = bucket l" "bucket (rt_Cancel R r l') = bucket l"
    using assms(1) r unfolding rate_lib_ok_def by blast+
  have "\<exists>x. cl_limiters (snd (AllowChannel R now ch n c)) ch = Some x \<and> bucket x = bucket l"
    using assms(2) ok by (auto simp: AllowChannel_def l r Let_def split: if_splits)
  then have "bucket_of R bucket (snd (AllowChannel R now ch n c)) ch = bucket l"
    by (auto simp: bucket_of_def limiterFor_def)
  then show ?thesis by (simp add: bucket_of_def l)
qed

text \<open>\<open>AllowChannel\<close> on one channel leaves every other channel's bucket alone, and a call that
  refuses leaves the channel's own bucket as it was, with the waiting time it reports.\<close>

theorem AllowChannel_refusal_is_free:
  assumes "rate_lib_ok R bucket" and "AllowChannel R now ch n c = ((ok, retryAfter), c')"
  shows "(ch' \<noteq> ch \<or> \<not> ok \<longrightarrow> bucket_of R bucket c' ch' = bucket_of R bucket c ch')
    \<and> (ok \<longrightarrow> retryAfter = 0)"
  using bucket_other [of ch' ch R bucket now n c] bucket_refused [OF assms(1), of now ch n c] assms(2)
  by (cases "ch' = ch") (auto simp: AllowChannel_def Let_def split: prod.splits if_splits)

text \<open>A bucket of whole tokens that never refills.\<close>

definition token_lib :: "(unit, int, int \<times> bool) rate_lib" where
  "token_lib =
     \<lparr>rt_NewLimiter = (\<lambda>rps burst. sint burst),
      rt_ReserveN = (\<lambda>l now n. if sint n \<le> l then ((sint n, True), l - sint n) else ((0, False), l)),
      rt_OK = snd, rt_DelayFrom = (\<lambda>r now. 0), rt_Cancel = (\<lambda>r l. l + fst r), rt_wait = (\<lambda>n rps. 0)\<rparr>"

theorem AllowChannel_refusal_is_free_witness:
  "let c = NewChannelLimiter () 2; c' = snd (AllowChannel token_lib 0 ''sms'' 3 c) in
     fst (AllowChannel token_lib 0 ''sms'' 3 c) = (False, Second)
   \<and> bucket_of token_lib id c' ''sms'' = bucket_of token_lib id c ''sms''"
proof -
  let ?c = "NewChannelLimiter () 2 :: (unit, int) ChannelLimiter"
  have a: "AllowChannel token_lib 0 ''sms'' 3 ?c = ((False, Second), snd (AllowChannel token_lib 0 ''sms'' 3 ?c))"
    by (simp add: AllowChannel_def limiterFor_def NewChannelLimiter_def token_lib_def Let_def)
  have f: "fst (AllowChannel token_lib 0 ''sms'' 3 ?c) = (False, Second)" using a by (metis fst_conv)
  have ok: "rate_lib_ok token_lib id" by (auto simp: rate_lib_ok_def token_lib_def)
  show ?thesis using AllowChannel_refusal_is_free [OF ok a, of "''sms''"] f by (simp add: Let_def)
qed

end
