(* ===== verification/Http_Core.thy ===== *)
theory Http_Core
  imports Go_Time Message Metrics
begin

text \<open>
  What the handlers of \<open>internal/adapter/http\<close> share: the request as \<open>net/http\<close> and \<open>chi\<close> hand it
  over, the response writer, JSON responses, the reading of a JSON body under a size limit, and
  the middlewares of \<open>middleware.go\<close>. Log lines are not modelled.
\<close>

section \<open>Requests and responses\<close>

text \<open>\<open>rq_Header\<close> and \<open>rq_Query\<close> are \<open>Header.Get\<close> and \<open>URL.Query().Get\<close>, the empty string for a name
  that is absent; \<open>rq_Param\<close> is \<open>chi.URLParam\<close>, \<open>rq_Route\<close> the pattern the router matched, empty
  for none. The ids are the values of the request's context.\<close>

record request =
  rq_Method :: go_string
  rq_Header :: "go_string \<Rightarrow> go_string"
  rq_Query :: "go_string \<Rightarrow> go_string"
  rq_Param :: "go_string \<Rightarrow> go_string"
  rq_Route :: go_string
  rq_Body :: go_string
  rq_CorrelationID :: "go_string option"
  rq_RequestID :: "go_string option"

text \<open>The response writer: headers can be set until the status is written, the first status
  counts.\<close>

record response =
  rs_Header :: "go_string \<Rightarrow> go_string option"
  rs_Status :: "int option"
  rs_Body :: go_string

definition empty_response :: response where
  "empty_response = \<lparr>rs_Header = Map.empty, rs_Status = None, rs_Body = []\<rparr>"

definition set_header :: "go_string \<Rightarrow> go_string \<Rightarrow> response \<Rightarrow> response" where
  "set_header k v r = (if rs_Status r = None then r\<lparr>rs_Header := (rs_Header r)(k \<mapsto> v)\<rparr> else r)"

definition WriteHeader :: "int \<Rightarrow> response \<Rightarrow> response" where
  "WriteHeader code r = (if rs_Status r = None then r\<lparr>rs_Status := Some code\<rparr> else r)"

definition write_body :: "go_string \<Rightarrow> response \<Rightarrow> response" where
  "write_body s r = (WriteHeader 200 r)\<lparr>rs_Body := rs_Body r @ s\<rparr>"

section \<open>JSON responses\<close>

text \<open>The values the responses are made of.\<close>

datatype jout =
    OStr go_string
  | OInt int
  | OTime time
  | OList "jout list"
  | OObj "(go_string \<times> jout) list"

text \<open>\<open>None\<close> is the error of the encoder, on a year that \<open>time.Time\<close> cannot print.\<close>

fun encode_out :: "jout \<Rightarrow> go_string option" where
  "encode_out (OStr s) = Some (encode_string s)"
| "encode_out (OInt i) = Some (Itoa i)"
| "encode_out (OTime t) = map_option (\<lambda>s. QUOTE # s @ [QUOTE]) (time_json t)"
| "encode_out (OList xs) =
     map_option (\<lambda>ss. ''['' @ strings_Join ss '','' @ '']'') (those (map encode_out xs))"
| "encode_out (OObj ms) =
     map_option (\<lambda>ss. ''{'' @ strings_Join ss '','' @ ''}'')
       (those (map (\<lambda>m. map_option (\<lambda>s. encode_string (fst m) @ '':'' @ s) (encode_out (snd m))) ms))"

text \<open>\<open>writeJSON\<close>: \<open>json.Encoder\<close> ends the value with a line feed and writes nothing on an error.\<close>

definition writeJSON :: "int \<Rightarrow> jout \<Rightarrow> response \<Rightarrow> response" where
  "writeJSON status body r =
     (let r = WriteHeader status (set_header ''Content-Type'' ''application/json'' r)
      in case encode_out body of None \<Rightarrow> r | Some s \<Rightarrow> write_body (s @ [CHR 0x0A]) r)"

definition errorResponse :: "go_string \<Rightarrow> jout" where
  "errorResponse msg = OObj [(''error'', OStr msg)]"

definition writeError :: "int \<Rightarrow> go_string \<Rightarrow> response \<Rightarrow> response" where
  "writeError status msg r = writeJSON status (errorResponse msg) r"

section \<open>Reading a body\<close>

text \<open>
  \<open>json.NewDecoder(http.MaxBytesReader(w, body, limit)).Decode(&x)\<close>: the first JSON value within
  the limit; what follows it is not looked at. Behind a value that is neither an object nor an
  array the decoder must see one more byte or the end of the body.
\<close>

definition DecodeLimited :: "nat \<Rightarrow> 'a fields \<Rightarrow> 'a \<Rightarrow> go_string \<Rightarrow> 'a option" where
  "DecodeLimited limit fs x body =
     (case parse_prefix (take limit body) of
        None \<Rightarrow> None
      | Some (v, rest) \<Rightarrow>
          if limit < length body \<and> rest = [] \<and> \<not> (case v of JObj _ \<Rightarrow> True | JArr _ \<Rightarrow> True | _ \<Rightarrow> False)
          then None
          else decode_struct fs x v)"

text \<open>
  A field that is a slice of structs. Decoding into a slice reuses its elements: an element is
  decoded on top of the value an earlier member of the same name left there, even one behind
  the current length. The state is the elements ever written with the current length.
\<close>

fun decode_elems :: "'a fields \<Rightarrow> 'a \<Rightarrow> json list \<Rightarrow> 'a list \<Rightarrow> 'a list option" where
  "decode_elems fs zero [] old = Some old"
| "decode_elems fs zero (v # vs) old =
     (case decode_struct fs (case old of [] \<Rightarrow> zero | x # _ \<Rightarrow> x) v of
        None \<Rightarrow> None
      | Some y \<Rightarrow> map_option ((#) y) (decode_elems fs zero vs (tl old)))"

definition slice_field ::
  "'a fields \<Rightarrow> 'a \<Rightarrow> 'a list \<times> nat \<Rightarrow> json \<Rightarrow> ('a list \<times> nat) option" where
  "slice_field fs zero st v =
     (case v of
        JNull \<Rightarrow> Some ([], 0)
      | JArr [] \<Rightarrow> Some ([], 0)
      | JArr vs \<Rightarrow> map_option (\<lambda>xs. (xs, length vs)) (decode_elems fs zero vs (fst st))
      | _ \<Rightarrow> None)"

section \<open>middleware.go\<close>

text \<open>A handler answers on the writer and may panic; \<open>True\<close> is a panic.\<close>

type_synonym 'w Handler = "request \<Rightarrow> response \<Rightarrow> 'w \<Rightarrow> bool \<times> response \<times> 'w"

definition correlationIDFrom :: "request \<Rightarrow> go_string" where
  "correlationIDFrom req = (case rq_CorrelationID req of Some v \<Rightarrow> v | None \<Rightarrow> [])"

definition requestIDFrom :: "request \<Rightarrow> go_string" where
  "requestIDFrom req = (case rq_RequestID req of Some v \<Rightarrow> v | None \<Rightarrow> [])"

definition CorrelationID :: "uuid_lib \<Rightarrow> ('w \<Rightarrow> uuid \<times> 'w) \<Rightarrow> 'w Handler \<Rightarrow> 'w Handler" where
  "CorrelationID U newID next req r w =
     (let cid = rq_Header req ''X-Correlation-ID'';
          (cid, w) = (case uuid_Parse U cid of
             Some _ \<Rightarrow> (cid, w)
           | None \<Rightarrow> (let (i, w) = newID w in (uuid_String U i, w)));
          (i, w) = newID w;
          rid = uuid_String U i;
          r = set_header ''X-Request-ID'' rid (set_header ''X-Correlation-ID'' cid r)
      in next (req\<lparr>rq_CorrelationID := Some cid, rq_RequestID := Some rid\<rparr>) r w)"

text \<open>\<open>RequestLogger\<close> only logs; it passes the answer through.\<close>

definition RequestLogger :: "'w Handler \<Rightarrow> 'w Handler" where
  "RequestLogger next req r w = next req r w"

definition Recoverer :: "'w Handler \<Rightarrow> 'w Handler" where
  "Recoverer next req r w =
     (let (panicked, r, w) = next req r w
      in if \<not> panicked then (False, r, w)
         else if rq_Header req ''Connection'' \<noteq> ''Upgrade'' then
           (let r = set_header ''Content-Type'' ''application/json'' r;
                r = WriteHeader 500 r
            in (False, write_body (''{'' @ [QUOTE] @ ''error'' @ [QUOTE] @ '':'' @ [QUOTE]
                  @ ''internal server error'' @ [QUOTE] @ ''}'') r, w))
         else (False, r, w))"

text \<open>The status recorder starts at 200 and takes every status written, which for handlers that
  write one status is the one sent. A panic skips what follows \<open>ServeHTTP\<close>, not the deferred
  decrement.\<close>

definition recorded_status :: "response \<Rightarrow> int" where
  "recorded_status r = (case rs_Status r of None \<Rightarrow> 200 | Some s \<Rightarrow> s)"

definition Metrics_middleware :: "(metric_op \<Rightarrow> 'w \<Rightarrow> 'w) option \<Rightarrow> 'w Handler \<Rightarrow> 'w Handler" where
  "Metrics_middleware m next req r w =
     (case m of
        None \<Rightarrow> next req r w
      | Some emit \<Rightarrow>
         (let w = emit (MInc HTTPRequestsInFlight []) w;
              (panicked, r, w) = next req r w;
              route = (if rq_Route req = [] then ''unmatched'' else rq_Route req);
              w = (if panicked then w
                   else emit (MObserve HTTPRequestDuration [rq_Method req, route])
                     (emit (MInc HTTPRequestsTotal [rq_Method req, route, Itoa (recorded_status r)]) w))
          in (panicked, r, emit (MDec HTTPRequestsInFlight []) w)))"

section \<open>Laws\<close>

lemma response_simps [simp]:
  "rs_Status (set_header k v r) = rs_Status r" "rs_Body (set_header k v r) = rs_Body r"
  "rs_Header (WriteHeader c r) = rs_Header r" "rs_Body (WriteHeader c r) = rs_Body r"
  "rs_Status (WriteHeader c r) = Some (case rs_Status r of None \<Rightarrow> c | Some s \<Rightarrow> s)"
  "rs_Status (write_body s r) = Some (case rs_Status r of None \<Rightarrow> 200 | Some s \<Rightarrow> s)"
  "rs_Header (write_body s r) = rs_Header r"
  by (simp_all add: set_header_def WriteHeader_def write_body_def split: option.split)

lemma writeJSON_status [simp]:
  "rs_Status (writeJSON c b r) = Some (case rs_Status r of None \<Rightarrow> c | Some s \<Rightarrow> s)"
  by (simp add: writeJSON_def Let_def split: option.split)

lemma writeError_status [simp]:
  "rs_Status (writeError c m r) = Some (case rs_Status r of None \<Rightarrow> c | Some s \<Rightarrow> s)"
  by (simp add: writeError_def)

lemma decode_elems_length:
  "decode_elems fs zero vs old = Some xs \<Longrightarrow> length vs \<le> length xs"
  by (induction fs zero vs old arbitrary: xs rule: decode_elems.induct) (auto split: option.splits)

end
