(* ===== verification/Http_Notifications.thy ===== *)
theory Http_Notifications
  imports Http_Core Service Provider
begin

text \<open>
  \<open>internal/adapter/http/dto.go\<close> and \<open>handler_notification.go\<close>: the request and response types and
  the six handlers of \<open>/notifications\<close>. The service behind the handler and the rate limiter are
  ports; \<open>uuid.New\<close>, the clock and the order in which Go ranges over a map are parameters.
\<close>

section \<open>dto.go\<close>

text \<open>\<open>createNotificationRequest\<close> and \<open>batchItemRequest\<close> have the same members.\<close>

record createNotificationRequest =
  cr_To :: go_string
  cr_Channel :: Channel
  cr_Content :: go_string
  cr_Priority :: Priority

definition createNotificationRequest_zero :: createNotificationRequest where
  "createNotificationRequest_zero = \<lparr>cr_To = [], cr_Channel = [], cr_Content = [], cr_Priority = []\<rparr>"

definition create_fields :: "createNotificationRequest fields" where
  "create_fields =
     [(''to'', string_field (\<lambda>s x. x\<lparr>cr_To := s\<rparr>)),
      (''channel'', string_field (\<lambda>s x. x\<lparr>cr_Channel := s\<rparr>)),
      (''content'', string_field (\<lambda>s x. x\<lparr>cr_Content := s\<rparr>)),
      (''priority'', string_field (\<lambda>s x. x\<lparr>cr_Priority := s\<rparr>))]"

text \<open>\<open>batchCreateRequest\<close>: its one slice, with the elements ever written.\<close>

type_synonym batchCreateRequest = "createNotificationRequest list \<times> nat"

definition batch_fields :: "batchCreateRequest fields" where
  "batch_fields = [(''notifications'', slice_field create_fields createNotificationRequest_zero)]"

definition batch_Notifications :: "batchCreateRequest \<Rightarrow> createNotificationRequest list" where
  "batch_Notifications b = take (snd b) (fst b)"

definition createNotificationResponse :: "uuid_lib \<Rightarrow> uuid \<Rightarrow> go_string \<Rightarrow> go_string \<Rightarrow> jout" where
  "createNotificationResponse U messageID status timestamp =
     OObj [(''messageId'', OStr (uuid_String U messageID)), (''status'', OStr status),
           (''timestamp'', OStr timestamp)]"

definition notificationToResponse :: "uuid_lib \<Rightarrow> Notification \<Rightarrow> jout" where
  "notificationToResponse U n =
     OObj [(''messageId'', OStr (uuid_String U (n_ID n))),
           (''recipient'', OStr (n_Recipient n)),
           (''channel'', OStr (n_Channel n)),
           (''content'', OStr (n_Content n)),
           (''priority'', OStr (n_Priority n)),
           (''status'', OStr (n_Status n)),
           (''correlationId'', OStr (uuid_String U (n_CorrelationID n))),
           (''createdAt'', OTime (n_CreatedAt n)),
           (''updatedAt'', OTime (n_UpdatedAt n))]"

definition batchCreateResponse :: "uuid_lib \<Rightarrow> uuid \<Rightarrow> int \<Rightarrow> go_string \<Rightarrow> jout" where
  "batchCreateResponse U batchID accepted timestamp =
     OObj [(''batchId'', OStr (uuid_String U batchID)), (''accepted'', OInt accepted),
           (''timestamp'', OStr timestamp)]"

definition batchSummaryToResponse :: "uuid_lib \<Rightarrow> BatchSummary \<Rightarrow> jout" where
  "batchSummaryToResponse U s =
     OObj [(''batchId'', OStr (uuid_String U (bs_ID s))),
           (''total'', OInt (bs_Total s)),
           (''pending'', OInt (bs_Pending s)),
           (''delivered'', OInt (bs_Delivered s)),
           (''failed'', OInt (bs_Failed s)),
           (''cancelled'', OInt (bs_Cancelled s))]"

definition listResponse :: "jout list \<Rightarrow> int \<Rightarrow> int \<Rightarrow> int \<Rightarrow> jout" where
  "listResponse items page limit cnt =
     OObj [(''items'', OList items), (''page'', OInt page), (''limit'', OInt limit), (''total'', OInt cnt)]"

definition cancelResponse :: "uuid_lib \<Rightarrow> uuid \<Rightarrow> Status \<Rightarrow> jout" where
  "cancelResponse U messageID status =
     OObj [(''messageId'', OStr (uuid_String U messageID)), (''status'', OStr status)]"

definition validationErrorResponse :: "go_string list \<Rightarrow> jout" where
  "validationErrorResponse errs = OObj [(''errors'', OList (map OStr errs))]"

section \<open>The handler and its ports\<close>

definition maxBatchSize :: nat where "maxBatchSize = 1000"
definition maxIdempotencyKey :: nat where "maxIdempotencyKey = 200"
definition defaultLimit :: int where "defaultLimit = 50"
definition maxLimit :: int where "maxLimit = 200"

record 'w ServicePort =
  sp_Create :: "CreateInput \<Rightarrow> 'w \<Rightarrow> (goerror + Notification) \<times> 'w"
  sp_CreateWithIdempotency :: "CreateInput \<Rightarrow> go_string \<Rightarrow> 'w \<Rightarrow> (goerror + Notification \<times> bool) \<times> 'w"
  sp_CreateBatch :: "CreateInput list \<Rightarrow> 'w \<Rightarrow> (goerror + uuid \<times> Notification list) \<times> 'w"
  sp_Get :: "uuid \<Rightarrow> 'w \<Rightarrow> (goerror + Notification) \<times> 'w"
  sp_GetBatchSummary :: "uuid \<Rightarrow> 'w \<Rightarrow> (goerror + BatchSummary) \<times> 'w"
  sp_List :: "ListFilter \<Rightarrow> go_int \<Rightarrow> go_int \<Rightarrow> 'w \<Rightarrow> (goerror + Notification list \<times> int) \<times> 'w"
  sp_Cancel :: "uuid \<Rightarrow> 'w \<Rightarrow> (goerror + Notification) \<times> 'w"

text \<open>The service of \<open>internal/app\<close> behind the port.\<close>

definition service_port :: "uuid_lib \<Rightarrow> 'w NotificationService \<Rightarrow> 'w ServicePort" where
  "service_port U s =
     \<lparr>sp_Create = Create U s, sp_CreateWithIdempotency = CreateWithIdempotency U s,
      sp_CreateBatch = CreateBatch U s, sp_Get = Get s, sp_GetBatchSummary = Service_GetBatchSummary s,
      sp_List = Service_List s, sp_Cancel = Cancel s\<rparr>"

type_synonym 'w ChannelRateLimiter = "Channel \<Rightarrow> go_int \<Rightarrow> 'w \<Rightarrow> (bool \<times> duration) \<times> 'w"

record 'w NotificationHandler =
  nh_svc :: "'w ServicePort"
  nh_rateLimiter :: "'w ChannelRateLimiter option"
  nh_metrics :: "(metric_op \<Rightarrow> 'w \<Rightarrow> 'w) option"

text \<open>The rest of the world: the uuid library, \<open>uuid.New\<close>, the clock, and the order of a range over
  a map with the given keys.\<close>

record 'w http_env =
  he_uuid :: uuid_lib
  he_newID :: "'w \<Rightarrow> uuid \<times> 'w"
  he_now :: "'w \<Rightarrow> time"
  he_order :: "Channel list \<Rightarrow> 'w \<Rightarrow> Channel list"

definition nh_emit :: "'w NotificationHandler \<Rightarrow> metric_op \<Rightarrow> 'w \<Rightarrow> 'w" where
  "nh_emit h m w = (case nh_metrics h of None \<Rightarrow> w | Some f \<Rightarrow> f m w)"

text \<open>The correlation id of the request, or a new one.\<close>

definition request_cid :: "'w http_env \<Rightarrow> request \<Rightarrow> 'w \<Rightarrow> uuid \<times> 'w" where
  "request_cid V req w =
     (case uuid_Parse (he_uuid V) (correlationIDFrom req) of
        Some cid \<Rightarrow> (cid, w)
      | None \<Rightarrow> he_newID V w)"

definition create_input :: "uuid \<Rightarrow> createNotificationRequest \<Rightarrow> CreateInput" where
  "create_input cid x =
     \<lparr>in_Recipient = cr_To x, in_Channel = cr_Channel x, in_Content = cr_Content x,
      in_Priority = cr_Priority x, in_CorrelationID = cid, in_BatchID = None, in_IdempotencyKey = None\<rparr>"

section \<open>create\<close>

text \<open>The error answer of the two ways to create, and the answer on success.\<close>

definition create_failed :: "goerror \<Rightarrow> go_string \<Rightarrow> response \<Rightarrow> response" where
  "create_failed err msg r =
     (if errors_Is err ErrInvalidInput then writeError 400 (error_text err) r else writeError 500 msg r)"

definition create_accepted :: "'w NotificationHandler \<Rightarrow> 'w http_env \<Rightarrow> Notification \<Rightarrow> response \<Rightarrow> 'w
     \<Rightarrow> response \<times> 'w" where
  "create_accepted h V n r w =
     (let w = nh_emit h (MInc NotificationsEnqueued [n_Channel n, n_Priority n]) w
      in (writeJSON 202 (createNotificationResponse (he_uuid V) (n_ID n) ''accepted''
            (Format_RFC3339 (n_CreatedAt n))) r, w))"

definition create_with_key :: "'w NotificationHandler \<Rightarrow> 'w http_env \<Rightarrow> CreateInput \<Rightarrow> go_string \<Rightarrow> response
     \<Rightarrow> 'w \<Rightarrow> response \<times> 'w" where
  "create_with_key h V inp key r w =
     (if length key > maxIdempotencyKey then
        (writeError 400 (''Idempotency-Key must be at most '' @ Itoa (int maxIdempotencyKey) @ '' characters'') r, w)
      else case sp_CreateWithIdempotency (nh_svc h) inp key w of
             (Inl err, w) \<Rightarrow> (create_failed err ''failed to create notification'' r, w)
           | (Inr (n, _), w) \<Rightarrow> create_accepted h V n r w)"

definition create_without_key :: "'w NotificationHandler \<Rightarrow> 'w http_env \<Rightarrow> CreateInput \<Rightarrow> response
     \<Rightarrow> 'w \<Rightarrow> response \<times> 'w" where
  "create_without_key h V inp r w =
     (case sp_Create (nh_svc h) inp w of
        (Inl err, w) \<Rightarrow> (create_failed err ''failed to create notification'' r, w)
      | (Inr n, w) \<Rightarrow> create_accepted h V n r w)"

definition create_allowed :: "'w NotificationHandler \<Rightarrow> 'w http_env \<Rightarrow> request \<Rightarrow> createNotificationRequest
     \<Rightarrow> response \<Rightarrow> 'w \<Rightarrow> response \<times> 'w" where
  "create_allowed h V req x r w =
     (let (cid, w) = request_cid V req w;
          inp = create_input cid x;
          idempotencyKey = TrimSpace (rq_Header req ''Idempotency-Key'')
      in if idempotencyKey \<noteq> [] then create_with_key h V inp idempotencyKey r w
         else create_without_key h V inp r w)"

definition rate_limited :: "duration \<Rightarrow> response \<Rightarrow> response" where
  "rate_limited retryAfter r =
     writeError 429 ''rate limit exceeded; try again later''
       (set_header ''Retry-After'' (Itoa (ceil_seconds retryAfter)) r)"

definition create :: "'w NotificationHandler \<Rightarrow> 'w http_env \<Rightarrow> request \<Rightarrow> response \<Rightarrow> 'w \<Rightarrow> response \<times> 'w" where
  "create h V req r w =
     (case DecodeLimited (2 ^ 20) create_fields createNotificationRequest_zero (rq_Body req) of
        None \<Rightarrow> (writeError 400 ''invalid json body'' r, w)
      | Some x \<Rightarrow>
          (case nh_rateLimiter h of
             None \<Rightarrow> create_allowed h V req x r w
           | Some allow \<Rightarrow>
               (case allow (cr_Channel x) 1 w of
                  ((ok, retryAfter), w) \<Rightarrow>
                    if \<not> ok
                    then (rate_limited retryAfter r, nh_emit h (MInc RateLimitRejected [cr_Channel x]) w)
                    else create_allowed h V req x r w)))"

section \<open>createBatch\<close>

text \<open>The item as the notification that is validated upfront, and the list of the failures.\<close>

definition item_notification :: "createNotificationRequest \<Rightarrow> Notification" where
  "item_notification x =
     Notification_zero\<lparr>n_Recipient := cr_To x, n_Channel := cr_Channel x, n_Content := cr_Content x,
       n_Priority := default_priority (cr_Priority x)\<rparr>"

fun validation_errors :: "int \<Rightarrow> createNotificationRequest list \<Rightarrow> go_string list" where
  "validation_errors i [] = []"
| "validation_errors i (x # xs) =
     (case Validate (item_notification x) of
        None \<Rightarrow> validation_errors (i + 1) xs
      | Some err \<Rightarrow> (''item '' @ Itoa i @ '': '' @ error_text err) # validation_errors (i + 1) xs)"

text \<open>The keys of the map of counts, and the pass over it: every channel is asked, also after one
  has refused.\<close>

definition channels_of :: "createNotificationRequest list \<Rightarrow> Channel list" where
  "channels_of xs = remdups (map cr_Channel xs)"

definition channel_count :: "createNotificationRequest list \<Rightarrow> Channel \<Rightarrow> go_int" where
  "channel_count xs ch = word_of_nat (length (filter (\<lambda>x. cr_Channel x = ch) xs))"

fun ask_limits :: "'w ChannelRateLimiter \<Rightarrow> (Channel \<Rightarrow> go_int) \<Rightarrow> Channel list \<Rightarrow> bool \<times> duration \<Rightarrow> 'w
     \<Rightarrow> (bool \<times> duration) \<times> 'w" where
  "ask_limits allow cnt [] acc w = (acc, w)"
| "ask_limits allow cnt (ch # chs) (rateLimited, maxRetry) w =
     (case allow ch (cnt ch) w of
        ((ok, retryAfter), w) \<Rightarrow>
          ask_limits allow cnt chs
            (if \<not> ok then (True, if sint maxRetry < sint retryAfter then retryAfter else maxRetry)
             else (rateLimited, maxRetry)) w)"

definition batch_allowed :: "'w NotificationHandler \<Rightarrow> 'w http_env \<Rightarrow> request
     \<Rightarrow> createNotificationRequest list \<Rightarrow> response \<Rightarrow> 'w \<Rightarrow> response \<times> 'w" where
  "batch_allowed h V req xs r w =
     (let (cid, w) = request_cid V req w
      in case sp_CreateBatch (nh_svc h) (map (create_input cid) xs) w of
           (Inl err, w) \<Rightarrow> (create_failed err ''failed to create batch'' r, w)
         | (Inr (batchID, created), w) \<Rightarrow>
             (let w = fold (\<lambda>n. nh_emit h (MInc NotificationsEnqueued [n_Channel n, n_Priority n])) created w
              in (writeJSON 202 (batchCreateResponse (he_uuid V) batchID (int (length created))
                    (Format_RFC3339 (he_now V w))) r, w)))"

definition batch_checked :: "'w NotificationHandler \<Rightarrow> 'w http_env \<Rightarrow> request
     \<Rightarrow> createNotificationRequest list \<Rightarrow> response \<Rightarrow> 'w \<Rightarrow> response \<times> 'w" where
  "batch_checked h V req xs r w =
     (case nh_rateLimiter h of
        None \<Rightarrow> batch_allowed h V req xs r w
      | Some allow \<Rightarrow>
          (let chs = channels_of xs;
               ((rateLimited, maxRetry), w) =
                 ask_limits allow (channel_count xs) (he_order V chs w) (False, 0) w
           in if rateLimited
              then (rate_limited maxRetry r,
                    fold (\<lambda>ch. nh_emit h (MInc RateLimitRejected [ch])) (he_order V chs w) w)
              else batch_allowed h V req xs r w))"

definition createBatch :: "'w NotificationHandler \<Rightarrow> 'w http_env \<Rightarrow> request \<Rightarrow> response \<Rightarrow> 'w \<Rightarrow> response \<times> 'w" where
  "createBatch h V req r w =
     (case DecodeLimited (10 * 2 ^ 20) batch_fields ([], 0) (rq_Body req) of
        None \<Rightarrow> (writeError 400 ''invalid json body'' r, w)
      | Some b \<Rightarrow>
          (let xs = batch_Notifications b
           in if length xs = 0 then (writeError 400 ''notifications must not be empty'' r, w)
              else if length xs > maxBatchSize then
                (writeError 400 (''batch exceeds maximum of '' @ Itoa (int maxBatchSize) @ '' notifications'') r, w)
              else (let validationErrs = validation_errors 0 xs
                    in if length validationErrs > 0
                       then (writeJSON 400 (validationErrorResponse validationErrs) r, w)
                       else batch_checked h V req xs r w)))"

section \<open>get, getBatchSummary, cancel\<close>

definition get :: "'w NotificationHandler \<Rightarrow> 'w http_env \<Rightarrow> request \<Rightarrow> response \<Rightarrow> 'w \<Rightarrow> response \<times> 'w" where
  "get h V req r w =
     (case uuid_Parse (he_uuid V) (rq_Param req ''messageId'') of
        None \<Rightarrow> (writeError 400 ''messageId must be a uuid'' r, w)
      | Some i \<Rightarrow>
          (case sp_Get (nh_svc h) i w of
             (Inl err, w) \<Rightarrow>
               (if errors_Is err ErrNotFound then (writeError 404 ''notification not found'' r, w)
                else (writeError 500 ''failed to load notification'' r, w))
           | (Inr n, w) \<Rightarrow> (writeJSON 200 (notificationToResponse (he_uuid V) n) r, w)))"

definition getBatchSummary :: "'w NotificationHandler \<Rightarrow> 'w http_env \<Rightarrow> request \<Rightarrow> response \<Rightarrow> 'w \<Rightarrow> response \<times> 'w" where
  "getBatchSummary h V req r w =
     (case uuid_Parse (he_uuid V) (rq_Param req ''batchId'') of
        None \<Rightarrow> (writeError 400 ''batchId must be a uuid'' r, w)
      | Some i \<Rightarrow>
          (case sp_GetBatchSummary (nh_svc h) i w of
             (Inl err, w) \<Rightarrow>
               (if errors_Is err ErrNotFound then (writeError 404 ''batch not found'' r, w)
                else (writeError 500 ''failed to load batch summary'' r, w))
           | (Inr s, w) \<Rightarrow> (writeJSON 200 (batchSummaryToResponse (he_uuid V) s) r, w)))"

definition cancel :: "'w NotificationHandler \<Rightarrow> 'w http_env \<Rightarrow> request \<Rightarrow> response \<Rightarrow> 'w \<Rightarrow> response \<times> 'w" where
  "cancel h V req r w =
     (case uuid_Parse (he_uuid V) (rq_Param req ''messageId'') of
        None \<Rightarrow> (writeError 400 ''messageId must be a uuid'' r, w)
      | Some i \<Rightarrow>
          (case sp_Cancel (nh_svc h) i w of
             (Inl err, w) \<Rightarrow>
               (if errors_Is err ErrNotFound then (writeError 404 ''notification not found'' r, w)
                else if errors_Is err ErrNotPending
                then (writeError 409 ''notification cannot be cancelled: status is not pending'' r, w)
                else (writeError 500 ''failed to cancel notification'' r, w))
           | (Inr n, w) \<Rightarrow> (writeJSON 200 (cancelResponse (he_uuid V) (n_ID n) (n_Status n)) r, w)))"

section \<open>list\<close>

text \<open>One parameter after the other; \<open>Inl\<close> is the message of the first that does not parse.\<close>

definition parse_status :: "go_string \<Rightarrow> go_string + Status" where
  "parse_status s =
     (if s = [] then Inr []
      else if \<not> Status_Valid s
      then Inl (''unknown status '' @ fmt_q s @ ''; valid values: pending, delivered, failed, cancelled'')
      else Inr s)"

definition parse_channel :: "go_string \<Rightarrow> go_string + Channel" where
  "parse_channel s =
     (if s = [] then Inr []
      else if \<not> Channel_Valid s
      then Inl (''unknown channel '' @ fmt_q s @ ''; valid values: sms, email, push'')
      else Inr s)"

definition parse_date :: "go_string \<Rightarrow> go_string \<Rightarrow> go_string + time" where
  "parse_date msg s =
     (if s = [] then Inr 0 else case Parse_RFC3339 s of None \<Rightarrow> Inl msg | Some t \<Rightarrow> Inr t)"

definition parse_bounded :: "int \<Rightarrow> int option \<Rightarrow> go_string \<Rightarrow> go_string \<Rightarrow> go_string + int" where
  "parse_bounded dflt mx msg s =
     (if s = [] then Inr dflt
      else case Atoi s of
             None \<Rightarrow> Inl msg
           | Some i \<Rightarrow> if i < 1 \<or> (case mx of None \<Rightarrow> False | Some m \<Rightarrow> i > m) then Inl msg else Inr i)"

definition parseListParams :: "request \<Rightarrow> go_string + (ListFilter \<times> int \<times> int)" where
  "parseListParams req =
     (case parse_status (rq_Query req ''status'') of Inl m \<Rightarrow> Inl m | Inr s \<Rightarrow>
      case parse_channel (rq_Query req ''channel'') of Inl m \<Rightarrow> Inl m | Inr c \<Rightarrow>
      case parse_date ''dateFrom must be RFC3339 (e.g. 2026-01-01T00:00:00Z)'' (rq_Query req ''dateFrom'')
        of Inl m \<Rightarrow> Inl m | Inr f \<Rightarrow>
      case parse_date ''dateTo must be RFC3339 (e.g. 2026-12-31T23:59:59Z)'' (rq_Query req ''dateTo'')
        of Inl m \<Rightarrow> Inl m | Inr t \<Rightarrow>
      case parse_bounded 1 None ''page must be a positive integer'' (rq_Query req ''page'')
        of Inl m \<Rightarrow> Inl m | Inr p \<Rightarrow>
      case parse_bounded defaultLimit (Some maxLimit) (''limit must be between 1 and '' @ Itoa maxLimit)
          (rq_Query req ''limit'')
        of Inl m \<Rightarrow> Inl m | Inr l \<Rightarrow>
      Inr (\<lparr>lf_Status = s, lf_Channel = c, lf_DateFrom = f, lf_DateTo = t\<rparr>, p, l))"

definition list_handler :: "'w NotificationHandler \<Rightarrow> 'w http_env \<Rightarrow> request \<Rightarrow> response \<Rightarrow> 'w \<Rightarrow> response \<times> 'w" where
  "list_handler h V req r w =
     (case parseListParams req of
        Inl msg \<Rightarrow> (writeError 400 msg r, w)
      | Inr (flt, page, limit) \<Rightarrow>
          (case sp_List (nh_svc h) flt (word_of_int page) (word_of_int limit) w of
             (Inl err, w) \<Rightarrow> (writeError 500 ''failed to list notifications'' r, w)
           | (Inr (items, cnt), w) \<Rightarrow>
               (writeJSON 200 (listResponse (map (notificationToResponse (he_uuid V)) items) page limit cnt) r, w)))"

end
