(* ===== verification/Http_Admin.thy ===== *)
theory Http_Admin
  imports Http_Core Provider Worker "HOL-Library.List_Lexorder" "HOL-Library.Char_ord"
begin

text \<open>
  The other handlers of \<open>internal/adapter/http\<close>: inspection and replay of the dead letter queues
  (\<open>handler_admin.go\<close>), the health probes (\<open>handler_health.go\<close>), and the routes with the chain of
  middlewares (\<open>router.go\<close>). Opening an AMQP channel and the calls on it are ports.
\<close>

section \<open>handler_admin.go\<close>

definition defaultReplayLimit :: int where "defaultReplayLimit = 10"
definition maxReplayLimit :: int where "maxReplayLimit = 100"

text \<open>\<open>Get\<close> answers the next message of a queue, unacknowledged, or none when it is empty.\<close>

record 'w admin_channel =
  ac_QueueInspect :: "go_string \<Rightarrow> 'w \<Rightarrow> (goerror + int) \<times> 'w"
  ac_Get :: "go_string \<Rightarrow> 'w \<Rightarrow> (goerror + Delivery option) \<times> 'w"
  ac_Ack :: "Delivery \<Rightarrow> 'w \<Rightarrow> 'w"
  ac_Nack :: "Delivery \<Rightarrow> bool \<Rightarrow> 'w \<Rightarrow> 'w"
  ac_Close :: "'w \<Rightarrow> 'w"

type_synonym 'w AdminRetryPublisher =
  "go_string \<Rightarrow> go_string \<Rightarrow> amqp_table \<Rightarrow> go_string \<Rightarrow> 'w \<Rightarrow> goerror option \<times> 'w"

record 'w AdminHandler =
  ah_Channel :: "'w \<Rightarrow> (goerror + 'w admin_channel) \<times> 'w"
  ah_publisher :: "'w AdminRetryPublisher"
  ah_mainExchange :: go_string
  ah_queuePrefix :: go_string

definition NewAdminHandler ::
  "('w \<Rightarrow> (goerror + 'w admin_channel) \<times> 'w) \<Rightarrow> 'w AdminRetryPublisher \<Rightarrow> go_string \<Rightarrow> 'w AdminHandler" where
  "NewAdminHandler channel publisher mainExchange =
     \<lparr>ah_Channel = channel, ah_publisher = publisher, ah_mainExchange = mainExchange, ah_queuePrefix = []\<rparr>"

definition WithQueuePrefix :: "go_string \<Rightarrow> 'w AdminHandler \<Rightarrow> 'w AdminHandler" where
  "WithQueuePrefix prefix h = h\<lparr>ah_queuePrefix := prefix\<rparr>"

definition dlqQueueName :: "'w AdminHandler \<Rightarrow> go_string \<Rightarrow> go_string" where
  "dlqQueueName h channel = ah_queuePrefix h @ channel @ ''.dlq''"

definition inspectDLQ :: "'w AdminHandler \<Rightarrow> request \<Rightarrow> response \<Rightarrow> 'w \<Rightarrow> response \<times> 'w" where
  "inspectDLQ h req r w =
     (let channel = rq_Param req ''channel''
      in if \<not> Channel_Valid channel then (writeError 400 (''unknown channel '' @ fmt_q channel) r, w)
         else case ah_Channel h w of
                (Inl err, w) \<Rightarrow> (writeError 500 ''failed to open amqp channel'' r, w)
              | (Inr ch, w) \<Rightarrow>
                  (case ac_QueueInspect ch (dlqQueueName h channel) w of
                     (Inl err, w) \<Rightarrow> (writeError 500 ''failed to inspect DLQ'' r, ac_Close ch w)
                   | (Inr messages, w) \<Rightarrow>
                       (writeJSON 200 (OObj [(''channel'', OStr channel), (''messageCount'', OInt messages)]) r,
                        ac_Close ch w)))"

text \<open>Where a message is replayed to, and with which headers.\<close>

definition replay_key :: "go_string \<Rightarrow> Delivery \<Rightarrow> go_string" where
  "replay_key channel msg =
     (let key = headerString (d_Headers msg) ''x-original-routing-key''
      in if key = [] then channel @ ''.normal'' else key)"

definition replay_headers :: "Delivery \<Rightarrow> amqp_table" where
  "replay_headers msg =
     [(''x-attempt'', VInt32 0), (''correlation_id'', VString (headerString (d_Headers msg) ''correlation_id''))]"

text \<open>The loop with the number of messages it may still take; \<open>Inl\<close> is the message of the error
  answer.\<close>

fun replay_loop ::
  "'w AdminHandler \<Rightarrow> 'w admin_channel \<Rightarrow> go_string \<Rightarrow> nat \<Rightarrow> int \<Rightarrow> 'w \<Rightarrow> (go_string + int) \<times> 'w" where
  "replay_loop h ch channel 0 replayed w = (Inr replayed, w)"
| "replay_loop h ch channel (Suc k) replayed w =
     (case ac_Get ch (dlqQueueName h channel) w of
        (Inl err, w) \<Rightarrow> (Inl ''failed to consume from DLQ'', w)
      | (Inr None, w) \<Rightarrow> (Inr replayed, w)
      | (Inr (Some msg), w) \<Rightarrow>
          (case ah_publisher h (ah_mainExchange h) (replay_key channel msg) (replay_headers msg) (d_Body msg) w of
             (Some pubErr, w) \<Rightarrow> (Inl ''failed to republish message'', ac_Nack ch msg False w)
           | (None, w) \<Rightarrow> replay_loop h ch channel k (replayed + 1) (ac_Ack ch msg w)))"

definition parse_replay_limit :: "go_string \<Rightarrow> int option" where
  "parse_replay_limit s =
     (if s = [] then Some defaultReplayLimit
      else case Atoi s of
             None \<Rightarrow> None
           | Some n \<Rightarrow> if n < 1 then None else if maxReplayLimit < n then Some maxReplayLimit else Some n)"

definition replayDLQ :: "'w AdminHandler \<Rightarrow> request \<Rightarrow> response \<Rightarrow> 'w \<Rightarrow> response \<times> 'w" where
  "replayDLQ h req r w =
     (let channel = rq_Param req ''channel''
      in if \<not> Channel_Valid channel then (writeError 400 (''unknown channel '' @ fmt_q channel) r, w)
         else case parse_replay_limit (rq_Query req ''limit'') of
           None \<Rightarrow> (writeError 400 ''limit must be a positive integer'' r, w)
         | Some limit \<Rightarrow>
            (case ah_Channel h w of
               (Inl err, w) \<Rightarrow> (writeError 500 ''failed to open amqp channel'' r, w)
             | (Inr ch, w) \<Rightarrow>
                 (case replay_loop h ch channel (nat limit) 0 w of
                    (Inl msg, w) \<Rightarrow> (writeError 500 msg r, ac_Close ch w)
                  | (Inr replayed, w) \<Rightarrow>
                      (case ac_QueueInspect ch (dlqQueueName h channel) w of
                         (res, w) \<Rightarrow>
                           (writeJSON 200 (OObj [(''replayed'', OInt replayed),
                               (''remaining'', OInt (case res of Inl _ \<Rightarrow> 0 | Inr n \<Rightarrow> n))]) r,
                            ac_Close ch w)))))"

section \<open>handler_health.go\<close>

text \<open>A checker is its name and its ping; the map of components is an association list, which JSON
  prints in the order of the keys.\<close>

type_synonym 'w HealthChecker = "go_string \<times> ('w \<Rightarrow> goerror option \<times> 'w)"

fun run_checkers ::
  "'w HealthChecker list \<Rightarrow> (go_string \<Rightarrow> go_string option) \<times> go_string \<Rightarrow> 'w
     \<Rightarrow> ((go_string \<Rightarrow> go_string option) \<times> go_string) \<times> 'w" where
  "run_checkers [] acc w = (acc, w)"
| "run_checkers ((name, ping) # cs) (components, overall) w =
     (case ping w of
        (Some err, w) \<Rightarrow> run_checkers cs (components(name \<mapsto> ''down: '' @ error_text err), ''degraded'') w
      | (None, w) \<Rightarrow> run_checkers cs (components(name \<mapsto> ''ok''), overall) w)"

definition healthResponse :: "go_string \<Rightarrow> (go_string \<times> go_string) list \<Rightarrow> jout" where
  "healthResponse status components =
     OObj ((''status'', OStr status)
       # (if components = [] then [] else [(''components'', OObj (map (\<lambda>(k, v). (k, OStr v)) components))]))"

definition live :: "request \<Rightarrow> response \<Rightarrow> 'w \<Rightarrow> response \<times> 'w" where
  "live req r w = (writeJSON 200 (healthResponse ''ok'' []) r, w)"

definition ready :: "'w HealthChecker list \<Rightarrow> request \<Rightarrow> response \<Rightarrow> 'w \<Rightarrow> response \<times> 'w" where
  "ready checkers req r w =
     (let ((components, overall), w) = run_checkers checkers (Map.empty, ''ok'') w;
          status = (if overall \<noteq> ''ok'' then 503 else 200);
          names = sort (remdups (map fst checkers))
      in (writeJSON status (healthResponse overall (map (\<lambda>n. (n, the (components n))) names)) r, w))"

text \<open>\<open>RMQPingChecker\<close>, and the checkers of \<open>cmd/api/main.go\<close>.\<close>

definition RMQPingChecker :: "('w \<Rightarrow> bool) \<Rightarrow> 'w HealthChecker" where
  "RMQPingChecker isClosed =
     (''rabbitmq'', \<lambda>w. (if isClosed w then Some (ErrorText ''connection closed'') else None, w))"

definition pgChecker :: "('w \<Rightarrow> goerror option \<times> 'w) \<Rightarrow> 'w HealthChecker" where
  "pgChecker ping = (''postgres'', ping)"

section \<open>router.go\<close>

datatype endpoint =
    Ready | Live | MetricsPage | DocsPage | OpenAPI
  | CreateOne | GetOne | CreateMany | BatchSummaryOf | ListAll | CancelOne
  | InspectDLQ | ReplayDLQ

text \<open>The routes \<open>NewRouter\<close> registers, in order.\<close>

definition health_routes :: "(go_string \<times> go_string \<times> endpoint) list" where
  "health_routes =
     [(''GET'', ''/health'', Ready), (''GET'', ''/health/live'', Live), (''GET'', ''/health/ready'', Ready)]"

definition metrics_routes :: "(go_string \<times> go_string \<times> endpoint) list" where
  "metrics_routes = [(''GET'', ''/metrics'', MetricsPage)]"

definition docs_routes :: "(go_string \<times> go_string \<times> endpoint) list" where
  "docs_routes = [(''GET'', ''/docs'', DocsPage), (''GET'', ''/docs/openapi.yaml'', OpenAPI)]"

definition notification_routes :: "(go_string \<times> go_string \<times> endpoint) list" where
  "notification_routes =
     [(''POST'', ''/notifications'', CreateOne),
      (''GET'', ''/notifications/{messageId}'', GetOne),
      (''POST'', ''/notifications/batch'', CreateMany),
      (''GET'', ''/notifications/batch/{batchId}'', BatchSummaryOf),
      (''GET'', ''/notifications'', ListAll),
      (''DELETE'', ''/notifications/{messageId}'', CancelOne)]"

definition admin_routes :: "(go_string \<times> go_string \<times> endpoint) list" where
  "admin_routes =
     [(''GET'', ''/admin/dlq/{channel}'', InspectDLQ), (''POST'', ''/admin/dlq/{channel}/replay'', ReplayDLQ)]"

definition router_routes :: "bool \<Rightarrow> bool \<Rightarrow> (go_string \<times> go_string \<times> endpoint) list" where
  "router_routes metrics admin =
     health_routes @ (if metrics then metrics_routes else []) @ docs_routes @ notification_routes
     @ (if admin then admin_routes else [])"

definition admin_exchange :: "go_string \<Rightarrow> go_string" where
  "admin_exchange adminMainExchange =
     (if adminMainExchange = [] then ExchangeNotifications else adminMainExchange)"

text \<open>The chain of middlewares around the routed handler; \<open>routed\<close> is what \<open>chi\<close> runs for the
  request.\<close>

definition NewRouter ::
  "uuid_lib \<Rightarrow> ('w \<Rightarrow> uuid \<times> 'w) \<Rightarrow> (metric_op \<Rightarrow> 'w \<Rightarrow> 'w) option \<Rightarrow> 'w Handler \<Rightarrow> 'w Handler" where
  "NewRouter U newID m routed =
     Recoverer (CorrelationID U newID (RequestLogger
       (case m of None \<Rightarrow> routed | Some _ \<Rightarrow> Metrics_middleware m routed)))"

end
