(* ===== verification/Http_Admin_Properties.thy ===== *)
theory Http_Admin_Properties
  imports Http_Admin Rabbitmq_Properties Deliver_Properties
begin

text \<open>
  The replay of a dead letter queue, the way a replayed message takes, and what the middlewares
  add to every request.
\<close>

section \<open>A replay against an arbitrary broker\<close>

datatype adm_call =
    AOpen
  | AInspect go_string
  | AGet go_string
  | APublish go_string go_string amqp_table go_string
  | AAck Delivery
  | ANack Delivery bool
  | AClose

record adm_env =
  ae_open :: "adm_call list \<Rightarrow> goerror option"
  ae_inspect :: "adm_call list \<Rightarrow> goerror + int"
  ae_get :: "adm_call list \<Rightarrow> goerror + Delivery option"
  ae_publish :: "adm_call list \<Rightarrow> goerror option"

definition traced_admin_channel :: "adm_env \<Rightarrow> adm_call list admin_channel" where
  "traced_admin_channel E =
     \<lparr>ac_QueueInspect = (\<lambda>q h. (ae_inspect E (h @ [AInspect q]), h @ [AInspect q])),
      ac_Get = (\<lambda>q h. (ae_get E (h @ [AGet q]), h @ [AGet q])),
      ac_Ack = (\<lambda>d h. h @ [AAck d]),
      ac_Nack = (\<lambda>d b h. h @ [ANack d b]),
      ac_Close = (\<lambda>h. h @ [AClose])\<rparr>"

definition traced_admin :: "adm_env \<Rightarrow> adm_call list AdminHandler" where
  "traced_admin E = NewAdminHandler
     (\<lambda>h. (case ae_open E (h @ [AOpen]) of Some e \<Rightarrow> Inl e | None \<Rightarrow> Inr (traced_admin_channel E), h @ [AOpen]))
     (\<lambda>ex key hs body h. (ae_publish E (h @ [APublish ex key hs body]), h @ [APublish ex key hs body]))
     ExchangeNotifications"

definition replay_publish :: "go_string \<Rightarrow> Delivery \<Rightarrow> adm_call" where
  "replay_publish channel msg = APublish ExchangeNotifications (replay_key channel msg) (replay_headers msg) (d_Body msg)"

definition replayed_block :: "go_string \<Rightarrow> Delivery \<Rightarrow> adm_call list" where
  "replayed_block channel msg = [AGet (channel @ ''.dlq''), replay_publish channel msg, AAck msg]"

text \<open>From the history \<open>h\<close> on, the queue hands over these messages one by one and the publisher takes each.\<close>

fun all_replayed :: "adm_env \<Rightarrow> go_string \<Rightarrow> adm_call list \<Rightarrow> Delivery list \<Rightarrow> bool" where
  "all_replayed E channel h [] \<longleftrightarrow> True"
| "all_replayed E channel h (msg # msgs) \<longleftrightarrow>
     ae_get E (h @ [AGet (channel @ ''.dlq'')]) = Inr (Some msg)
     \<and> ae_publish E (h @ [AGet (channel @ ''.dlq''), replay_publish channel msg]) = None
     \<and> all_replayed E channel (h @ replayed_block channel msg) msgs"

text \<open>How the loop ends, at history \<open>h\<close>, when it may take \<open>k\<close> more messages: without a call at its limit,
  else with a \<open>Get\<close> that found the queue empty or failed, or with a message that could not be
  published.\<close>

definition replay_end :: "adm_env \<Rightarrow> go_string \<Rightarrow> adm_call list \<Rightarrow> nat \<Rightarrow> int \<Rightarrow> go_string + int \<Rightarrow> adm_call list \<Rightarrow> bool" where
  "replay_end E channel h k n res tail' \<longleftrightarrow>
     (let q = channel @ ''.dlq''
      in if k = 0 then tail' = [] \<and> res = Inr n
         else case ae_get E (h @ [AGet q]) of
                Inl e \<Rightarrow> tail' = [AGet q] \<and> res = Inl ''failed to consume from DLQ''
              | Inr None \<Rightarrow> tail' = [AGet q] \<and> res = Inr n
              | Inr (Some msg) \<Rightarrow>
                  ae_publish E (h @ [AGet q, replay_publish channel msg]) \<noteq> None
                  \<and> tail' = [AGet q, replay_publish channel msg, ANack msg False]
                  \<and> res = Inl ''failed to republish message'')"

lemma traced_admin_simps [simp]:
  "dlqQueueName (traced_admin E) channel = channel @ ''.dlq''"
  "ah_mainExchange (traced_admin E) = ExchangeNotifications"
  "ah_publisher (traced_admin E) ex key hs body h = (ae_publish E (h @ [APublish ex key hs body]), h @ [APublish ex key hs body])"
  "ac_Get (traced_admin_channel E) q h = (ae_get E (h @ [AGet q]), h @ [AGet q])"
  "ac_QueueInspect (traced_admin_channel E) q h = (ae_inspect E (h @ [AInspect q]), h @ [AInspect q])"
  "ac_Ack (traced_admin_channel E) d h = h @ [AAck d]" "ac_Nack (traced_admin_channel E) d b h = h @ [ANack d b]"
  "ac_Close (traced_admin_channel E) h = h @ [AClose]"
  "ah_Channel (traced_admin E) h =
     (case ae_open E (h @ [AOpen]) of Some e \<Rightarrow> Inl e | None \<Rightarrow> Inr (traced_admin_channel E), h @ [AOpen])"
  by (simp_all add: traced_admin_def traced_admin_channel_def NewAdminHandler_def dlqQueueName_def)

lemma replay_loop_trace:
  "\<exists>msgs tail'. length msgs \<le> k \<and> all_replayed E channel h msgs
     \<and> snd (replay_loop (traced_admin E) (traced_admin_channel E) channel k n h)
         = h @ concat (map (replayed_block channel) msgs) @ tail'
     \<and> replay_end E channel (h @ concat (map (replayed_block channel) msgs)) (k - length msgs) (n + int (length msgs))
         (fst (replay_loop (traced_admin E) (traced_admin_channel E) channel k n h)) tail'"
proof (induction k arbitrary: n h)
  case 0
  show ?case by (rule exI [of _ "[]"], rule exI [of _ "[]"]) (simp add: replay_end_def)
next
  case (Suc k)
  let ?q = "channel @ ''.dlq''"
  let ?h1 = "h @ [AGet ?q]"
  show ?case
  proof (cases "ae_get E ?h1")
    case (Inl e)
    then show ?thesis by (intro exI [of _ "[]"] exI [of _ "[AGet ?q]"]) (simp add: replay_end_def)
  next
    case (Inr r)
    show ?thesis
    proof (cases r)
      case None
      then show ?thesis using Inr
        by (intro exI [of _ "[]"] exI [of _ "[AGet ?q]"]) (simp add: replay_end_def)
    next
      case (Some msg)
      let ?h2 = "?h1 @ [replay_publish channel msg]"
      show ?thesis
      proof (cases "ae_publish E ?h2")
        case (Some e)
        then show ?thesis using Inr \<open>r = Some msg\<close>
          by (intro exI [of _ "[]"] exI [of _ "[AGet ?q, replay_publish channel msg, ANack msg False]"])
            (auto simp: replay_end_def replay_publish_def)
      next
        case None
        let ?h3 = "h @ replayed_block channel msg"
        have step: "replay_loop (traced_admin E) (traced_admin_channel E) channel (Suc k) n h
            = replay_loop (traced_admin E) (traced_admin_channel E) channel k (n + 1) ?h3"
          using Inr \<open>r = Some msg\<close> None by (simp add: replayed_block_def replay_publish_def)
        obtain msgs tail' where "length msgs \<le> k" "all_replayed E channel ?h3 msgs"
          "snd (replay_loop (traced_admin E) (traced_admin_channel E) channel k (n + 1) ?h3)
             = ?h3 @ concat (map (replayed_block channel) msgs) @ tail'"
          "replay_end E channel (?h3 @ concat (map (replayed_block channel) msgs)) (k - length msgs) (n + 1 + int (length msgs))
             (fst (replay_loop (traced_admin E) (traced_admin_channel E) channel k (n + 1) ?h3)) tail'"
          using Suc.IH [of ?h3 "n + 1"] by blast
        then show ?thesis unfolding step using Inr \<open>r = Some msg\<close> None
          by (intro exI [of _ "msg # msgs"] exI [of _ tail']) (simp add: add_ac)
      qed
    qed
  qed
qed

lemma parse_replay_limit_bounds: "parse_replay_limit s = Some l \<Longrightarrow> 1 \<le> l \<and> l \<le> 100"
  by (auto simp: parse_replay_limit_def defaultReplayLimit_def maxReplayLimit_def split: if_splits option.splits)

text \<open>The answer to a replay that ended with \<open>res\<close>, the broker being asked for what remains at history \<open>h\<close>.\<close>

definition replay_answer :: "adm_env \<Rightarrow> go_string \<Rightarrow> adm_call list \<Rightarrow> go_string + int \<Rightarrow> response" where
  "replay_answer E channel h res =
     (case res of
        Inl msg \<Rightarrow> writeError 500 msg empty_response
      | Inr replayed \<Rightarrow>
          writeJSON 200 (OObj [(''replayed'', OInt replayed),
            (''remaining'', OInt (case ae_inspect E (h @ [AInspect (channel @ ''.dlq'')]) of Inl _ \<Rightarrow> 0 | Inr n \<Rightarrow> n))])
            empty_response)"

text \<open>C17: A replay request for a valid channel takes at most 100 messages from its dead letter queue,
  whatever limit was asked for. As long as the queue hands over a message and the publisher takes it,
  each is published once to the main exchange with its body unchanged and then acknowledged. The
  replay ends at its limit or when the queue is empty, and is then answered with the number
  replayed and what the broker says remains, or at the first failure: a \<open>Get\<close> that fails, or a
  message that cannot be published, which is rejected without requeueing; both are answered with
  500. Any other request touches nothing and is answered with 400, or 500 if no channel can be
  opened.\<close>

theorem replayDLQ_protocol:
  "let ch = rq_Param req ''channel''; (r, h) = replayDLQ (traced_admin E) req empty_response [] in
     if \<not> Channel_Valid ch then rs_Status r = Some 400 \<and> h = []
     else case parse_replay_limit (rq_Query req ''limit'') of
       None \<Rightarrow> rs_Status r = Some 400 \<and> h = []
     | Some limit \<Rightarrow> 1 \<le> limit \<and> limit \<le> 100 \<and>
         (if ae_open E [AOpen] \<noteq> None then rs_Status r = Some 500 \<and> h = [AOpen]
          else \<exists>msgs res tail'.
            let taken = [AOpen] @ concat (map (replayed_block ch) msgs)
            in length msgs \<le> nat limit \<and> all_replayed E ch [AOpen] msgs
              \<and> replay_end E ch taken (nat limit - length msgs) (int (length msgs)) res tail'
              \<and> h = taken @ tail' @ (case res of Inl _ \<Rightarrow> [AClose] | Inr _ \<Rightarrow> [AInspect (ch @ ''.dlq''), AClose])
              \<and> r = replay_answer E ch (taken @ tail') res)"
proof (cases "Channel_Valid (rq_Param req ''channel'')")
  case False
  then show ?thesis by (simp add: replayDLQ_def empty_response_def Let_def)
next
  case True
  let ?ch = "rq_Param req ''channel''"
  show ?thesis
  proof (cases "parse_replay_limit (rq_Query req ''limit'')")
    case None
    then show ?thesis using True by (simp add: replayDLQ_def empty_response_def Let_def)
  next
    case limit: (Some limit)
    let ?loop = "replay_loop (traced_admin E) (traced_admin_channel E) ?ch (nat limit) 0 [AOpen]"
    show ?thesis
    proof (cases "ae_open E [AOpen]")
      case (Some e)
      then show ?thesis using True limit parse_replay_limit_bounds
        by (simp add: replayDLQ_def empty_response_def Let_def)
    next
      case None
      obtain res h1 where l: "?loop = (res, h1)" by fastforce
      obtain msgs tail' where t: "length msgs \<le> nat limit" "all_replayed E ?ch [AOpen] msgs"
        "h1 = [AOpen] @ concat (map (replayed_block ?ch) msgs) @ tail'"
        "replay_end E ?ch ([AOpen] @ concat (map (replayed_block ?ch) msgs)) (nat limit - length msgs) (int (length msgs)) res tail'"
        using replay_loop_trace [of "nat limit" E ?ch "[AOpen]" 0] l by auto
      let ?taken = "[AOpen] @ concat (map (replayed_block ?ch) msgs)"
      have "snd (replayDLQ (traced_admin E) req empty_response [])
          = ?taken @ tail' @ (case res of Inl _ \<Rightarrow> [AClose] | Inr (_ :: int) \<Rightarrow> [AInspect (?ch @ ''.dlq''), AClose])"
        and "fst (replayDLQ (traced_admin E) req empty_response []) = replay_answer E ?ch (?taken @ tail') res"
        using True t(3) None limit l by (cases res; simp add: replayDLQ_def replay_answer_def Let_def)+
      then show ?thesis
        using t(1,2,4) True None limit parse_replay_limit_bounds [OF limit]
        unfolding Let_def case_prod_beta by (simp del: append.simps) blast
    qed
  qed
qed

definition replay_request :: request where
  "replay_request =
     \<lparr>rq_Method = ''POST'', rq_Header = (\<lambda>_. []), rq_Query = (\<lambda>_. []), rq_Param = (\<lambda>_. ''sms''),
      rq_Route = ''/admin/dlq/{channel}/replay'', rq_Body = [], rq_CorrelationID = None, rq_RequestID = None\<rparr>"

section \<open>The way back\<close>

text \<open>C18: A message the worker put on a dead letter queue under the key of its work queue goes back to
  exactly that work queue when it is replayed, where the worker reads attempt 0 (so the retry
  levels and the dedup guard apply anew) and the correlation id it had.\<close>

theorem replay_returns_to_work_queue:
  assumes "topic_literal matches" and "Channel_Valid ch" and "Priority_Valid p"
    and "d_Headers msg = dlq_headers ch attempt corr (ch @ ''.'' @ p)"
  shows "routed_to matches ProductionTopology ExchangeNotifications (replay_key ch msg) = [ch @ ''.'' @ p]
    \<and> headerInt32 (replay_headers msg) ''x-attempt'' = 0
    \<and> headerString (replay_headers msg) ''correlation_id'' = corr"
proof -
  have k: "replay_key ch msg = ch @ ''.'' @ p"
    by (simp add: replay_key_def headerString_def assms(4) dlq_headers_def)
  have "RoutingKey ch p = ch @ ''.'' @ p" using assms(3) by (auto simp: RoutingKey_eq Priority_Valid_iff)
  moreover have "routed_to matches ProductionTopology ExchangeNotifications (RoutingKey ch p) = [ch @ ''.'' @ p]"
  proof -
    have "ch \<in> set topo_channels" and "p \<in> set topo_priorities" "p \<noteq> []"
      using assms(2,3) by (auto simp: channel_mem priority_mem Priority_Valid_iff topo_priorities_def)
    then show ?thesis using main_routes
      unfolding production_routes [OF assms(1)] list_all_iff RoutingKey_eq by auto
  qed
  ultimately show ?thesis
    by (simp add: k replay_headers_def headerInt32_def headerString_def assms(4) dlq_headers_def)
qed

definition dead_letter :: Delivery where
  "dead_letter = \<lparr>d_Tag = 1, d_RoutingKey = ''sms'', d_Headers = dlq_headers ''sms'' 3 ''c'' (''sms'' @ ''.'' @ ''high''), d_Body = []\<rparr>"

theorem replay_returns_to_work_queue_witness:
  "routed_to (=) ProductionTopology ExchangeNotifications (replay_key ''sms'' dead_letter) = [''sms'' @ ''.'' @ ''high'']
    \<and> headerInt32 (replay_headers dead_letter) ''x-attempt'' = 0
    \<and> headerString (replay_headers dead_letter) ''correlation_id'' = ''c''"
  by (rule replay_returns_to_work_queue [OF topic_literal_eq, where attempt = 3])
    (simp_all add: Channel_Valid_iff Priority_Valid_iff dead_letter_def)

section \<open>Every request\<close>

text \<open>Whatever happens behind them, the middlewares answer: the panic of a handler becomes a 500 if
  nothing was written before, and the ids are set.\<close>

lemma CorrelationID_ids:
  assumes "uuid_lib_ok U"
  obtains cid rid wa where "CorrelationID U newID next req r w
      = next (req\<lparr>rq_CorrelationID := Some cid, rq_RequestID := Some rid\<rparr>)
          (set_header ''X-Request-ID'' rid (set_header ''X-Correlation-ID'' cid r)) wa"
    and "uuid_Parse U cid \<noteq> None" and "uuid_Parse U rid \<noteq> None"
    and "uuid_Parse U (rq_Header req ''X-Correlation-ID'') \<noteq> None \<longrightarrow> cid = rq_Header req ''X-Correlation-ID''"
proof -
  obtain cid wa where c: "(case uuid_Parse U (rq_Header req ''X-Correlation-ID'') of
             Some _ \<Rightarrow> (rq_Header req ''X-Correlation-ID'', w)
           | None \<Rightarrow> (let (i, w) = newID w in (uuid_String U i, w))) = (cid, wa)" by fastforce
  obtain i w2 where i: "newID wa = (i, w2)" by fastforce
  show ?thesis
  proof (rule that [where cid = cid and rid = "uuid_String U i" and wa = w2])
    show "CorrelationID U newID next req r w
      = next (req\<lparr>rq_CorrelationID := Some cid, rq_RequestID := Some (uuid_String U i)\<rparr>)
          (set_header ''X-Request-ID'' (uuid_String U i) (set_header ''X-Correlation-ID'' cid r)) w2"
      by (simp add: CorrelationID_def c i Let_def)
  qed (use c assms in \<open>auto simp: uuid_lib_ok_def split: option.splits prod.splits\<close>)
qed

text \<open>What the wired metrics count around the handler: the gauge of requests in flight goes up and
  down again on every path, the request and its duration are counted only if the handler did not
  panic.\<close>

definition request_counted ::
  "(metric_op \<Rightarrow> 'w \<Rightarrow> 'w) \<Rightarrow> request \<Rightarrow> response \<Rightarrow> 'w \<Rightarrow> 'w" where
  "request_counted count_op req r w =
     (let route = (if rq_Route req = [] then ''unmatched'' else rq_Route req)
      in count_op (MObserve HTTPRequestDuration [rq_Method req, route])
           (count_op (MInc HTTPRequestsTotal [rq_Method req, route, Itoa (recorded_status r)]) w))"

definition entering :: "(metric_op \<Rightarrow> 'w \<Rightarrow> 'w) option \<Rightarrow> 'w \<Rightarrow> 'w" where
  "entering m w = (case m of None \<Rightarrow> w | Some count_op \<Rightarrow> count_op (MInc HTTPRequestsInFlight []) w)"

definition leaving ::
  "(metric_op \<Rightarrow> 'w \<Rightarrow> 'w) option \<Rightarrow> request \<Rightarrow> bool \<Rightarrow> response \<Rightarrow> 'w \<Rightarrow> 'w" where
  "leaving m req panicked r w =
     (case m of None \<Rightarrow> w
      | Some count_op \<Rightarrow> count_op (MDec HTTPRequestsInFlight [])
          (if panicked then w else request_counted count_op req r w))"

lemma metered:
  assumes "routed req r (entering m w) = (p, r2, w2)"
  shows "(case m of None \<Rightarrow> routed | Some _ \<Rightarrow> Metrics_middleware m routed) req r w
     = (p, r2, leaving m req p r2 w2)"
  using assms by (cases m)
    (simp_all add: entering_def leaving_def Metrics_middleware_def request_counted_def Let_def)

text \<open>C38: Every request that goes through the router's chain, with or without metrics wired, is
  answered without a panic reaching the server. The handler sees a correlation id and a request
  id that are uuids, the former the client's if that was one, and a response that carries both.
  Its answer is sent unchanged unless it panicked; then the status is the one it had written
  already, or else 500, except for a request with the header \<open>Connection: Upgrade\<close>, whose answer
  is left as the panic left it. The wired metrics see the request enter and leave on every path,
  and count it if the handler did not panic.\<close>

theorem router_answers:
  assumes "uuid_lib_ok U"
  shows "\<exists>cid rid w1. uuid_Parse U cid \<noteq> None \<and> uuid_Parse U rid \<noteq> None
    \<and> (uuid_Parse U (rq_Header req ''X-Correlation-ID'') \<noteq> None \<longrightarrow> cid = rq_Header req ''X-Correlation-ID'')
    \<and> (let req' = req\<lparr>rq_CorrelationID := Some cid, rq_RequestID := Some rid\<rparr>;
           r1 = empty_response\<lparr>rs_Header := [''X-Correlation-ID'' \<mapsto> cid, ''X-Request-ID'' \<mapsto> rid]\<rparr>;
           (p, r2, w2) = routed req' r1 (entering m w1);
           (panicked, r, w') = NewRouter U newID m routed req empty_response w
       in \<not> panicked \<and> w' = leaving m req p r2 w2
        \<and> (if p \<and> rq_Header req ''Connection'' \<noteq> ''Upgrade''
           then rs_Status r = Some (case rs_Status r2 of None \<Rightarrow> 500 | Some s \<Rightarrow> s) else r = r2))"
proof -
  let ?chain = "case m of None \<Rightarrow> routed | Some _ \<Rightarrow> Metrics_middleware m routed"
  obtain cid rid w1 where c: "CorrelationID U newID (RequestLogger ?chain) req empty_response w
      = RequestLogger ?chain (req\<lparr>rq_CorrelationID := Some cid, rq_RequestID := Some rid\<rparr>)
          (set_header ''X-Request-ID'' rid (set_header ''X-Correlation-ID'' cid empty_response)) w1"
    and ids: "uuid_Parse U cid \<noteq> None" "uuid_Parse U rid \<noteq> None"
      "uuid_Parse U (rq_Header req ''X-Correlation-ID'') \<noteq> None \<longrightarrow> cid = rq_Header req ''X-Correlation-ID''"
    by (rule CorrelationID_ids [OF assms, of newID "RequestLogger ?chain" req empty_response w]) blast
  let ?req = "req\<lparr>rq_CorrelationID := Some cid, rq_RequestID := Some rid\<rparr>"
  let ?r1 = "empty_response\<lparr>rs_Header := [''X-Correlation-ID'' \<mapsto> cid, ''X-Request-ID'' \<mapsto> rid]\<rparr>"
  have r1: "set_header ''X-Request-ID'' rid (set_header ''X-Correlation-ID'' cid empty_response) = ?r1"
    by (simp add: set_header_def empty_response_def)
  obtain p r2 w2 where n: "routed ?req ?r1 (entering m w1) = (p, r2, w2)"
    by (cases "routed ?req ?r1 (entering m w1)")
  have l: "leaving m ?req p r2 w2 = leaving m req p r2 w2"
    by (simp add: leaving_def request_counted_def split: option.split)
  have "CorrelationID U newID (RequestLogger ?chain) req empty_response w = (p, r2, leaving m req p r2 w2)"
    by (simp only: c r1 RequestLogger_def metered [where routed = routed and m = m and w = w1, OF n] l)
  then have r: "NewRouter U newID m routed req empty_response w
      = (False, if p \<and> rq_Header req ''Connection'' \<noteq> ''Upgrade''
          then write_body (''{'' @ [QUOTE] @ ''error'' @ [QUOTE] @ '':'' @ [QUOTE]
                  @ ''internal server error'' @ [QUOTE] @ ''}'')
                (WriteHeader 500 (set_header ''Content-Type'' ''application/json'' r2)) else r2,
         leaving m req p r2 w2)"
    by (cases p) (simp_all add: NewRouter_def Recoverer_def)
  show ?thesis
    using ids
    by (intro exI [of _ cid] exI [of _ rid] exI [of _ w1])
      (simp add: r n Let_def split: option.split)
qed

theorem router_answers_witness:
  "\<exists>cid rid w1. uuid_Parse binary_uuid cid \<noteq> None \<and> uuid_Parse binary_uuid rid \<noteq> None
    \<and> (uuid_Parse binary_uuid (rq_Header replay_request ''X-Correlation-ID'') \<noteq> None
        \<longrightarrow> cid = rq_Header replay_request ''X-Correlation-ID'')
    \<and> (let req' = replay_request\<lparr>rq_CorrelationID := Some cid, rq_RequestID := Some rid\<rparr>;
           r1 = empty_response\<lparr>rs_Header := [''X-Correlation-ID'' \<mapsto> cid, ''X-Request-ID'' \<mapsto> rid]\<rparr>;
           (p, r2, w2) = (\<lambda>req r w. (True, r, w)) req' r1 (entering (Some (\<lambda>op w. w @ [op])) w1);
           (panicked, r, w') = NewRouter binary_uuid (\<lambda>w. (7, w)) (Some (\<lambda>op w. w @ [op]))
             (\<lambda>req r w. (True, r, w)) replay_request empty_response []
       in \<not> panicked \<and> w' = leaving (Some (\<lambda>op w. w @ [op])) replay_request p r2 w2
        \<and> (if p \<and> rq_Header replay_request ''Connection'' \<noteq> ''Upgrade''
           then rs_Status r = Some (case rs_Status r2 of None \<Rightarrow> 500 | Some s \<Rightarrow> s) else r = r2))"
  by (rule router_answers [OF binary_uuid_ok])

end
