(* ===== verification/Http_Properties.thy ===== *)
theory Http_Properties
  imports Http_Notifications Service_Properties Ratelimit Postgres_Ports
begin

text \<open>
  What the handlers of \<open>/notifications\<close> answer and what has happened by then. The handlers run in
  front of the service of \<open>internal/app\<close>, whose ports answer from the history of calls, and an
  arbitrary rate limiter.
\<close>

section \<open>The handler in front of the service\<close>

type_synonym limits = "Channel \<Rightarrow> go_int \<Rightarrow> svc_call list \<Rightarrow> bool \<times> duration"

definition traced_handler :: "uuid_lib \<Rightarrow> svc_env \<Rightarrow> limits option \<Rightarrow> svc_call list NotificationHandler" where
  "traced_handler U E lim =
     \<lparr>nh_svc = service_port U (traced_service E),
      nh_rateLimiter = map_option (\<lambda>l ch n h. (l ch n h, h)) lim,
      nh_metrics = None\<rparr>"

definition traced_http ::
  "uuid_lib \<Rightarrow> svc_env \<Rightarrow> (Channel list \<Rightarrow> svc_call list \<Rightarrow> Channel list) \<Rightarrow> svc_call list http_env" where
  "traced_http U E order =
     \<lparr>he_uuid = U, he_newID = (\<lambda>h. (sa_id E (h @ [SNewID]), h @ [SNewID])), he_now = sa_now E, he_order = order\<rparr>"

lemma traced_handler_simps [simp]:
  "nh_svc (traced_handler U E lim) = service_port U (traced_service E)"
  "nh_emit (traced_handler U E lim) m h = h"
  "nh_rateLimiter (traced_handler U E None) = None"
  "nh_rateLimiter (traced_handler U E (Some l)) = Some (\<lambda>ch n h. (l ch n h, h))"
  "he_uuid (traced_http U E order) = U" "he_now (traced_http U E order) = sa_now E"
  "he_newID (traced_http U E order) h = (sa_id E (h @ [SNewID]), h @ [SNewID])"
  by (simp_all add: traced_handler_def traced_http_def nh_emit_def)

lemma service_port_simps [simp]:
  "sp_Create (service_port U s) = Create U s"
  "sp_CreateWithIdempotency (service_port U s) = CreateWithIdempotency U s"
  "sp_CreateBatch (service_port U s) = CreateBatch U s"
  by (simp_all add: service_port_def)

lemma empty_response_simps [simp]: "rs_Status empty_response = None" "rs_Header empty_response = Map.empty"
  by (simp_all add: empty_response_def)

text \<open>Calls that leave the outside world as it is.\<close>

fun is_read :: "svc_call \<Rightarrow> bool" where
  "is_read SNewID = True"
| "is_read (SLookup k) = True"
| "is_read c = False"

lemma newID_is_read: "list_all is_newID q \<Longrightarrow> list_all is_read q"
  by (erule list.pred_mono_strong) (metis is_newID.elims(2) is_read.simps(1))

lemma read_no_publish: "is_read c \<Longrightarrow> \<not> is_spublish c"
  by (cases c) simp_all

lemma reads_no_publish: "list_all is_read q \<Longrightarrow> filter is_spublish q = []"
  by (auto simp: filter_empty_conv list_all_iff dest: read_no_publish)

text \<open>The repository and the publisher do not answer with the service's own sentinel.\<close>

definition svc_env_ok :: "svc_env \<Rightarrow> bool" where
  "svc_env_ok E \<longleftrightarrow> (\<forall>h e. sa_err E h = Some e \<longrightarrow> \<not> errors_Is e ErrInvalidInput)
     \<and> (\<forall>h e. sa_row E h = Inl e \<longrightarrow> \<not> errors_Is e ErrInvalidInput)"

lemma wrap_not_invalid [simp]: "ErrorWrap pre e post \<noteq> ErrInvalidInput"
  by (simp add: ErrInvalidInput_def)

section \<open>Creating one\<close>

text \<open>What the status of an answer says about the calls made: 202 that a valid notification was
  stored and published with nil, or found under its key; 500 that no publication succeeded; any
  other that nothing was changed.\<close>

definition create_verdict :: "uuid_lib \<Rightarrow> svc_env \<Rightarrow> int \<Rightarrow> svc_call list \<Rightarrow> bool" where
  "create_verdict U E status h \<longleftrightarrow>
     (if status = 202 then
        (\<exists>p n. list_all is_read p \<and> creatable n \<and> h = p @ [SInsert n, publish_call U n]
             \<and> sa_err E (p @ [SInsert n]) = None \<and> sa_err E h = None)
        \<or> (\<exists>p k n. list_all is_read p \<and> h = p @ [SLookup k] \<and> sa_row E h = Inr n)
      else if status = 500 then filter is_spublish h = [] \<or> sa_err E h \<noteq> None
      else status \<in> {400, 429} \<and> list_all is_read h)"

lemma Create_verdict:
  assumes "svc_env_ok E" and "list_all is_read h"
  shows "case Create U (traced_service E) inp h of
      (Inl e, h') \<Rightarrow> create_verdict U E (if errors_Is e ErrInvalidInput then 400 else 500) h'
    | (Inr n, h') \<Rightarrow> create_verdict U E 202 h'"
proof -
  obtain n where c: "Create U (traced_service E) inp h =
     (case Validate n of
        Some err \<Rightarrow> (Inl (ErrorWrap [] ErrInvalidInput ('': '' @ error_text err)), h @ [SNewID])
      | None \<Rightarrow> insert_and_publish U (traced_service E) n (h @ [SNewID]))"
    and ok: "Validate n = None \<longrightarrow> creatable n"
    using Create_trace [of U E inp h] by (elim exE conjE) (rule that)
  let ?p = "h @ [SNewID]"
  have p: "list_all is_read ?p" using assms(2) by simp
  show ?thesis
  proof (cases "Validate n")
    case (Some err)
    then show ?thesis using p by (simp add: c create_verdict_def)
  next
    case None
    then have cr: "creatable n" using ok by simp
    have inv: "\<And>h e. sa_err E h = Some e \<Longrightarrow> \<not> errors_Is e ErrInvalidInput"
      using assms(1) by (simp add: svc_env_ok_def)
    show ?thesis
    proof (cases "sa_err E (?p @ [SInsert n])")
      case (Some e)
      then show ?thesis using inv [OF Some] reads_no_publish [OF p]
        by (simp add: c None insert_and_publish_trace create_verdict_def)
    next
      case stored: None
      show ?thesis
      proof (cases "sa_err E (?p @ [SInsert n, publish_call U n])")
        case (Some e)
        then show ?thesis using inv [OF Some] stored
          by (simp add: c None insert_and_publish_trace create_verdict_def)
      next
        case published: None
        have "create_verdict U E 202 (?p @ [SInsert n, publish_call U n])"
          unfolding create_verdict_def using p cr stored published by (metis (no_types))
        then show ?thesis using stored published
          by (simp add: c None insert_and_publish_trace)
      qed
    qed
  qed
qed

lemma CreateWithIdempotency_verdict:
  assumes "svc_env_ok E" and "list_all is_read h"
  shows "case CreateWithIdempotency U (traced_service E) inp k h of
      (Inl e, h') \<Rightarrow> create_verdict U E (if errors_Is e ErrInvalidInput then 400 else 500) h'
    | (Inr n, h') \<Rightarrow> create_verdict U E 202 h'"
proof -
  let ?h = "h @ [SLookup k]"
  have p: "list_all is_read ?h" using assms(2) by simp
  show ?thesis
  proof (cases "sa_row E ?h")
    case (Inr n)
    then have "create_verdict U E 202 ?h" using assms(2) by (auto simp: create_verdict_def)
    then show ?thesis using Inr by (simp add: CreateWithIdempotency_def)
  next
    case (Inl e)
    then have "\<not> errors_Is e ErrInvalidInput" using assms(1) by (simp add: svc_env_ok_def)
    then show ?thesis
      using Inl Create_verdict [OF assms(1) p, of U "inp\<lparr>in_IdempotencyKey := Some k\<rparr>"] reads_no_publish [OF p]
      by (auto simp: CreateWithIdempotency_def create_verdict_def [of U E 500] split: prod.split sum.split)
  qed
qed

lemma create_failed_status:
  "rs_Status (create_failed e msg empty_response) = Some (if errors_Is e ErrInvalidInput then 400 else 500)"
  by (simp add: create_failed_def)

lemma rate_limited_status:
  "rs_Status (rate_limited d empty_response) = Some 429" "rs_Header (rate_limited d empty_response) ''Retry-After'' = Some (Itoa (ceil_seconds d))"
  by (simp_all add: rate_limited_def writeError_def writeJSON_def Let_def set_header_def split: option.split)

definition answered :: "uuid_lib \<Rightarrow> svc_env \<Rightarrow> response \<times> svc_call list \<Rightarrow> bool" where
  "answered U E a \<longleftrightarrow> (\<exists>s. rs_Status (fst a) = Some s \<and> create_verdict U E s (snd a))"

lemma create_allowed_answered:
  assumes "svc_env_ok E" and "list_all is_read h"
  shows "answered U E (create_allowed (traced_handler U E lim) (traced_http U E order) req x empty_response h)"
proof -
  obtain cid h1 where r: "request_cid (traced_http U E order) req h = (cid, h1)" by fastforce
  then have h1: "list_all is_read h1"
    using assms(2) by (auto simp: request_cid_def split: option.splits)
  note c = Create_verdict [OF assms(1) h1, of U "create_input cid x"]
  note ci = CreateWithIdempotency_verdict [OF assms(1) h1, of U "create_input cid x"]
  have acc: "rs_Status (fst (create_accepted (traced_handler U E lim) (traced_http U E order) n empty_response h)) = Some 202"
    "snd (create_accepted (traced_handler U E lim) (traced_http U E order) n empty_response h) = h" for n h
    by (simp_all add: create_accepted_def)
  show ?thesis
    unfolding answered_def create_allowed_def r Let_def prod.case create_with_key_def create_without_key_def traced_handler_simps service_port_simps
    using c ci [of "TrimSpace (rq_Header req ''Idempotency-Key'')"] h1
    by (auto simp: create_failed_status acc create_verdict_def [of U E 400]
        split: prod.splits sum.splits)
qed

text \<open>C11: \<open>POST /notifications\<close> is always answered with 202, 400, 429 or 500. 202 means that a valid
  pending notification was stored and then published, both with nil, or that the repository
  holds one under the idempotency key; 500 that no publication was confirmed; 400 and 429 that
  nothing was stored or published.\<close>

theorem create_answers:
  assumes "svc_env_ok E"
  shows "let (r, h) = create (traced_handler U E lim) (traced_http U E order) req empty_response [] in
    case rs_Status r of Some s \<Rightarrow> s \<in> {202, 400, 429, 500} \<and> create_verdict U E s h | None \<Rightarrow> False"
proof -
  let ?a = "create (traced_handler U E lim) (traced_http U E order) req empty_response []"
  have s: "create_verdict U E s h \<Longrightarrow> s \<in> {202, 400, 429, 500}" for s h
    by (auto simp: create_verdict_def split: if_splits)
  have "answered U E ?a"
  proof (cases "DecodeLimited (2 ^ 20) create_fields createNotificationRequest_zero (rq_Body req)")
    case None
    then show ?thesis unfolding create_def None by (simp add: answered_def create_verdict_def)
  next
    case (Some x)
    note allowed = create_allowed_answered [OF assms, of "[]" U lim order req x]
    show ?thesis
    proof (cases lim)
      case None
      then show ?thesis using allowed unfolding create_def Some by simp
    next
      case lim: (Some l)
      show ?thesis using allowed unfolding create_def Some lim
        by (cases "l (cr_Channel x) 1 []")
          (auto simp: answered_def create_verdict_def [of U E 429] rate_limited_status)
    qed
  qed
  then show ?thesis using s by (auto simp: answered_def split: prod.split)
qed

text \<open>A request that is accepted.\<close>

definition sample_request :: request where
  "sample_request =
     \<lparr>rq_Method = ''POST'', rq_Header = (\<lambda>_. []), rq_Query = (\<lambda>_. []), rq_Param = (\<lambda>_. []), rq_Route = ''/notifications'',
      rq_Body = encode_object [(''to'', ''+905551112233''), (''channel'', ''sms''), (''content'', ''hello'')],
      rq_CorrelationID = None, rq_RequestID = None\<rparr>"

lemma sample_env_ok: "svc_env_ok sample_env"
  by (simp add: svc_env_ok_def sample_env_def ErrNotFound_def ErrInvalidInput_def)

theorem create_answers_witness:
  "let (r, h) = create (traced_handler binary_uuid sample_env None) (traced_http binary_uuid sample_env (\<lambda>chs h. chs))
       sample_request empty_response [] in
    case rs_Status r of Some s \<Rightarrow> s \<in> {202, 400, 429, 500} \<and> create_verdict binary_uuid sample_env s h | None \<Rightarrow> False"
  by (rule create_answers [OF sample_env_ok])

section \<open>Creating many\<close>

text \<open>The notification the service builds from an item of the request: its fields with the default
  priority, pending, in the batch, under the correlation id of the request if that has one.\<close>

definition built_from :: "uuid option \<Rightarrow> uuid \<Rightarrow> createNotificationRequest \<Rightarrow> Notification \<Rightarrow> bool" where
  "built_from cid b x n \<longleftrightarrow>
     n_Recipient n = cr_To x \<and> n_Channel n = cr_Channel x \<and> n_Content n = cr_Content x
     \<and> n_Priority n = default_priority (cr_Priority x) \<and> n_Status n = StatusPending \<and> n_BatchID n = Some b
     \<and> n_IdempotencyKey n = None
     \<and> (case cid of None \<Rightarrow> True | Some c \<Rightarrow> c = uuid_Nil \<or> n_CorrelationID n = c)"

definition batch_acceptable :: "createNotificationRequest list \<Rightarrow> bool" where
  "batch_acceptable xs \<longleftrightarrow> 1 \<le> length xs \<and> length xs \<le> 1000 \<and> list_all (\<lambda>x. Validate (item_notification x) = None) xs"

text \<open>Some channel of the batch does not get the tokens for its notifications.\<close>

definition batch_limited :: "(Channel \<Rightarrow> go_int \<Rightarrow> svc_call list \<Rightarrow> bool \<times> duration) option
     \<Rightarrow> createNotificationRequest list \<Rightarrow> bool" where
  "batch_limited lim xs \<longleftrightarrow>
     (case lim of None \<Rightarrow> False | Some l \<Rightarrow> list_ex (\<lambda>x. \<not> fst (l (cr_Channel x) (channel_count xs (cr_Channel x)) [])) xs)"

text \<open>The answer to a batch of \<open>xs\<close>, \<open>None\<close> for a body that cannot be decoded, and the calls made for it.\<close>

definition batch_verdict :: "uuid_lib \<Rightarrow> svc_env \<Rightarrow> uuid option \<Rightarrow> bool \<Rightarrow> createNotificationRequest list option
     \<Rightarrow> response \<Rightarrow> svc_call list \<Rightarrow> bool" where
  "batch_verdict U E cid limited decoded r h \<longleftrightarrow>
     (case decoded of
        None \<Rightarrow> rs_Status r = Some 400 \<and> h = []
      | Some xs \<Rightarrow>
          if \<not> batch_acceptable xs then rs_Status r = Some 400 \<and> h = []
          else if limited then rs_Status r = Some 429 \<and> h = []
          else (\<exists>q b ns. list_all is_newID q \<and> list_all2 (built_from cid b) xs ns \<and> list_all creatable ns
             \<and> (if sa_err E (q @ [SInsertBatch b ns]) = None
                then h = q @ SInsertBatch b ns # map (publish_call U) ns
                  \<and> (\<exists>t. r = writeJSON 202 (batchCreateResponse U b (int (length xs)) t) empty_response)
                else h = q @ [SInsertBatch b ns] \<and> rs_Status r = Some 500)))"

text \<open>What was validated up front passes the validation of the service.\<close>

lemma item_valid: "Validate (new_notification i c b k t (create_input cid x)) = Validate (item_notification x)"
  by (simp add: new_notification_def create_input_def item_notification_def Notification_zero_def Validate_def)

lemma built_new:
  assumes "case cid of None \<Rightarrow> True | Some c' \<Rightarrow> c' = uuid_Nil \<or> c = c'"
  shows "built_from cid b x (new_notification i c (Some b) None t (create_input c0 x))"
  using assms by (simp add: built_from_def new_notification_def create_input_def split: option.splits)

lemma build_batch_built:
  assumes "list_all (\<lambda>x. Validate (item_notification x) = None) xs"
    and "case cid of None \<Rightarrow> True | Some c \<Rightarrow> c0 = c"
  shows "\<exists>q ns. build_batch (traced_service E) b now i (map (create_input c0) xs) h = (Inr ns, h @ q)
    \<and> list_all is_newID q \<and> list_all2 (built_from cid b) xs ns \<and> list_all creatable ns"
  using assms(1)
proof (induction xs arbitrary: h i)
  case (Cons x xs)
  define q1 where "q1 = (if c0 = uuid_Nil then [SNewID] else []) @ [SNewID]"
  define c where "c = (if c0 = uuid_Nil then sa_id E (h @ [SNewID]) else c0)"
  define n where "n = new_notification (sa_id E (h @ q1)) c (Some b) None now (create_input c0 x)"
  have v: "Validate n = None" using Cons.prems by (simp add: n_def item_valid)
  obtain q ns where rest: "build_batch (traced_service E) b now (i + 1) (map (create_input c0) xs) (h @ q1) = (Inr ns, (h @ q1) @ q)"
    "list_all is_newID q" "list_all2 (built_from cid b) xs ns" "list_all creatable ns"
    using Cons.IH [of "i + 1" "h @ q1"] Cons.prems by auto
  have corr: "in_CorrelationID (create_input c x) = c" for c by (simp add: create_input_def)
  have "build_batch (traced_service E) b now i (map (create_input c0) (x # xs)) h = (Inr (n # ns), h @ q1 @ q)"
    using v rest(1) by (cases "c0 = uuid_Nil") (simp_all add: corr q1_def c_def n_def Let_def)
  moreover have "built_from cid b x n" unfolding n_def
    by (rule built_new) (use assms(2) in \<open>auto simp: c_def split: option.splits\<close>)
  moreover have "creatable n" using v unfolding n_def by (rule creatable_new)
  moreover have "list_all is_newID (q1 @ q)" using rest(2) by (simp add: q1_def)
  ultimately show ?case using rest(3,4) by (intro exI [of _ "q1 @ q"] exI [of _ "n # ns"]) simp
qed simp

lemma CreateBatch_built:
  assumes "list_all (\<lambda>x. Validate (item_notification x) = None) xs"
    and "case cid of None \<Rightarrow> True | Some c \<Rightarrow> c0 = c"
  shows "\<exists>q b ns. list_all is_newID q \<and> list_all2 (built_from cid b) xs ns \<and> list_all creatable ns
    \<and> CreateBatch U (traced_service E) (map (create_input c0) xs) h
      = (case sa_err E (h @ q @ [SInsertBatch b ns]) of
           Some e \<Rightarrow> (Inl (ErrorWrap ''insert batch: '' e []), h @ q @ [SInsertBatch b ns])
         | None \<Rightarrow> (Inr (b, ns), h @ q @ SInsertBatch b ns # map (publish_call U) ns))"
proof -
  define b where "b = sa_id E (h @ [SNewID])"
  obtain q ns where "build_batch (traced_service E) b (sa_now E (h @ [SNewID])) 0 (map (create_input c0) xs) (h @ [SNewID])
      = (Inr ns, (h @ [SNewID]) @ q)" "list_all is_newID q" "list_all2 (built_from cid b) xs ns" "list_all creatable ns"
    using build_batch_built [OF assms] by blast
  then show ?thesis
    by (intro exI [of _ "SNewID # q"] exI [of _ b] exI [of _ ns])
      (simp add: CreateBatch_def Let_def b_def [symmetric] publish_all_trace split: option.split)
qed

lemma batch_verdict_inserted:
  assumes "batch_acceptable xs" and "list_all is_newID q" and "list_all2 (built_from cid b) xs ns" and "list_all creatable ns"
    and "if sa_err E (q @ [SInsertBatch b ns]) = None
         then h = q @ SInsertBatch b ns # map (publish_call U) ns
           \<and> (\<exists>t. r = writeJSON 202 (batchCreateResponse U b (int (length xs)) t) empty_response)
         else h = q @ [SInsertBatch b ns] \<and> rs_Status r = Some 500"
  shows "batch_verdict U E cid False (Some xs) r h"
  unfolding batch_verdict_def option.case using assms by (simp only: simp_thms if_False) blast

lemma batch_allowed_verdict:
  assumes "svc_env_ok E" and "batch_acceptable xs"
  shows "case batch_allowed (traced_handler U E lim) (traced_http U E order) req xs empty_response [] of
     (r, h) \<Rightarrow> batch_verdict U E (uuid_Parse U (correlationIDFrom req)) False (Some xs) r h"
proof -
  obtain c0 h1 where r: "request_cid (traced_http U E order) req [] = (c0, h1)" by fastforce
  then have h1: "list_all is_newID h1" and c0: "case uuid_Parse U (correlationIDFrom req) of None \<Rightarrow> True | Some c \<Rightarrow> c0 = c"
    by (auto simp: request_cid_def split: option.splits)
  have silent: "fold (\<lambda>n. nh_emit (traced_handler U E lim) (m n)) ns h = h" for m ns h
    by (induction ns) simp_all
  have valid: "list_all (\<lambda>x. Validate (item_notification x) = None) xs" using assms(2) by (simp add: batch_acceptable_def)
  obtain q b ns where c: "list_all is_newID q" "list_all2 (built_from (uuid_Parse U (correlationIDFrom req)) b) xs ns"
    "list_all creatable ns"
    "CreateBatch U (traced_service E) (map (create_input c0) xs) h1
      = (case sa_err E (h1 @ q @ [SInsertBatch b ns]) of
           Some e \<Rightarrow> (Inl (ErrorWrap ''insert batch: '' e []), h1 @ q @ [SInsertBatch b ns])
         | None \<Rightarrow> (Inr (b, ns), h1 @ q @ SInsertBatch b ns # map (publish_call U) ns))"
    using CreateBatch_built [OF valid c0] by blast
  note run = batch_allowed_def r Let_def prod.case traced_handler_simps service_port_simps c(4)
  have len: "length ns = length xs" using c(2) by (simp add: list_all2_lengthD)
  have new: "list_all is_newID (h1 @ q)" using h1 c(1) by simp
  show ?thesis
  proof (cases "sa_err E (h1 @ q @ [SInsertBatch b ns])")
    case (Some e)
    then have "\<not> errors_Is e ErrInvalidInput" using assms(1) by (simp add: svc_env_ok_def)
    then show ?thesis unfolding run
      using Some by (simp, intro batch_verdict_inserted [OF assms(2) new c(2,3)]) (simp add: create_failed_status)
  next
    case None
    then show ?thesis unfolding run silent
      using len by (simp add: silent, intro batch_verdict_inserted [OF assms(2) new c(2,3)]) auto
  qed
qed

lemma ask_limits_pure:
  "snd (ask_limits (\<lambda>ch n h. (l ch n h, h)) cnt chs acc h) = h"
  "fst (fst (ask_limits (\<lambda>ch n h. (l ch n h, h)) cnt chs acc h)) \<longleftrightarrow> fst acc \<or> list_ex (\<lambda>ch. \<not> fst (l ch (cnt ch) h)) chs"
  by (induction chs arbitrary: acc) (force split: prod.split)+

lemma batch_checked_verdict:
  assumes "svc_env_ok E" and "\<And>chs h. set (order chs h) = set chs" and "batch_acceptable xs"
  shows "case batch_checked (traced_handler U E lim) (traced_http U E order) req xs empty_response [] of
     (r, h) \<Rightarrow> batch_verdict U E (uuid_Parse U (correlationIDFrom req)) (batch_limited lim xs) (Some xs) r h"
proof (cases lim)
  case None
  then show ?thesis using batch_allowed_verdict [OF assms(1,3), where U = U and lim = lim and order = order and req = req]
    by (simp add: batch_checked_def batch_limited_def split_beta)
next
  case lim: (Some l)
  let ?V = "traced_http U E order"
  let ?chs = "he_order ?V (channels_of xs) []"
  have silent: "fold (\<lambda>ch h. h) chs h = h" for chs :: "Channel list" and h :: "svc_call list"
    by (induction chs) simp_all
  obtain ok mx h where a: "ask_limits (\<lambda>ch n h. (l ch n h, h)) (channel_count xs) ?chs (False, 0) [] = ((ok, mx), h)"
    by (cases "ask_limits (\<lambda>ch n h. (l ch n h, h)) (channel_count xs) ?chs (False, 0) []") auto
  have "h = []" "ok \<longleftrightarrow> list_ex (\<lambda>ch. \<not> fst (l ch (channel_count xs ch) [])) ?chs"
    using ask_limits_pure [of l "channel_count xs" ?chs "(False, 0)" "[]"] a by simp_all
  moreover have "list_ex (\<lambda>ch. \<not> fst (l ch (channel_count xs ch) [])) ?chs \<longleftrightarrow> batch_limited lim xs"
    using assms(2) [of "channels_of xs" "[]"] by (simp add: lim batch_limited_def list_ex_iff channels_of_def traced_http_def)
  ultimately show ?thesis using batch_allowed_verdict [OF assms(1,3), where U = U and lim = lim and order = order and req = req] assms(3)
    unfolding lim batch_checked_def traced_handler_simps option.case Let_def a prod.case
    by (cases ok) (simp_all add: silent batch_verdict_def rate_limited_status)
qed

lemma validation_errors_none: "validation_errors i xs = [] \<longleftrightarrow> list_all (\<lambda>x. Validate (item_notification x) = None) xs"
  by (induction xs arbitrary: i) (auto split: option.splits)

text \<open>C10: \<open>POST /notifications/batch\<close> is all or nothing. A body that is not a batch of 1 to 1000 valid
  notifications is answered 400, and a batch of which one channel is refused by the rate limiter
  429, with nothing stored and nothing published. Any other batch is stored by one insert of
  exactly the notifications of the request, one for each item, in order and with its fields; if
  the insert fails the answer is 500 and nothing is published, else each stored notification is
  published once and the answer is 202 with their number.\<close>

theorem createBatch_all_or_nothing:
  assumes "svc_env_ok E" and "\<And>chs h. set (order chs h) = set chs"
  shows "let decoded = map_option batch_Notifications (DecodeLimited (10 * 2 ^ 20) batch_fields ([], 0) (rq_Body req));
             (r, h) = createBatch (traced_handler U E lim) (traced_http U E order) req empty_response []
    in batch_verdict U E (uuid_Parse U (correlationIDFrom req)) (batch_limited lim (the decoded)) decoded r h"
proof (cases "DecodeLimited (10 * 2 ^ 20) batch_fields ([], 0) (rq_Body req)")
  case None
  then show ?thesis unfolding createBatch_def None by (simp add: batch_verdict_def)
next
  case (Some b)
  let ?xs = "batch_Notifications b"
  show ?thesis
  proof (cases "batch_acceptable ?xs")
    case False
    then show ?thesis unfolding createBatch_def Some batch_acceptable_def
      by (auto simp: batch_verdict_def batch_acceptable_def maxBatchSize_def Let_def Suc_le_eq not_le
          validation_errors_none)
  next
    case True
    then have "length ?xs \<noteq> 0" "\<not> maxBatchSize < length ?xs" "validation_errors 0 ?xs = []"
      by (auto simp: batch_acceptable_def maxBatchSize_def validation_errors_none)
    then show ?thesis using batch_checked_verdict [OF assms True, where U = U and lim = lim and req = req]
      unfolding createBatch_def Some by (simp add: Let_def)
  qed
qed

text \<open>A batch of one notification, which is accepted.\<close>

definition one_batch :: go_string where
  "one_batch = CHR ''{'' # encode_string ''notifications'' @ '':['' @ encode_object
      [(''to'', ''+905551112233''), (''channel'', ''sms''), (''content'', ''hello'')] @ '']}''"

definition one_item :: createNotificationRequest where
  "one_item = \<lparr>cr_To = ''+905551112233'', cr_Channel = ''sms'', cr_Content = ''hello'', cr_Priority = []\<rparr>"

lemma one_batch_decoded: "DecodeLimited (10 * 2 ^ 20) batch_fields ([], 0) one_batch = Some ([one_item], 1)"
proof -
  have p: "parse_prefix one_batch = Some (JObj [(''notifications'', JArr [JObj
      [(''to'', JStr ''+905551112233''), (''channel'', JStr ''sms''), (''content'', JStr ''hello'')]])], [])"
    by code_simp
  have l: "length one_batch = 76" by code_simp
  then have t: "take (10 * 2 ^ 20) one_batch = one_batch" by simp
  show ?thesis unfolding DecodeLimited_def t p by (simp add: l) code_simp
qed

lemma one_item_valid: "validation_errors 0 [one_item] = []"
proof -
  have "Validate (item_notification one_item) = Validate sample_new"
    by (simp add: item_notification_def one_item_def sample_new_def new_notification_def sample_input_def
        Notification_zero_def Validate_def)
  then show ?thesis using sample_new_valid by simp
qed

theorem createBatch_all_or_nothing_witness:
  "let (r, h) = createBatch (traced_handler binary_uuid sample_env None) (traced_http binary_uuid sample_env (\<lambda>chs h. chs))
       (sample_request\<lparr>rq_Body := one_batch\<rparr>) empty_response []
   in rs_Status r = Some 202
    \<and> batch_verdict binary_uuid sample_env (uuid_Parse binary_uuid []) False (Some [one_item]) r h"
proof -
  let ?c = "createBatch (traced_handler binary_uuid sample_env None) (traced_http binary_uuid sample_env (\<lambda>chs h. chs))
      (sample_request\<lparr>rq_Body := one_batch\<rparr>) empty_response []"
  obtain r h where c: "?c = (r, h)" by fastforce
  have v: "batch_verdict binary_uuid sample_env (uuid_Parse binary_uuid []) False (Some [one_item]) r h"
    using createBatch_all_or_nothing [OF sample_env_ok, where order = "\<lambda>chs h. chs" and U = binary_uuid and lim = None
        and req = "sample_request\<lparr>rq_Body := one_batch\<rparr>"] c
    by (simp add: one_batch_decoded [simplified] batch_Notifications_def batch_limited_def correlationIDFrom_def sample_request_def)
  moreover have "batch_acceptable [one_item]"
    using one_item_valid validation_errors_none [of 0 "[one_item]"] by (simp add: batch_acceptable_def)
  ultimately have "rs_Status r = Some 202" by (auto simp: batch_verdict_def sample_env_def empty_response_def)
  then show ?thesis using v c by simp
qed

end
