(* ===== verification/System.thy ===== *)
theory System
  imports Worker Provider_Properties Postgres_Ports Service_Properties
begin

text \<open>
  The two processes wired as in \<open>cmd/api/main.go\<close> and \<open>cmd/worker/main.go\<close>, over one world: the
  database, the messages the broker has accepted, the requests the webhook has received and the
  state of the circuit breakers. What is outside the program answers from a record of the
  environment, call by call.
\<close>

section \<open>The broker\<close>

text \<open>The answer to a publication: the write fails; the message is accepted and confirmed; it is
  refused; or no confirmation arrives, after the message was lost or after it was accepted.\<close>

datatype broker_answer =
    Write_fails go_string | Confirms | Nacks | Lost_message go_string | Lost_confirm go_string

type_synonym publication = "go_string \<times> go_string \<times> amqp_table \<times> go_string"

record mq =
  mq_log :: "publication list"
  mq_calls :: nat

definition mq_Publish ::
  "(nat \<Rightarrow> broker_answer) \<Rightarrow> go_string \<Rightarrow> go_string \<Rightarrow> bool \<Rightarrow> bool \<Rightarrow> Publishing \<Rightarrow> mq \<Rightarrow> (goerror + nat) \<times> mq" where
  "mq_Publish B ex key mandatory immediate msg q =
     (let k = mq_calls q; q' = q\<lparr>mq_calls := k + 1\<rparr>;
          accepted = q'\<lparr>mq_log := mq_log q @ [(ex, key, pub_Headers msg, pub_Body msg)]\<rparr>
      in case B k of
           Write_fails m \<Rightarrow> (Inl (ErrorText m), q')
         | Confirms \<Rightarrow> (Inr k, accepted)
         | Lost_confirm m \<Rightarrow> (Inr k, accepted)
         | Nacks \<Rightarrow> (Inr k, q')
         | Lost_message m \<Rightarrow> (Inr k, q'))"

definition mq_Wait :: "(nat \<Rightarrow> broker_answer) \<Rightarrow> nat \<Rightarrow> mq \<Rightarrow> (goerror + bool) \<times> mq" where
  "mq_Wait B k q =
     (case B k of
        Confirms \<Rightarrow> Inr True
      | Nacks \<Rightarrow> Inr False
      | Lost_message m \<Rightarrow> Inl (ErrorText m)
      | Lost_confirm m \<Rightarrow> Inl (ErrorText m)
      | Write_fails m \<Rightarrow> Inl (ErrorText m), q)"

definition mq_channel :: "(nat \<Rightarrow> broker_answer) \<Rightarrow> mq amqp_channel" where
  "mq_channel B =
     \<lparr>ch_Confirm = (\<lambda>q. (None, q)), ch_Publish = mq_Publish B, ch_WaitContext = mq_Wait B,
      ch_Now = (\<lambda>q. 0)\<rparr>"

text \<open>The publisher over this channel keeps the contract of a publisher with confirms.\<close>

definition send_publication :: "mq Publisher \<Rightarrow> publication \<Rightarrow> mq \<Rightarrow> goerror option \<times> mq" where
  "send_publication p m q = (case m of (ex, key, hs, body) \<Rightarrow> PublishToExchange p ex key hs body q)"

lemma send_publication_cases:
  assumes "send_publication \<lparr>p_ch = mq_channel B, p_exchange = ex0\<rparr> m q = (r, q')"
  shows "(r = None \<longrightarrow> mq_log q' = mq_log q @ [m])
    \<and> (r \<noteq> None \<longrightarrow> mq_log q' = mq_log q \<or> mq_log q' = mq_log q @ [m])"
proof -
  obtain ex key hs body where m: "m = (ex, key, hs, body)" by (cases m)
  show ?thesis using assms unfolding m
    by (cases "B (mq_calls q)")
      (auto simp: send_publication_def PublishToExchange_def mq_channel_def mq_Publish_def mq_Wait_def Let_def)
qed

interpretation mq_pub: confirming_publisher
  "send_publication \<lparr>p_ch = mq_channel B, p_exchange = ex0\<rparr>" mq_log for B ex0
  by unfold_locales (use send_publication_cases in \<open>blast+\<close>)

section \<open>The world\<close>

record 'c world =
  wd_pg :: pg
  wd_mq :: mq
  wd_posts :: "go_string list"
  wd_breakers :: 'c
  wd_ids :: nat
  wd_metrics :: "metric_op list"

record 'c outside =
  os_uuid :: uuid_lib
  os_server :: server
  os_broker :: "nat \<Rightarrow> broker_answer"
  os_build :: "go_string \<Rightarrow> goerror option"
  os_web :: "nat \<Rightarrow> goerror + go_int"
  os_breaker :: "Settings \<Rightarrow> 'c CircuitBreaker"
  os_ids :: "nat \<Rightarrow> uuid"
  os_now :: "'c world \<Rightarrow> time"
  os_ctx :: "'c world \<Rightarrow> goerror option"

text \<open>A function on one part of the world as a function on the world.\<close>

definition on_pg :: "(pg \<Rightarrow> 'a \<times> pg) \<Rightarrow> 'c world \<Rightarrow> 'a \<times> 'c world" where
  "on_pg f w = (case f (wd_pg w) of (r, p) \<Rightarrow> (r, w\<lparr>wd_pg := p\<rparr>))"

definition on_mq :: "(mq \<Rightarrow> 'a \<times> mq) \<Rightarrow> 'c world \<Rightarrow> 'a \<times> 'c world" where
  "on_mq f w = (case f (wd_mq w) of (r, q) \<Rightarrow> (r, w\<lparr>wd_mq := q\<rparr>))"

definition on_cb :: "('c \<Rightarrow> 'a \<times> 'c) \<Rightarrow> 'c world \<Rightarrow> 'a \<times> 'c world" where
  "on_cb f w = (case f (wd_breakers w) of (r, c) \<Rightarrow> (r, w\<lparr>wd_breakers := c\<rparr>))"

definition world_channel :: "'c outside \<Rightarrow> 'c world amqp_channel" where
  "world_channel X =
     \<lparr>ch_Confirm = on_mq (ch_Confirm (mq_channel (os_broker X))),
      ch_Publish = (\<lambda>ex key m i msg. on_mq (ch_Publish (mq_channel (os_broker X)) ex key m i msg)),
      ch_WaitContext = (\<lambda>k. on_mq (ch_WaitContext (mq_channel (os_broker X)) k)),
      ch_Now = os_now X\<rparr>"

definition world_client :: "'c outside \<Rightarrow> 'c world http_client" where
  "world_client X =
     \<lparr>hc_NewRequest = (\<lambda>m u. os_build X u),
      hc_Do = (\<lambda>t m u hs b w. (os_web X (length (wd_posts w)), w\<lparr>wd_posts := wd_posts w @ [b]\<rparr>))\<rparr>"

definition world_breaker :: "'c outside \<Rightarrow> Settings \<Rightarrow> 'c world CircuitBreaker" where
  "world_breaker X st =
     \<lparr>cb_admit = on_cb (cb_admit (os_breaker X st)),
      cb_report = (\<lambda>g r w. snd (on_cb (\<lambda>c. ((), cb_report (os_breaker X st) g r c)) w)),
      cb_State = on_cb (cb_State (os_breaker X st))\<rparr>"

section \<open>The repositories and publishers of the processes\<close>

text \<open>\<open>postgres.NewNotificationRepository\<close> and the other two constructors only keep the pool; the
  records pair the ports with the methods.\<close>

definition NewNotificationRepository :: "server \<Rightarrow> pg Repository" where
  "NewNotificationRepository F =
     \<lparr>repo_Insert = Insert F, repo_GetByID = GetByID F, repo_UpdateStatus = UpdateStatus F,
      repo_InsertBatch = InsertBatch F, repo_GetBatchSummary = GetBatchSummary F,
      repo_List = ListNotifications F, repo_CancelIfPending = CancelIfPending F,
      repo_GetByIdempotencyKey = GetByIdempotencyKey F\<rparr>"

definition world_repo :: "'c outside \<Rightarrow> 'c world Repository" where
  "world_repo X =
     (let R = NewNotificationRepository (os_server X)
      in \<lparr>repo_Insert = (\<lambda>n. on_pg (repo_Insert R n)), repo_GetByID = (\<lambda>i. on_pg (repo_GetByID R i)),
          repo_UpdateStatus = (\<lambda>i s. on_pg (repo_UpdateStatus R i s)),
          repo_InsertBatch = (\<lambda>b ns. on_pg (repo_InsertBatch R b ns)),
          repo_GetBatchSummary = (\<lambda>b. on_pg (repo_GetBatchSummary R b)),
          repo_List = (\<lambda>f p l. on_pg (repo_List R f p l)),
          repo_CancelIfPending = (\<lambda>i. on_pg (repo_CancelIfPending R i)),
          repo_GetByIdempotencyKey = (\<lambda>k. on_pg (repo_GetByIdempotencyKey R k))\<rparr>)"

definition NewProcessedRepository :: "server \<Rightarrow> pg ProcessedMarker" where
  "NewProcessedRepository F =
     \<lparr>MarkIfUnprocessed = Repo_MarkIfUnprocessed F, DeleteProcessed = Repo_DeleteProcessed F\<rparr>"

definition world_marker :: "'c outside \<Rightarrow> 'c world ProcessedMarker" where
  "world_marker X =
     (let R = NewProcessedRepository (os_server X)
      in \<lparr>MarkIfUnprocessed = (\<lambda>i. on_pg (MarkIfUnprocessed R i)),
          DeleteProcessed = (\<lambda>i. on_pg (DeleteProcessed R i))\<rparr>)"

definition NewRetryPublisherAdapter :: "'w Publisher \<Rightarrow> 'w RetryPublisher" where
  "NewRetryPublisherAdapter p =
     \<lparr>PublishRetry = Adapter_PublishRetry p, PublishDLQ = Adapter_PublishDLQ p\<rparr>"

definition world_publisher :: "'c outside \<Rightarrow> 'c world Publisher" where
  "world_publisher X = \<lparr>p_ch = world_channel X, p_exchange = ExchangeNotifications\<rparr>"

section \<open>The processes\<close>

text \<open>\<open>app.NewNotificationService(repo, publisher)\<close> with the clock and \<open>uuid.New\<close>.\<close>

definition NewNotificationService ::
  "'w Repository \<Rightarrow> 'w MessagePublisher \<Rightarrow> ('w \<Rightarrow> time) \<Rightarrow> ('w \<Rightarrow> uuid \<times> 'w) \<Rightarrow> 'w NotificationService" where
  "NewNotificationService repo publisher now newID =
     \<lparr>svc_repo = repo, svc_publisher = publisher, svc_now = now, svc_newID = newID\<rparr>"

definition api_service :: "'c outside \<Rightarrow> 'c world NotificationService" where
  "api_service X =
     NewNotificationService (world_repo X) (Publish (world_publisher X)) (os_now X)
       (\<lambda>w. (os_ids X (wd_ids w), w\<lparr>wd_ids := wd_ids w + 1\<rparr>))"

text \<open>The use case of the worker, \<open>None\<close> if a channel were registered twice.\<close>

definition worker_use_case :: "'c outside \<Rightarrow> WebhookOptions \<Rightarrow> CBConfig \<Rightarrow> 'c world DeliverUseCase option" where
  "worker_use_case X opts cbCfg =
     (let webhook = Webhook_Send (os_uuid X) (world_client X) (NewWebhookProvider opts) (os_ctx X)
      in map_option (\<lambda>reg.
           let cbReg = NewCircuitBreakerRegistry (world_breaker X) reg cbCfg;
               u = NewDeliverUseCase (CircuitBreakerRegistry_Send cbReg (os_ctx X)) (repo_UpdateStatus (world_repo X));
               u = WithProcessedMarker (world_marker X) u;
               u = WithRetryPublisher (NewRetryPublisherAdapter (world_publisher X)) u;
               u = WithAttemptRecorder (\<lambda>i a s e p. on_pg (RecordAttempt (os_server X) i a s e p)) u
           in WithMetrics (\<lambda>m w. w\<lparr>wd_metrics := wd_metrics w @ [m]\<rparr>) u)
         (worker_registry webhook))"

text \<open>The handler each consumer of the worker runs on its deliveries.\<close>

definition worker_deliver :: "'c outside \<Rightarrow> WebhookOptions \<Rightarrow> CBConfig \<Rightarrow> Delivery \<Rightarrow> 'c world \<Rightarrow> goerror option \<times> 'c world" where
  "worker_deliver X opts cbCfg =
     worker_handler (os_uuid X) (the (worker_use_case X opts cbCfg)) (os_ctx X)"

end
