(* ===== verification/First_Delivery.thy ===== *)
theory First_Delivery
  imports System
begin

text \<open>
  What deduplication gives the whole worker: however often the broker hands it the first
  delivery of a message, and whatever fails, the webhook is asked to send that message at most
  once. The client lemmas hold for any use case over a dedup store that keeps its contract; the
  worker of \<open>cmd/worker/main.go\<close> over the database is an instance.
\<close>

section \<open>A worker over a dedup store\<close>

definition keeps_view :: "('w \<Rightarrow> 'v) \<Rightarrow> ('w \<Rightarrow> 'a \<times> 'w) \<Rightarrow> bool" where
  "keeps_view view f \<longleftrightarrow> (\<forall>w. view (snd (f w)) = view w)"

lemma keeps_viewD: "keeps_view view f \<Longrightarrow> f w = (r, w') \<Longrightarrow> view w' = view w"
  unfolding keeps_view_def by (metis snd_conv)

locale dedup_worker = dedup_store mark delete seen
  for mark delete and seen :: "'w \<Rightarrow> uuid set" +
  fixes posts :: "'w \<Rightarrow> go_string list"
    and body_of :: "Notification \<Rightarrow> go_string"
    and u :: "'w DeliverUseCase"
  assumes wired: "uc_processed u = Some \<lparr>MarkIfUnprocessed = mark, DeleteProcessed = delete\<rparr>"
    and mark_posts: "keeps_view posts (mark i)"
    and send_seen: "keeps_view seen (uc_provider u n)"
    and send_posts: "posts (snd (uc_provider u n w)) \<in> {posts w, posts w @ [body_of n]}"
    and update_frame: "keeps_view (\<lambda>w. (seen w, posts w)) (uc_updater u i s)"
    and retry_frame: "uc_retryPublisher u = Some rp
        \<Longrightarrow> keeps_view (\<lambda>w. (seen w, posts w)) (PublishRetry rp ch p l a corr body)"
    and dlq_frame: "uc_retryPublisher u = Some rp
        \<Longrightarrow> keeps_view (\<lambda>w. (seen w, posts w)) (PublishDLQ rp ch a corr key body)"
    and attempts_frame: "uc_attempts u = Some record_row
        \<Longrightarrow> keeps_view (\<lambda>w. (seen w, posts w)) (record_row i a s e p)"
    and metrics_frame: "uc_metrics u = Some f \<Longrightarrow> seen (f m w) = seen w \<and> posts (f m w) = posts w"
begin

definition view :: "'w \<Rightarrow> uuid set \<times> go_string list" where
  "view w = (seen w, posts w)"

lemmas view_frames = update_frame [folded view_def] retry_frame [folded view_def]
  dlq_frame [folded view_def] attempts_frame [folded view_def]

lemma emit_view [simp]: "view (emit u m w) = view w"
  using metrics_frame by (auto simp: emit_def view_def split: option.split)

lemma record_view [simp]: "view (recordAttempt u i a s e p w) = view w"
  using view_frames(4) by (auto simp: recordAttempt_def keeps_view_def split: option.split)

lemma on_sent_view: "view (snd (on_sent u msg a w)) = view w"
  using keeps_viewD [OF view_frames(1)]
  by (auto simp: on_sent_def Let_def split: prod.split option.split)

lemma on_send_error_view: "view (snd (on_send_error u ctx body corr 0 key msg e w)) = view w"
  using keeps_viewD [OF view_frames(1)] keeps_viewD [OF view_frames(2)]
  by (auto simp: on_send_error_def fail_without_retry_def route_retry_def maxAttempts_def Let_def
      split: option.split prod.split)

lemma send_and_route_view:
  "fst (view (snd (send_and_route u ctx body corr 0 key msg w))) = seen w
   \<and> snd (view (snd (send_and_route u ctx body corr 0 key msg w))) \<in> {posts w, posts w @ [body_of (ToNotification msg)]}"
proof -
  obtain r w1 where s: "uc_provider u (ToNotification msg) w = (r, w1)" by fastforce
  have "view (snd (send_and_route u ctx body corr 0 key msg w)) = view w1"
    using on_sent_view on_send_error_view by (cases r) (simp_all add: send_and_route_def s)
  then show ?thesis
    using keeps_viewD [OF send_seen s] send_posts [of "ToNotification msg" w] s by (simp add: view_def)
qed

text \<open>One first delivery: ids are only added to the store, and a post is for an id that was new.\<close>

definition first_step :: "'w \<Rightarrow> 'w \<Rightarrow> bool" where
  "first_step w w' \<longleftrightarrow> seen w \<subseteq> seen w'
     \<and> (posts w' = posts w \<or> (\<exists>n. posts w' = posts w @ [body_of n] \<and> n_ID n \<notin> seen w \<and> n_ID n \<in> seen w'))"

lemma handle_message_first: "first_step w (snd (handle_message u ctx body corr 0 key msg w))"
proof (cases "mark (m_ID msg) w")
  case (Pair r w1)
  have p: "posts w1 = posts w" using keeps_viewD [OF mark_posts Pair] .
  have ID: "n_ID (ToNotification msg) = m_ID msg" by (simp add: ToNotification_def)
  show ?thesis
  proof (cases r)
    case (Inl e)
    then show ?thesis using Pair p mark_error [of "m_ID msg" w e w1]
      by (auto simp: handle_message_def wired first_step_def)
  next
    case (Inr b)
    have m: "b = (m_ID msg \<notin> seen w)" "seen w1 = insert (m_ID msg) (seen w)"
      using mark_answer [of "m_ID msg" w b w1] Pair Inr by auto
    show ?thesis
    proof (cases b)
      case True
      then have "snd (handle_message u ctx body corr 0 key msg w) = snd (send_and_route u ctx body corr 0 key msg w1)"
        using Pair Inr by (simp add: handle_message_def wired)
      then show ?thesis using send_and_route_view [of ctx body corr key msg w1] m p True ID
        unfolding first_step_def view_def by fastforce
    next
      case False
      then show ?thesis using Pair Inr p m by (auto simp: handle_message_def wired first_step_def)
    qed
  qed
qed

lemma first_step_cong: "view w1 = view w \<Longrightarrow> view w2 = view w' \<Longrightarrow> first_step w1 w' = first_step w w2"
  by (simp add: first_step_def view_def)

lemma Handle_first: "first_step w (snd (Handle U u ctx body corr 0 key w))"
proof (cases "Unmarshal U body")
  case None
  have "view (snd (Handle U u ctx body corr 0 key w)) = view w"
    using keeps_viewD [OF view_frames(3)]
    by (auto simp: Handle_def None Let_def split: option.split prod.split)
  then show ?thesis by (simp add: first_step_def view_def)
next
  case (Some msg)
  let ?w0 = "emit u (MInc NotificationsInFlight []) w"
  let ?w1 = "snd (handle_message u ctx body corr 0 key msg ?w0)"
  have e: "snd (Handle U u ctx body corr 0 key w) = emit u (MDec NotificationsInFlight []) ?w1"
    by (simp add: Handle_def Some Let_def split_beta)
  have "first_step ?w0 ?w1" by (rule handle_message_first)
  then show ?thesis unfolding e using first_step_cong [of ?w0 w "emit u (MDec NotificationsInFlight []) ?w1" ?w1]
    by simp
qed

text \<open>Any sequence of first deliveries.\<close>

lemma first_steps:
  assumes "\<And>d w. d \<in> set ds \<Longrightarrow> first_step w (deliver d w)"
  shows "\<exists>ns. posts (fold deliver ds w) = posts w @ map body_of ns \<and> distinct (map n_ID ns)
    \<and> set (map n_ID ns) \<inter> seen w = {} \<and> set (map n_ID ns) \<subseteq> seen (fold deliver ds w) \<and> seen w \<subseteq> seen (fold deliver ds w)"
  using assms
proof (induction ds arbitrary: w)
  case Nil
  show ?case by (rule exI [of _ "[]"]) simp
next
  case (Cons d ds)
  let ?w1 = "deliver d w" and ?w2 = "fold deliver ds (deliver d w)"
  have s: "first_step w ?w1" using Cons.prems by simp
  obtain ns where ns: "posts ?w2 = posts ?w1 @ map body_of ns" "distinct (map n_ID ns)"
    "set (map n_ID ns) \<inter> seen ?w1 = {}" "set (map n_ID ns) \<subseteq> seen ?w2" "seen ?w1 \<subseteq> seen ?w2"
    using Cons.IH [of ?w1] Cons.prems by auto
  consider "posts ?w1 = posts w" | n where "posts ?w1 = posts w @ [body_of n]" "n_ID n \<notin> seen w" "n_ID n \<in> seen ?w1"
    using s by (auto simp: first_step_def)
  then show ?case
  proof cases
    case 1
    then show ?thesis using ns s by (intro exI [of _ ns]) (auto simp: first_step_def)
  next
    case (2 n)
    then show ?thesis using ns s by (intro exI [of _ "n # ns"]) (auto simp: first_step_def)
  qed
qed

end

section \<open>The worker over the database\<close>

text \<open>A session that has the database to itself, with every pattern of failing calls.\<close>

definition solo :: "'c outside \<Rightarrow> 'c outside" where
  "solo X = X\<lparr>os_server := alone (os_server X)\<rparr>"

lemma solo_simps [simp]:
  "os_server (solo X) = alone (os_server X)" "os_uuid (solo X) = os_uuid X" "os_ctx (solo X) = os_ctx X"
  "os_breaker (solo X) = os_breaker X" "os_web (solo X) = os_web X" "os_build (solo X) = os_build X"
  by (simp_all add: solo_def)

lemma on_frames [simp]:
  "wd_posts (snd (on_pg f w)) = wd_posts w" "wd_pg (snd (on_pg f w)) = snd (f (wd_pg w))" "fst (on_pg f w) = fst (f (wd_pg w))"
  "wd_posts (snd (on_mq g w)) = wd_posts w" "wd_pg (snd (on_mq g w)) = wd_pg w"
  "wd_posts (snd (on_cb h w)) = wd_posts w" "wd_pg (snd (on_cb h w)) = wd_pg w"
  "wd_mq (snd (on_pg f w)) = wd_mq w" "wd_mq (snd (on_cb h w)) = wd_mq w"
  by (simp_all add: on_pg_def on_mq_def on_cb_def split_beta)

lemma exec_processed:
  assumes "\<And>now d a d'. stmt now d = Inr (a, d') \<Longrightarrow> tb_processed d' = tb_processed d"
  shows "pg_seen (snd (exec (alone F) stmt w)) = pg_seen w"
proof (cases "exec (alone F) stmt w")
  case (Pair r w')
  then show ?thesis
  proof (cases rule: exec_cases)
    case (lost msg a)
    then show ?thesis using assms Pair by (simp add: pg_seen_def)
  next
    case (executed a)
    then show ?thesis using assms Pair by (simp add: pg_seen_def)
  qed (simp add: Pair pg_seen_def)
qed

lemma UpdateStatus_seen: "pg_seen (snd (UpdateStatus (alone F) i s w)) = pg_seen w"
proof -
  have "pg_seen (snd (exec (alone F) (sql_update_status s (\<lambda>n. n_ID n = i)) w)) = pg_seen w"
    by (rule exec_processed) (auto simp: sql_update_status_def split: if_splits)
  then show ?thesis by (simp add: UpdateStatus_def split_beta split: sum.split)
qed

lemma RecordAttempt_seen: "pg_seen (snd (RecordAttempt (alone F) i a s e p w)) = pg_seen w"
proof -
  have "pg_seen (snd (exec (alone F) (sql_insert_attempt i (sint a) s e p) w)) = pg_seen w"
    by (rule exec_processed) (auto simp: sql_insert_attempt_def split: if_splits)
  then show ?thesis by (simp add: RecordAttempt_def split_beta split: sum.split)
qed

lemma PublishToExchange_frame:
  "wd_pg (snd (PublishToExchange (world_publisher X) ex key hs b w)) = wd_pg w
   \<and> wd_posts (snd (PublishToExchange (world_publisher X) ex key hs b w)) = wd_posts w"
proof -
  let ?m = "\<lparr>pub_ContentType = ''application/json'', pub_Persistent = True, pub_Timestamp = os_now X w,
      pub_Headers = hs, pub_Body = b\<rparr>"
  obtain r w1 where p: "on_mq (ch_Publish (mq_channel (os_broker X)) ex key True False ?m) w = (r, w1)" by fastforce
  have 1: "wd_pg w1 = wd_pg w" "wd_posts w1 = wd_posts w" using p on_frames(4,5) by (metis snd_conv)+
  have 2: "wd_pg (snd (on_mq f w1)) = wd_pg w" "wd_posts (snd (on_mq f w1)) = wd_posts w"
    for f :: "mq \<Rightarrow> (goerror + bool) \<times> mq" using 1 by simp_all
  show ?thesis
    using 1 2 p by (cases r)
      (auto simp: PublishToExchange_def world_publisher_def world_channel_def Let_def split_beta split: sum.split)
qed

lemma Adapter_frame:
  "wd_pg (snd (Adapter_PublishRetry (world_publisher X) ch p l a corr b w)) = wd_pg w"
  "wd_posts (snd (Adapter_PublishRetry (world_publisher X) ch p l a corr b w)) = wd_posts w"
  "wd_pg (snd (Adapter_PublishDLQ (world_publisher X) ch a corr key b w)) = wd_pg w"
  "wd_posts (snd (Adapter_PublishDLQ (world_publisher X) ch a corr key b w)) = wd_posts w"
  using PublishToExchange_frame [of X ExchangeRetry _ _ b w] PublishToExchange_frame [of X ExchangeDLQ ch _ b w]
  by (simp_all add: Adapter_PublishRetry_def Adapter_PublishDLQ_def Let_def split_beta split: option.split)

abbreviation world_webhook :: "'c outside \<Rightarrow> WebhookOptions \<Rightarrow> 'c world Provider" where
  "world_webhook X opts \<equiv> Webhook_Send (os_uuid X) (world_client X) (NewWebhookProvider opts) (os_ctx X)"

definition world_provider :: "'c outside \<Rightarrow> WebhookOptions \<Rightarrow> CBConfig \<Rightarrow> 'c world Provider" where
  "world_provider X opts cfg =
     CircuitBreakerRegistry_Send (NewCircuitBreakerRegistry (world_breaker X)
       (\<lambda>ch. if Channel_Valid ch then Some (world_webhook X opts) else None) cfg) (os_ctx X)"

lemma worker_use_case_eq:
  "worker_use_case X opts cfg = Some
     \<lparr>uc_provider = world_provider X opts cfg,
      uc_updater = (\<lambda>i s. on_pg (UpdateStatus (os_server X) i s)),
      uc_processed = Some \<lparr>MarkIfUnprocessed = (\<lambda>i. on_pg (Repo_MarkIfUnprocessed (os_server X) i)),
        DeleteProcessed = (\<lambda>i. on_pg (Repo_DeleteProcessed (os_server X) i))\<rparr>,
      uc_retryPublisher = Some \<lparr>PublishRetry = Adapter_PublishRetry (world_publisher X),
        PublishDLQ = Adapter_PublishDLQ (world_publisher X)\<rparr>,
      uc_attempts = Some (\<lambda>i a s e p. on_pg (RecordAttempt (os_server X) i a s e p)),
      uc_metrics = Some (\<lambda>m w. w\<lparr>wd_metrics := wd_metrics w @ [m]\<rparr>)\<rparr>"
  by (simp add: worker_use_case_def worker_registry Let_def NewDeliverUseCase_def WithProcessedMarker_def
      WithRetryPublisher_def WithAttemptRecorder_def WithMetrics_def world_repo_def world_marker_def
      NewNotificationRepository_def NewProcessedRepository_def NewRetryPublisherAdapter_def world_provider_def)

definition world_body :: "'c outside \<Rightarrow> Notification \<Rightarrow> go_string" where
  "world_body X n = encode_object (webhook_payload (os_uuid X) n)"

lemma webhook_frame:
  "wd_pg (snd (world_webhook X opts n w)) = wd_pg w \<and> wd_mq (snd (world_webhook X opts n w)) = wd_mq w
   \<and> wd_posts (snd (world_webhook X opts n w)) \<in> {wd_posts w, wd_posts w @ [world_body X n]}"
  by (auto simp: Webhook_Send_def world_client_def world_body_def Let_def split: option.split sum.split)

lemma provider_frame:
  "wd_pg (snd (world_provider X opts cfg n w)) = wd_pg w \<and> wd_mq (snd (world_provider X opts cfg n w)) = wd_mq w
   \<and> wd_posts (snd (world_provider X opts cfg n w)) \<in> {wd_posts w, wd_posts w @ [world_body X n]}"
proof (cases "Channel_Valid (n_Channel n)")
  case False
  then show ?thesis
    by (simp add: world_provider_def CircuitBreakerRegistry_Send_def NewCircuitBreakerRegistry_def Registry_Send_def)
next
  case True
  let ?reg = "\<lambda>ch. if Channel_Valid ch then Some (world_webhook X opts) else None"
  let ?r = "NewCircuitBreakerRegistry (world_breaker X) ?reg cfg"
  let ?cb = "world_breaker X (breaker_settings cfg (n_Channel n))"
  have cb: "cbr_breakers ?r (n_Channel n) = Some ?cb" using True by (simp add: NewCircuitBreakerRegistry_def)
  obtain a w1 where a: "cb_admit ?cb w = (a, w1)" by fastforce
  have w1: "wd_pg w1 = wd_pg w" "wd_posts w1 = wd_posts w" "wd_mq w1 = wd_mq w"
    using a on_frames(6,7,9) unfolding world_breaker_def CircuitBreaker.simps by (metis snd_conv)+
  obtain r w2 where g: "guarded_request ?r (os_ctx X) n w1 = (r, w2)" by fastforce
  have w2: "wd_pg w2 = wd_pg w \<and> wd_mq w2 = wd_mq w \<and> wd_posts w2 \<in> {wd_posts w, wd_posts w @ [world_body X n]}"
  proof -
    have "w2 = snd (world_webhook X opts n w1)"
      using g True by (auto simp: guarded_request_def NewCircuitBreakerRegistry_def Registry_Send_def
          split: prod.splits option.splits if_splits)
    then show ?thesis using webhook_frame [of X opts n w1] w1 by simp
  qed
  have rep: "wd_pg (cb_report ?cb k r v) = wd_pg v" "wd_posts (cb_report ?cb k r v) = wd_posts v"
    "wd_mq (cb_report ?cb k r v) = wd_mq v" for k r v
    by (simp_all add: world_breaker_def)
  have "snd (Execute ?cb (guarded_request ?r (os_ctx X) n) w)
      = (case a of Inl _ \<Rightarrow> w1 | Inr k \<Rightarrow> cb_report ?cb k r w2)"
    by (cases a) (simp_all add: Execute_def a g)
  then have "wd_pg (snd (Execute ?cb (guarded_request ?r (os_ctx X) n) w)) = wd_pg w
      \<and> wd_mq (snd (Execute ?cb (guarded_request ?r (os_ctx X) n) w)) = wd_mq w
      \<and> wd_posts (snd (Execute ?cb (guarded_request ?r (os_ctx X) n) w)) \<in> {wd_posts w, wd_posts w @ [world_body X n]}"
    using w1 w2 rep by (cases a) simp_all
  moreover have "snd (world_provider X opts cfg n w) = snd (Execute ?cb (guarded_request ?r (os_ctx X) n) w)"
    by (simp add: world_provider_def CircuitBreakerRegistry_Send_def cb split: prod.split option.split)
  ultimately show ?thesis by simp
qed

interpretation first: dedup_worker
  "\<lambda>i. on_pg (Repo_MarkIfUnprocessed (alone (os_server X)) i)" "\<lambda>i. on_pg (Repo_DeleteProcessed (alone (os_server X)) i)"
  "\<lambda>w. pg_seen (wd_pg w)" wd_posts "world_body X" "the (worker_use_case (solo X) opts cfg)" for X opts cfg
proof unfold_locales
  fix i w b w'
  assume "on_pg (Repo_MarkIfUnprocessed (alone (os_server X)) i) w = (Inr b, w')"
  then show "b = (i \<notin> pg_seen (wd_pg w)) \<and> pg_seen (wd_pg w') = insert i (pg_seen (wd_pg w))"
    using pg_dedup.mark_answer by (fastforce simp: on_pg_def split: prod.splits)
next
  fix i w e w'
  assume "on_pg (Repo_MarkIfUnprocessed (alone (os_server X)) i) w = (Inl e, w')"
  then show "pg_seen (wd_pg w') = pg_seen (wd_pg w) \<or> pg_seen (wd_pg w') = insert i (pg_seen (wd_pg w))"
    using pg_dedup.mark_error by (fastforce simp: on_pg_def split: prod.splits)
next
  fix i w w'
  assume "on_pg (Repo_DeleteProcessed (alone (os_server X)) i) w = (None, w')"
  then show "pg_seen (wd_pg w') = pg_seen (wd_pg w) - {i}"
    using pg_dedup.delete_nil by (fastforce simp: on_pg_def split: prod.splits)
next
  fix i w e w'
  assume "on_pg (Repo_DeleteProcessed (alone (os_server X)) i) w = (Some e, w')"
  then show "pg_seen (wd_pg w') = pg_seen (wd_pg w) \<or> pg_seen (wd_pg w') = pg_seen (wd_pg w) - {i}"
    using pg_dedup.delete_error by (fastforce simp: on_pg_def split: prod.splits)
next
  fix n w
  show "wd_posts (snd (uc_provider (the (worker_use_case (solo X) opts cfg)) n w))
      \<in> {wd_posts w, wd_posts w @ [world_body X n]}"
    using provider_frame [of "solo X" opts cfg n w] by (simp add: worker_use_case_eq world_body_def)
qed (auto simp: worker_use_case_eq keeps_view_def provider_frame UpdateStatus_seen RecordAttempt_seen Adapter_frame)

end
