(* ===== verification/System_Properties.thy ===== *)
theory System_Properties
  imports First_Delivery
begin

text \<open>
  The two processes end to end: the way of one notification through API, broker and worker when
  nothing fails, and two ways in which a single failure or a cancellation gets past the parts
  that are meant to deal with it.
\<close>

section \<open>When nothing fails\<close>

text \<open>The database, the webhook and the breakers work and nothing is cancelled; the broker is left
  open.\<close>

definition calm :: "'c outside \<Rightarrow> bool" where
  "calm X \<longleftrightarrow> quiet_server (os_server X) \<and> uuid_lib_ok (os_uuid X)
     \<and> (\<forall>u. os_build X u = None) \<and> (\<forall>w. os_ctx X w = None)
     \<and> (\<forall>k. \<exists>s. os_web X k = Inr s \<and> 200 \<le> sint s \<and> sint s < 300)
     \<and> (\<forall>st c. \<exists>g c'. cb_admit (os_breaker X st) c = (Inr g, c'))"

lemma quiet_alone: "quiet_server F \<Longrightarrow> alone F = F"
  by (cases F) (simp add: quiet_server_def alone_def fun_eq_iff)

lemma calm_solo: "calm X \<Longrightarrow> solo X = X"
  by (cases X) (simp add: calm_def solo_def quiet_alone)

lemma provider_calm:
  assumes "calm X" and "Channel_Valid (n_Channel n)"
  shows "\<exists>w'. world_provider X opts cfg n w = (None, w') \<and> wd_posts w' = wd_posts w @ [world_body X n]
    \<and> wd_pg w' = wd_pg w \<and> wd_mq w' = wd_mq w"
proof -
  let ?st = "breaker_settings cfg (n_Channel n)"
  obtain g c where a: "cb_admit (os_breaker X ?st) (wd_breakers w) = (Inr g, c)"
    using assms(1) unfolding calm_def by blast
  obtain s where s: "os_web X (length (wd_posts w)) = Inr s" "200 \<le> sint s" "sint s < 300"
    using assms(1) unfolding calm_def by blast
  have b: "os_build X u = None" "os_ctx X v = None" for u v using assms(1) by (simp_all add: calm_def)
  show ?thesis
    using assms(2) s
    by (simp add: world_provider_def CircuitBreakerRegistry_Send_def NewCircuitBreakerRegistry_def Execute_def
        guarded_request_def Registry_Send_def world_breaker_def on_cb_def a Webhook_Send_def world_client_def b
        world_body_def Let_def)
qed

lemma mark_calm:
  assumes "quiet_server F" and "i \<notin> pg_seen p"
  shows "\<exists>p'. Repo_MarkIfUnprocessed F i p = (Inr True, p') \<and> tb_notifications (pg_db p') = tb_notifications (pg_db p)"
  using assms(2) by (simp add: Repo_MarkIfUnprocessed_def exec_quiet [OF assms(1)] sql_mark_def pg_seen_def)

lemma update_calm:
  assumes "quiet_server F" and "text_ok s" and "pg_status p i \<noteq> None"
  shows "\<exists>p'. UpdateStatus F i s p = (None, p') \<and> pg_status p' i = Some s"
proof -
  obtain r p' where u: "UpdateStatus F i s p = (r, p')" by fastforce
  have "\<exists>n \<in> set (tb_notifications (pg_db p)). n_ID n = i"
    using assms(3) by (auto simp: pg_status_def dest: find_Some_mem)
  then have r: "r = None"
    using u assms(2) by (auto simp: UpdateStatus_def exec_quiet [OF assms(1)] sql_update_status_def filter_empty_conv
        split: if_splits)
  have "UpdateStatus (alone F) i s p = (None, p')" using u r by (simp add: quiet_alone [OF assms(1)])
  then show ?thesis using u r pg_statuses.update_nil by fastforce
qed

lemma record_calm:
  assumes "quiet_server F"
  shows "tb_notifications (pg_db (snd (RecordAttempt F i a s e p w))) = tb_notifications (pg_db w)"
  by (simp add: RecordAttempt_def exec_quiet [OF assms] sql_insert_attempt_def)

text \<open>The ports of the wired use case.\<close>

lemma use_case_simps [simp]:
  "uc_provider (the (worker_use_case X opts cfg)) = world_provider X opts cfg"
  "uc_updater (the (worker_use_case X opts cfg)) i s = on_pg (UpdateStatus (os_server X) i s)"
  "uc_processed (the (worker_use_case X opts cfg)) = Some
     \<lparr>MarkIfUnprocessed = (\<lambda>i. on_pg (Repo_MarkIfUnprocessed (os_server X) i)),
      DeleteProcessed = (\<lambda>i. on_pg (Repo_DeleteProcessed (os_server X) i))\<rparr>"
  "emit (the (worker_use_case X opts cfg)) m w = w\<lparr>wd_metrics := wd_metrics w @ [m]\<rparr>"
  "recordAttempt (the (worker_use_case X opts cfg)) i a s e p w = snd (on_pg (RecordAttempt (os_server X) i a s e p) w)"
  by (simp_all add: worker_use_case_eq emit_def recordAttempt_def)

text \<open>What sending comes to when nothing fails, at any attempt.\<close>

lemma send_calm:
  assumes X: "calm X" and ch: "Channel_Valid (m_Channel msg)"
    and row: "pg_status (wd_pg w) (m_ID msg) \<noteq> None"
  shows "\<exists>w'. send_and_route (the (worker_use_case X opts cfg)) ctx body corr a key msg w = (None, w')
    \<and> wd_posts w' = wd_posts w @ [world_body X (ToNotification msg)]
    \<and> pg_status (wd_pg w') (m_ID msg) = Some StatusDelivered \<and> wd_mq w' = wd_mq w"
proof -
  let ?F = "os_server X" and ?u = "the (worker_use_case X opts cfg)" and ?i = "m_ID msg"
  have q: "quiet_server ?F" using X by (simp add: calm_def)
  have "Channel_Valid (n_Channel (ToNotification msg))" using ch by (simp add: ToNotification_def)
  then obtain w2 where w2: "world_provider X opts cfg (ToNotification msg) w = (None, w2)"
    "wd_posts w2 = wd_posts w @ [world_body X (ToNotification msg)]" "wd_pg w2 = wd_pg w" "wd_mq w2 = wd_mq w"
    using provider_calm [OF X, of "ToNotification msg" opts cfg w] by auto
  obtain p3 where p3: "UpdateStatus ?F ?i ''delivered'' (wd_pg w) = (None, p3)" "pg_status p3 ?i = Some ''delivered''"
    using update_calm [OF q, of "''delivered''" "wd_pg w" ?i] row by auto
  let ?p4 = "snd (RecordAttempt ?F ?i a ''success'' [] [] p3)"
  have p4: "pg_status ?p4 ?i = Some ''delivered''" using p3(2) record_calm [OF q] by (simp add: pg_status_def)
  have "send_and_route ?u ctx body corr a key msg w
      = (None, w2\<lparr>wd_pg := ?p4, wd_metrics := wd_metrics w2 @
          [MObserve DeliveryDuration [m_Channel msg, ''success''], MInc NotificationsDelivered [m_Channel msg, ''success'']]\<rparr>)"
    by (simp add: on_pg_def send_and_route_def w2 on_sent_def p3(1) Let_def split_beta)
  then show ?thesis using w2 p4 by simp
qed

text \<open>A delivery with a body that parses is \<open>handle_message\<close> between two changes of the gauge.\<close>

lemma worker_deliver_parsed:
  assumes "Unmarshal (os_uuid X) (d_Body d) = Some msg"
  shows "worker_deliver X opts cfg d w
    = (let u = the (worker_use_case X opts cfg);
           (r, w) = handle_message u (os_ctx X) (d_Body d) (headerString (d_Headers d) ''correlation_id'')
             (scast (headerInt32 (d_Headers d) ''x-attempt'')) (d_RoutingKey d) msg
             (emit u (MInc NotificationsInFlight []) w)
       in (r, emit u (MDec NotificationsInFlight []) w))"
  by (simp add: worker_deliver_def worker_handler_def Handle_def assms Let_def)

lemma deliver_calm:
  assumes X: "calm X" and msg: "Unmarshal (os_uuid X) (d_Body d) = Some msg"
    and first: "headerInt32 (d_Headers d) ''x-attempt'' = 0" and ch: "Channel_Valid (m_Channel msg)"
    and new: "m_ID msg \<notin> pg_seen (wd_pg w)" and row: "pg_status (wd_pg w) (m_ID msg) \<noteq> None"
  shows "\<exists>w'. worker_deliver X opts cfg d w = (None, w')
    \<and> wd_posts w' = wd_posts w @ [world_body X (ToNotification msg)]
    \<and> pg_status (wd_pg w') (m_ID msg) = Some StatusDelivered \<and> wd_mq w' = wd_mq w"
proof -
  let ?u = "the (worker_use_case X opts cfg)"
  let ?w0 = "w\<lparr>wd_metrics := wd_metrics w @ [MInc NotificationsInFlight []]\<rparr>"
  obtain p1 where p1: "Repo_MarkIfUnprocessed (os_server X) (m_ID msg) (wd_pg w) = (Inr True, p1)"
    "tb_notifications (pg_db p1) = tb_notifications (pg_db (wd_pg w))"
    using mark_calm [OF _ new] X unfolding calm_def by blast
  have "pg_status p1 (m_ID msg) \<noteq> None" using row p1(2) by (simp add: pg_status_def)
  then obtain w' where "send_and_route ?u (os_ctx X) (d_Body d) (headerString (d_Headers d) ''correlation_id'') 0
      (d_RoutingKey d) msg (?w0\<lparr>wd_pg := p1\<rparr>) = (None, w')"
    "wd_posts w' = wd_posts w @ [world_body X (ToNotification msg)]"
    "pg_status (wd_pg w') (m_ID msg) = Some StatusDelivered" "wd_mq w' = wd_mq w"
    using send_calm [OF X ch, of "?w0\<lparr>wd_pg := p1\<rparr>"] by fastforce
  then show ?thesis
    by (simp add: worker_deliver_parsed [OF msg] handle_message_def first on_pg_def p1(1) Let_def)
qed

section \<open>Creating\<close>

text \<open>The row can be stored: its texts are texts of the database, its id and its key are new.\<close>

definition storable :: "Notification \<Rightarrow> pg \<Rightarrow> bool" where
  "storable n p \<longleftrightarrow> list_all text_ok (notification_texts n) \<and> n_BatchID n = None
     \<and> list_all (\<lambda>m. n_ID m \<noteq> n_ID n
          \<and> (n_IdempotencyKey n = None \<or> n_IdempotencyKey m \<noteq> n_IdempotencyKey n)) (pg_rows p)"

lemma Insert_calm:
  assumes "quiet_server F" and "storable n p"
  shows "\<exists>p'. Insert F n p = (None, p') \<and> pg_rows p' = pg_rows p @ [stored F n] \<and> pg_seen p' = pg_seen p"
proof -
  have "n_ID n \<notin> set (map n_ID (tb_notifications (pg_db p)))"
    "n_IdempotencyKey n = None \<or> n_IdempotencyKey n \<notin> set (map n_IdempotencyKey (tb_notifications (pg_db p)))"
    using assms(2) by (fastforce simp: storable_def list_all_iff pg_rows_def)+
  then show ?thesis using assms(2)
    by (auto simp: Insert_def exec_quiet [OF assms(1)] sql_insert_notification_def storable_def pg_rows_def pg_seen_def)
qed

text \<open>Neither validation nor storing depends on the clock.\<close>

lemma new_notification_valid:
  "Validate (new_notification i c b k t inp) = Validate (new_notification i c b k' t' inp)"
  by (simp add: new_notification_def Validate_def)

lemma new_notification_storable:
  "storable (new_notification i c b k t inp) p = storable (new_notification i c b k t' inp) p"
  by (simp add: new_notification_def storable_def notification_texts_def)

lemma storable_calls [simp]: "pg_rows (p\<lparr>pg_calls := k\<rparr>) = pg_rows p" "storable n (p\<lparr>pg_calls := k\<rparr>) = storable n p"
  by (simp_all add: storable_def pg_rows_def)

lemma new_notification_key_input [simp]:
  "new_notification i c b k t (inp\<lparr>in_IdempotencyKey := k'\<rparr>) = new_notification i c b k t inp"
  by (simp add: new_notification_def)

definition api_message :: "'c outside \<Rightarrow> Notification \<Rightarrow> publication" where
  "api_message X n =
     (ExchangeNotifications, RoutingKey (n_Channel n) (n_Priority n),
      [(''notification_id'', VString (uuid_String (os_uuid X) (n_ID n))),
       (''correlation_id'', VString (uuid_String (os_uuid X) (n_CorrelationID n)))],
      Marshal (os_uuid X) (MessageFrom n))"

lemma api_service_simps [simp]:
  "svc_now (api_service X) = os_now X"
  "svc_newID (api_service X) w = (os_ids X (wd_ids w), w\<lparr>wd_ids := wd_ids w + 1\<rparr>)"
  "svc_publisher (api_service X) = Publish (world_publisher X)"
  "repo_Insert (svc_repo (api_service X)) n = on_pg (Insert (os_server X) n)"
  "repo_GetByIdempotencyKey (svc_repo (api_service X)) k = on_pg (GetByIdempotencyKey (os_server X) k)"
  "repo_CancelIfPending (svc_repo (api_service X)) i = on_pg (CancelIfPending (os_server X) i)"
  by (simp_all add: api_service_def NewNotificationService_def world_repo_def NewNotificationRepository_def)

text \<open>What a consumer is handed of a publication.\<close>

fun delivery_of :: "publication \<Rightarrow> Delivery" where
  "delivery_of (ex, key, hs, body) = \<lparr>d_Tag = 1, d_RoutingKey = key, d_Headers = hs, d_Body = body\<rparr>"

definition never_accepted :: "broker_answer \<Rightarrow> bool" where
  "never_accepted a \<longleftrightarrow> a \<noteq> Confirms \<and> (\<forall>m. a \<noteq> Lost_confirm m)"

lemma publishOne_calm:
  "\<exists>r w'. publishOne (os_uuid X) (api_service X) n w = (r, w') \<and> wd_pg w' = wd_pg w \<and> wd_posts w' = wd_posts w
    \<and> (os_broker X (mq_calls (wd_mq w)) = Confirms \<longrightarrow> r = None \<and> mq_log (wd_mq w') = mq_log (wd_mq w) @ [api_message X n])
    \<and> (never_accepted (os_broker X (mq_calls (wd_mq w))) \<longrightarrow> r \<noteq> None \<and> mq_log (wd_mq w') = mq_log (wd_mq w))"
  by (cases "os_broker X (mq_calls (wd_mq w))")
    (simp_all add: publishOne_def Publish_def PublishToExchange_def
      world_publisher_def world_channel_def mq_channel_def on_mq_def mq_Publish_def mq_Wait_def api_message_def
      never_accepted_def Let_def)

abbreviation api_new :: "'c outside \<Rightarrow> CreateInput \<Rightarrow> 'c world \<Rightarrow> Notification" where
  "api_new X inp w \<equiv> new_notification (os_ids X (wd_ids w)) (in_CorrelationID inp) (in_BatchID inp)
     (in_IdempotencyKey inp) (os_now X w) inp"

lemma Create_calm:
  assumes X: "calm X" and valid: "Validate (api_new X inp w) = None" and st: "storable (api_new X inp w) (wd_pg w)"
  shows "\<exists>r w'. Create (os_uuid X) (api_service X) inp w = (r, w')
    \<and> pg_rows (wd_pg w') = pg_rows (wd_pg w) @ [stored (os_server X) (api_new X inp w)]
    \<and> pg_seen (wd_pg w') = pg_seen (wd_pg w) \<and> wd_posts w' = wd_posts w
    \<and> (os_broker X (mq_calls (wd_mq w)) = Confirms \<longrightarrow> r = Inr (api_new X inp w)
          \<and> mq_log (wd_mq w') = mq_log (wd_mq w) @ [api_message X (api_new X inp w)])
    \<and> (never_accepted (os_broker X (mq_calls (wd_mq w)))
          \<longrightarrow> (\<exists>e. r = Inl e) \<and> mq_log (wd_mq w') = mq_log (wd_mq w))"
proof -
  let ?n = "api_new X inp w" and ?w0 = "w\<lparr>wd_ids := wd_ids w + 1\<rparr>"
  have q: "quiet_server (os_server X)" using X by (simp add: calm_def)
  obtain p' where p': "Insert (os_server X) ?n (wd_pg w) = (None, p')"
    "pg_rows p' = pg_rows (wd_pg w) @ [stored (os_server X) ?n]" "pg_seen p' = pg_seen (wd_pg w)"
    using Insert_calm [OF q st] by blast
  let ?w1 = "?w0\<lparr>wd_pg := p'\<rparr>"
  obtain r w' where pub: "publishOne (os_uuid X) (api_service X) ?n ?w1 = (r, w')" "wd_pg w' = p'" "wd_posts w' = wd_posts w"
    "os_broker X (mq_calls (wd_mq w)) = Confirms \<longrightarrow> r = None \<and> mq_log (wd_mq w') = mq_log (wd_mq w) @ [api_message X ?n]"
    "never_accepted (os_broker X (mq_calls (wd_mq w))) \<longrightarrow> r \<noteq> None \<and> mq_log (wd_mq w') = mq_log (wd_mq w)"
    using publishOne_calm [of X ?n ?w1] by auto
  have c: "Create (os_uuid X) (api_service X) inp w
      = (case r of Some e \<Rightarrow> (Inl (ErrorWrap ''publish notification: '' e []), w') | None \<Rightarrow> (Inr ?n, w'))"
    using valid p'(1) pub(1)
    by (cases r) (simp_all add: Create_def insert_and_publish_def on_pg_def Let_def)
  show ?thesis unfolding c using pub p' by (cases r) auto
qed

section \<open>From the API to the webhook\<close>

lemma api_message_delivery:
  "headerInt32 (d_Headers (delivery_of (api_message X n))) ''x-attempt'' = 0"
  "d_Body (delivery_of (api_message X n)) = Marshal (os_uuid X) (MessageFrom n)"
  by (simp_all add: api_message_def headerInt32_def)

lemma pg_status_last:
  assumes "pg_rows p' = pg_rows p @ [n]" and "list_all (\<lambda>m. n_ID m \<noteq> n_ID n) (pg_rows p)"
  shows "pg_status p' (n_ID n) = Some (n_Status n)"
proof -
  have "find (\<lambda>m. n_ID m = n_ID n) (tb_notifications (pg_db p')) = Some n"
    using assms unfolding pg_rows_def list_all_iff by (simp only:) (rule find_append_last, auto)
  then show ?thesis by (simp add: pg_status_def)
qed

lemma world_body_message: "world_body X (ToNotification (MessageFrom n)) = world_body X n"
  by (simp add: world_body_def webhook_payload_def ToNotification_def MessageFrom_def)

lemma deliver_message:
  assumes X: "calm X" and cr: "creatable n" and utf8: "valid_utf8 (n_Recipient n)" "valid_utf8 (n_Content n)"
    and new: "n_ID n \<notin> pg_seen (wd_pg w)" and row: "pg_status (wd_pg w) (n_ID n) \<noteq> None"
  shows "\<exists>w'. worker_deliver X opts cfg (delivery_of (api_message X n)) w = (None, w')
    \<and> wd_posts w' = wd_posts w @ [world_body X n] \<and> pg_status (wd_pg w') (n_ID n) = Some StatusDelivered"
proof -
  let ?d = "delivery_of (api_message X n)"
  have c: "Channel_Valid (n_Channel n)" "Priority_Valid (n_Priority n)" using cr by (auto simp: creatable_def well_formed_def)
  have "sanitize_message (MessageFrom n) = MessageFrom n"
    using utf8 c by (intro sanitize_message_valid) (simp_all add: MessageFrom_def)
  then have "Unmarshal (os_uuid X) (d_Body ?d) = Some (MessageFrom n)"
    using X Unmarshal_Marshal by (simp add: api_message_delivery calm_def)
  from deliver_calm [OF X this, of w opts cfg]
  show ?thesis using api_message_delivery(1) c(1) new row
    by (auto simp: MessageFrom_def world_body_message [unfolded MessageFrom_def])
qed

text \<open>C1: When nothing fails, a created notification arrives: \<open>Create\<close> stores it and publishes one
  message, the broker routes that message to exactly one queue, which is one the worker
  consumes, and the worker, given it, posts the notification to the webhook once, acknowledges,
  and leaves it delivered.\<close>

theorem created_is_delivered:
  assumes "calm X" and "os_broker X (mq_calls (wd_mq w)) = Confirms" and "topic_literal matches"
    and "Validate (api_new X inp w) = None" and "storable (api_new X inp w) (wd_pg w)"
    and "valid_utf8 (in_Recipient inp)" and "valid_utf8 (in_Content inp)"
    and "os_ids X (wd_ids w) \<notin> pg_seen (wd_pg w)"
  shows "\<exists>n w1 w2 q. Create (os_uuid X) (api_service X) inp w = (Inr n, w1)
    \<and> mq_log (wd_mq w1) = mq_log (wd_mq w) @ [api_message X n]
    \<and> routed_to matches ProductionTopology (fst (api_message X n)) (d_RoutingKey (delivery_of (api_message X n))) = [q]
    \<and> q \<in> set (map qb_Queue (t_Bindings ProductionTopology))
    \<and> worker_deliver X opts cfg (delivery_of (api_message X n)) w1 = (None, w2)
    \<and> wd_posts w2 = wd_posts w @ [world_body X n] \<and> pg_status (wd_pg w2) (n_ID n) = Some StatusDelivered"
proof -
  define n where "n = api_new X inp w"
  have cr: "creatable n" using creatable_new assms(4) unfolding n_def by blast
  have st: "storable n (wd_pg w)" using assms(5) unfolding n_def .
  obtain w1 where w1: "Create (os_uuid X) (api_service X) inp w = (Inr n, w1)"
    "pg_rows (wd_pg w1) = pg_rows (wd_pg w) @ [stored (os_server X) n]" "pg_seen (wd_pg w1) = pg_seen (wd_pg w)"
    "wd_posts w1 = wd_posts w" "mq_log (wd_mq w1) = mq_log (wd_mq w) @ [api_message X n]"
    using Create_calm [OF assms(1,4,5)] assms(2) unfolding n_def by auto
  have "pg_status (wd_pg w1) (n_ID n) \<noteq> None"
    using pg_status_last [OF w1(2)] st by (simp add: storable_def stored_def list_all_iff)
  moreover have "n_ID n \<notin> pg_seen (wd_pg w1)" "valid_utf8 (n_Recipient n)" "valid_utf8 (n_Content n)"
    using assms(6-8) w1(3) by (simp_all add: n_def new_notification_def)
  ultimately obtain w2 where w2: "worker_deliver X opts cfg (delivery_of (api_message X n)) w1 = (None, w2)"
    "wd_posts w2 = wd_posts w1 @ [world_body X n]" "pg_status (wd_pg w2) (n_ID n) = Some StatusDelivered"
    using deliver_message [OF assms(1) cr] by blast
  have q: "routed_to matches ProductionTopology (fst (api_message X n)) (d_RoutingKey (delivery_of (api_message X n)))
      = [n_Channel n @ ''.'' @ n_Priority n]"
    using creatable_route [OF assms(3) cr] by (simp add: api_message_def)
  have "n_Channel n @ ''.'' @ n_Priority n \<in> set (map qb_Queue (t_Bindings ProductionTopology))"
    using cr by (auto simp: creatable_def well_formed_def Channel_Valid_iff Priority_Valid_iff ProductionTopology_def
        AllProductionBindings_def topo_channels_def topo_priorities_def Let_def)
  then show ?thesis using w1 w2 q by metis
qed

section \<open>A publication that failed\<close>

text \<open>C21: A creation under an idempotency key whose publication fails answers with an error but
  leaves the row behind, pending. The client's retry under the same key is then answered as
  accepted from that row, and nothing is published: no message of the notification ever reaches
  the broker.\<close>

theorem retry_after_failed_publication_publishes_nothing:
  assumes "calm X" and "never_accepted (os_broker X (mq_calls (wd_mq w)))"
    and "Validate (api_new X (inp\<lparr>in_IdempotencyKey := Some key\<rparr>) w) = None"
    and "storable (api_new X (inp\<lparr>in_IdempotencyKey := Some key\<rparr>) w) (wd_pg w)" and "text_ok key"
  shows "let (r1, w1) = CreateWithIdempotency (os_uuid X) (api_service X) inp key w;
             (r2, w2) = CreateWithIdempotency (os_uuid X) (api_service X) inp key w1
    in (\<exists>e. r1 = Inl e) \<and> (\<exists>n. r2 = Inr (n, True) \<and> n_Status n = StatusPending \<and> n_ID n = os_ids X (wd_ids w))
     \<and> mq_log (wd_mq w2) = mq_log (wd_mq w)"
proof -
  let ?inp = "inp\<lparr>in_IdempotencyKey := Some key\<rparr>" and ?F = "os_server X"
  let ?n = "api_new X ?inp w"
  have q: "quiet_server ?F" using assms(1) by (simp add: calm_def)
  have lookup: "GetByIdempotencyKey ?F key p
      = ((case find (\<lambda>n. n_IdempotencyKey n = Some key) (pg_rows p) of None \<Rightarrow> Inl ErrNotFound | Some n \<Rightarrow> Inr n),
         p\<lparr>pg_calls := Suc (pg_calls p)\<rparr>)" for p
    using assms(5) by (simp add: GetByIdempotencyKey_def exec_quiet [OF q] sql_row_def pg_rows_def split: option.split)
  let ?w0 = "w\<lparr>wd_pg := wd_pg w\<lparr>pg_calls := Suc (pg_calls (wd_pg w))\<rparr>\<rparr>"
  have "find (\<lambda>n. n_IdempotencyKey n = Some key) (pg_rows (wd_pg w)) = None"
    using assms(4) by (auto simp: storable_def find_None_iff list_all_iff)
  then have look: "on_pg (GetByIdempotencyKey ?F key) w = (Inl ErrNotFound, ?w0)" by (simp add: on_pg_def lookup)
  have rows0: "pg_rows (wd_pg ?w0) = pg_rows (wd_pg w)" by (simp add: pg_rows_def)
  let ?m = "api_new X ?inp ?w0"
  have "Validate ?m = None" "storable ?m (wd_pg ?w0)"
    using assms(3,4) new_notification_valid [where k = "Some key" and k' = "Some key" and t = "os_now X w" and t' = "os_now X ?w0"]
      new_notification_storable [where t = "os_now X w" and t' = "os_now X ?w0"]
    by simp_all
  from Create_calm [OF assms(1) this]
  obtain e w1 where c: "Create (os_uuid X) (api_service X) ?inp ?w0 = (Inl e, w1)"
    "pg_rows (wd_pg w1) = pg_rows (wd_pg w) @ [stored ?F ?m]" "mq_log (wd_mq w1) = mq_log (wd_mq w)"
    using assms(2) rows0 by (auto simp: never_accepted_def)
  have r1: "CreateWithIdempotency (os_uuid X) (api_service X) inp key w = (Inl e, w1)"
    by (simp add: CreateWithIdempotency_def look c)
  have "find (\<lambda>n. n_IdempotencyKey n = Some key) (pg_rows (wd_pg w1)) = Some (stored ?F ?m)"
    unfolding c(2) using assms(4) by (intro find_append_last) (auto simp: storable_def stored_def list_all_iff)
  then have r2: "CreateWithIdempotency (os_uuid X) (api_service X) inp key w1
      = (Inr (stored ?F ?m, True), w1\<lparr>wd_pg := wd_pg w1\<lparr>pg_calls := Suc (pg_calls (wd_pg w1))\<rparr>\<rparr>)"
    by (simp add: CreateWithIdempotency_def on_pg_def lookup)
  show ?thesis using c(3) by (simp add: r1 r2 stored_def new_notification_def)
qed

section \<open>A cancellation\<close>

text \<open>C23: Cancelling does not take back the message the API has published: although the DELETE
  succeeded and the row says cancelled, the worker posts the notification to the webhook when the
  message arrives, and overwrites the status with delivered.\<close>

theorem cancelled_is_still_delivered:
  assumes "calm X" and "db_ok (pg_db (wd_pg w))" and "creatable n" and "stored (os_server X) n \<in> set (pg_rows (wd_pg w))"
    and "valid_utf8 (n_Recipient n)" and "valid_utf8 (n_Content n)" and "n_ID n \<notin> pg_seen (wd_pg w)"
  shows "let (r1, w1) = Cancel (api_service X) (n_ID n) w;
             (r2, w2) = worker_deliver X opts cfg (delivery_of (api_message X n)) w1
    in (\<exists>m. r1 = Inr m \<and> n_Status m = StatusCancelled) \<and> pg_status (wd_pg w1) (n_ID n) = Some StatusCancelled
     \<and> r2 = None \<and> wd_posts w2 = wd_posts w @ [world_body X n] \<and> pg_status (wd_pg w2) (n_ID n) = Some StatusDelivered"
proof -
  let ?F = "os_server X" and ?p = "wd_pg w"
  have q: "quiet_server ?F" using assms(1) by (simp add: calm_def)
  have pend: "n_Status (stored ?F n) = ''pending''" "n_ID (stored ?F n) = n_ID n"
    using assms(3) by (simp_all add: creatable_def stored_def)
  have row: "find (\<lambda>m. n_ID m = n_ID n) (tb_notifications (pg_db ?p)) = Some (stored ?F n)"
    using find_id_row [OF assms(2)] assms(4) pend(2) by (fastforce simp: pg_rows_def)
  obtain m p' where c: "CancelIfPending ?F (n_ID n) ?p = (Inr m, p')" "n_Status m = ''cancelled''"
    and p': "pg_db p' = cancel_in (n_ID n) (seen_now ?F ?p) (pg_db ?p)"
    using pend(1) by (simp add: CancelIfPending_quiet [OF q assms(2)] row set_status_def)
  let ?w1 = "w\<lparr>wd_pg := p'\<rparr>"
  have c1: "Cancel (api_service X) (n_ID n) w = (Inr m, ?w1)" by (simp add: Cancel_def on_pg_def c)
  have "find (\<lambda>m. n_ID m = n_ID n) (map (cancel_row (n_ID n) t) ns)
      = map_option (cancel_row (n_ID n) t) (find (\<lambda>m. n_ID m = n_ID n) ns)" for t ns
    by (induction ns) (auto simp: cancel_row_def set_status_def)
  then have st: "pg_status p' (n_ID n) = Some ''cancelled''"
    using pend by (simp add: pg_status_def p' cancel_in_def row cancel_row_def set_status_def)
  have "pg_seen p' = pg_seen ?p" by (simp add: pg_seen_def p' cancel_in_def)
  then obtain w2 where "worker_deliver X opts cfg (delivery_of (api_message X n)) ?w1 = (None, w2)"
    "wd_posts w2 = wd_posts w @ [world_body X n]" "pg_status (wd_pg w2) (n_ID n) = Some StatusDelivered"
    using deliver_message [OF assms(1,3,5,6), of ?w1 opts cfg] assms(7) st by auto
  then show ?thesis using c(2) st by (simp add: c1)
qed

section \<open>A concrete world\<close>

definition open_breaker_never :: "unit CircuitBreaker" where
  "open_breaker_never = \<lparr>cb_admit = (\<lambda>c. (Inr 0, c)), cb_report = (\<lambda>g r c. c), cb_State = (\<lambda>c. (StateClosed, c))\<rparr>"

definition all_works :: "broker_answer \<Rightarrow> unit outside" where
  "all_works a =
     \<lparr>os_uuid = binary_uuid, os_server = plain_server, os_broker = (\<lambda>k. a), os_build = (\<lambda>u. None),
      os_web = (\<lambda>k. Inr 200), os_breaker = (\<lambda>st. open_breaker_never), os_ids = (\<lambda>k. 1), os_now = (\<lambda>w. 5),
      os_ctx = (\<lambda>w. None)\<rparr>"

definition world_with :: "Notification list \<Rightarrow> unit world" where
  "world_with ns =
     \<lparr>wd_pg = \<lparr>pg_db = empty_db\<lparr>tb_notifications := ns\<rparr>, pg_calls = 0\<rparr>, wd_mq = \<lparr>mq_log = [], mq_calls = 0\<rparr>,
      wd_posts = [], wd_breakers = (), wd_ids = 0, wd_metrics = []\<rparr>"

lemma all_works_calm: "calm (all_works a)"
  by (simp add: calm_def all_works_def open_breaker_never_def binary_uuid_ok)

lemma all_works_simps [simp]:
  "os_broker (all_works a) k = a" "os_ids (all_works a) k = 1" "os_now (all_works a) v = 5"
  "os_server (all_works a) = plain_server" "wd_ids (world_with ns) = 0" "pg_rows (wd_pg (world_with ns)) = ns"
  "pg_seen (wd_pg (world_with ns)) = {}" "wd_posts (world_with ns) = []" "mq_log (wd_mq (world_with ns)) = []"
  by (simp_all add: all_works_def world_with_def pg_rows_def pg_seen_def empty_db_def)

lemma sample_valid_key: "Validate (new_notification 1 9 None k 5 sample_input) = None"
  using sample_new_valid unfolding sample_new_def
  by (subst new_notification_valid [where k' = None and t' = 5])

lemma sample_input_texts: "list_all text_ok (notification_texts (new_notification 1 9 None (Some ''key'') 5 sample_input))"
  "list_all text_ok (notification_texts (new_notification 1 9 None None 5 sample_input))"
  by (simp_all add: notification_texts_def new_notification_def sample_input_def default_priority_def text_ok_def valid_utf8_ascii)

lemma sample_input_simps [simp]:
  "in_CorrelationID sample_input = 9" "in_BatchID sample_input = None" "in_IdempotencyKey sample_input = None"
  "valid_utf8 (in_Recipient sample_input)" "valid_utf8 (in_Content sample_input)"
  by (simp_all add: sample_input_def valid_utf8_ascii)

theorem created_is_delivered_witness:
  "\<exists>n w1 w2 q. Create (os_uuid (all_works Confirms)) (api_service (all_works Confirms)) sample_input (world_with []) = (Inr n, w1)
    \<and> mq_log (wd_mq w1) = mq_log (wd_mq (world_with [])) @ [api_message (all_works Confirms) n]
    \<and> routed_to (=) ProductionTopology (fst (api_message (all_works Confirms) n)) (d_RoutingKey (delivery_of (api_message (all_works Confirms) n))) = [q]
    \<and> q \<in> set (map qb_Queue (t_Bindings ProductionTopology))
    \<and> worker_deliver (all_works Confirms) \<lparr>wo_URL = ''u'', wo_Timeout = 0\<rparr> DefaultCBConfig (delivery_of (api_message (all_works Confirms) n)) w1 = (None, w2)
    \<and> wd_posts w2 = wd_posts (world_with []) @ [world_body (all_works Confirms) n] \<and> pg_status (wd_pg w2) (n_ID n) = Some StatusDelivered"
  by (rule created_is_delivered [OF all_works_calm _ topic_literal_eq])
    (simp_all add: sample_valid_key storable_def sample_input_texts)

theorem retry_after_failed_publication_publishes_nothing_witness:
  "let (r1, w1) = CreateWithIdempotency (os_uuid (all_works Nacks)) (api_service (all_works Nacks)) sample_input ''key'' (world_with []);
       (r2, w2) = CreateWithIdempotency (os_uuid (all_works Nacks)) (api_service (all_works Nacks)) sample_input ''key'' w1
    in (\<exists>e. r1 = Inl e)
     \<and> (\<exists>n. r2 = Inr (n, True) \<and> n_Status n = StatusPending \<and> n_ID n = os_ids (all_works Nacks) (wd_ids (world_with [])))
     \<and> mq_log (wd_mq w2) = mq_log (wd_mq (world_with []))"
  by (rule retry_after_failed_publication_publishes_nothing [OF all_works_calm])
    (simp_all add: never_accepted_def sample_valid_key storable_def sample_input_texts text_ok_def valid_utf8_ascii)

theorem cancelled_is_still_delivered_witness:
  "let (r1, w1) = Cancel (api_service (all_works Confirms)) (n_ID sample_new) (world_with [sample_new]);
       (r2, w2) = worker_deliver (all_works Confirms) \<lparr>wo_URL = ''u'', wo_Timeout = 0\<rparr> DefaultCBConfig
         (delivery_of (api_message (all_works Confirms) sample_new)) w1
    in (\<exists>m. r1 = Inr m \<and> n_Status m = StatusCancelled) \<and> pg_status (wd_pg w1) (n_ID sample_new) = Some StatusCancelled
     \<and> r2 = None \<and> wd_posts w2 = wd_posts (world_with [sample_new]) @ [world_body (all_works Confirms) sample_new]
     \<and> pg_status (wd_pg w2) (n_ID sample_new) = Some StatusDelivered"
proof (rule cancelled_is_still_delivered [OF all_works_calm])
  show "creatable sample_new" unfolding sample_new_def by (rule creatable_new) (rule sample_valid_key)
  show "db_ok (pg_db (wd_pg (world_with [sample_new])))"
    by (simp add: world_with_def db_ok_def empty_db_def sample_new_def new_notification_def keys_of_def map_filter_simps)
qed (simp_all add: stored_def plain_server_def sample_new_def new_notification_def)

section \<open>Repeated deliveries\<close>

text \<open>Let the broker hand the worker any sequence of first deliveries (attempt 0), the same ones
  as often as it likes, and let any calls fail. The requests the webhook receives are those of
  notifications with pairwise different ids, none of which had been handled before.\<close>

theorem first_deliveries_post_once:
  assumes "list_all (\<lambda>d. headerInt32 (d_Headers d) ''x-attempt'' = 0) ds"
  shows "let w' = fold (\<lambda>d w. snd (worker_deliver (solo X) opts cfg d w)) ds w in
     \<exists>ns. wd_posts w' = wd_posts w @ map (world_body X) ns \<and> distinct (map n_ID ns)
       \<and> set (map n_ID ns) \<inter> pg_seen (wd_pg w) = {} \<and> set (map n_ID ns) \<subseteq> pg_seen (wd_pg w')"
proof -
  have "first.first_step X w (snd (worker_deliver (solo X) opts cfg d w))"
    if "d \<in> set ds" for d w
    using that assms first.Handle_first
    by (simp add: worker_deliver_def worker_handler_def Let_def list_all_iff)
  then show ?thesis using first.first_steps by (fastforce simp: Let_def)
qed

theorem first_deliveries_post_once_witness:
  "let w' = fold (\<lambda>d w. snd (worker_deliver (solo (all_works Confirms)) \<lparr>wo_URL = ''u'', wo_Timeout = 0\<rparr> DefaultCBConfig d w))
         (replicate 2 (delivery_of (api_message (all_works Confirms) sample_new))) (world_with [sample_new]) in
     \<exists>ns. wd_posts w' = wd_posts (world_with [sample_new]) @ map (world_body (all_works Confirms)) ns \<and> distinct (map n_ID ns)
       \<and> set (map n_ID ns) \<inter> pg_seen (wd_pg (world_with [sample_new])) = {} \<and> set (map n_ID ns) \<subseteq> pg_seen (wd_pg w')"
  by (rule first_deliveries_post_once) (simp add: api_message_delivery list_all_iff)

end
