(* ===== verification/Redelivery.thy ===== *)
theory Redelivery
  imports System_Properties
begin

text \<open>
  What the dedup table does to a message the broker delivers again. The mark of a first delivery is
  committed before the message is sent, and deliveries with a positive attempt do not look at the
  table: an interruption between mark and send loses the message, a redelivered retry is sent
  again.
\<close>

section \<open>A marked message\<close>

lemma mark_again:
  assumes "quiet_server F" and "i \<in> pg_seen p"
  shows "\<exists>p'. Repo_MarkIfUnprocessed F i p = (Inr False, p') \<and> pg_db p' = pg_db p"
  using assms(2) by (auto simp: Repo_MarkIfUnprocessed_def exec_quiet [OF assms(1)] sql_mark_def pg_seen_def)

lemma deliver_marked:
  assumes X: "calm X" and msg: "Unmarshal (os_uuid X) (d_Body d) = Some msg"
    and first: "headerInt32 (d_Headers d) ''x-attempt'' = 0" and seen: "m_ID msg \<in> pg_seen (wd_pg w)"
  shows "\<exists>w'. worker_deliver X opts cfg d w = (None, w') \<and> wd_posts w' = wd_posts w
    \<and> wd_mq w' = wd_mq w \<and> pg_db (wd_pg w') = pg_db (wd_pg w)"
proof -
  obtain p1 where "Repo_MarkIfUnprocessed (os_server X) (m_ID msg) (wd_pg w) = (Inr False, p1)"
    "pg_db p1 = pg_db (wd_pg w)"
    using mark_again [OF _ seen] X unfolding calm_def by blast
  then show ?thesis by (simp add: worker_deliver_parsed [OF msg] handle_message_def first on_pg_def Let_def)
qed

section \<open>Properties\<close>

text \<open>C9: If a worker is stopped after the mark of a first delivery is committed and before the send, the
  broker delivers the message again, and that delivery, with nothing failing, is
  acknowledged as a duplicate: nothing is posted or published and the notification keeps the
  status it had.\<close>

theorem interrupted_delivery_is_lost:
  assumes "calm X" and "Unmarshal (os_uuid X) (d_Body d) = Some msg"
    and "headerInt32 (d_Headers d) ''x-attempt'' = 0"
    and "on_pg (MarkIfUnprocessed (NewProcessedRepository (os_server X)) (m_ID msg)) w = (Inr True, w1)"
  shows "\<exists>w2. worker_deliver X opts cfg d w1 = (None, w2) \<and> wd_posts w2 = wd_posts w \<and> wd_mq w2 = wd_mq w
    \<and> pg_status (wd_pg w2) (m_ID msg) = pg_status (wd_pg w) (m_ID msg)"
proof -
  have q: "quiet_server (os_server X)" using assms(1) by (simp add: calm_def)
  have m: "Repo_MarkIfUnprocessed (os_server X) (m_ID msg) (wd_pg w) = (Inr True, wd_pg w1)"
    and fr: "wd_posts w1 = wd_posts w" "wd_mq w1 = wd_mq w"
    using assms(4) by (auto simp: on_pg_def NewProcessedRepository_def split: prod.splits)
  have "Repo_MarkIfUnprocessed (alone (os_server X)) (m_ID msg) (wd_pg w) = (Inr True, wd_pg w1)"
    using m by (simp add: quiet_alone [OF q])
  then have new: "m_ID msg \<notin> pg_seen (wd_pg w)" and seen: "m_ID msg \<in> pg_seen (wd_pg w1)"
    using pg_dedup.mark_answer by fastforce+
  have "pg_status (wd_pg w1) (m_ID msg) = pg_status (wd_pg w) (m_ID msg)"
    using mark_calm [OF q new] m by (auto simp: pg_status_def)
  then show ?thesis using deliver_marked [OF assms(1-3) seen, of opts cfg] fr by (auto simp: pg_status_def)
qed

text \<open>C22: The dedup table does not cover retries: a delivery with a positive attempt, delivered again
  because its acknowledgement was lost, is posted to the webhook a second time.\<close>

theorem redelivered_retry_posts_twice:
  assumes "calm X" and "Unmarshal (os_uuid X) (d_Body d) = Some msg"
    and "headerInt32 (d_Headers d) ''x-attempt'' \<noteq> 0" and "Channel_Valid (m_Channel msg)"
    and "pg_status (wd_pg w) (m_ID msg) \<noteq> None"
  shows "\<exists>w1 w2. worker_deliver X opts cfg d w = (None, w1) \<and> worker_deliver X opts cfg d w1 = (None, w2)
    \<and> wd_posts w2 = wd_posts w @ [world_body X (ToNotification msg), world_body X (ToNotification msg)]"
proof -
  have a: "(scast (headerInt32 (d_Headers d) ''x-attempt'') :: go_int) \<noteq> 0"
  proof
    assume "(scast (headerInt32 (d_Headers d) ''x-attempt'') :: go_int) = 0"
    then have "scast (scast (headerInt32 (d_Headers d) ''x-attempt'') :: go_int) = (0 :: go_int32)" by simp
    then show False using assms(3) by (simp add: scast_up_scast_id is_up)
  qed
  have again: "\<exists>w'. worker_deliver X opts cfg d v = (None, w')
      \<and> wd_posts w' = wd_posts v @ [world_body X (ToNotification msg)] \<and> pg_status (wd_pg w') (m_ID msg) \<noteq> None"
    if "pg_status (wd_pg v) (m_ID msg) \<noteq> None" for v
  proof -
    let ?v = "v\<lparr>wd_metrics := wd_metrics v @ [MInc NotificationsInFlight []]\<rparr>"
    have "pg_status (wd_pg ?v) (m_ID msg) \<noteq> None" using that by simp
    from send_calm [OF assms(1,4) this, of opts cfg "os_ctx X" "d_Body d"
        "headerString (d_Headers d) ''correlation_id''" "scast (headerInt32 (d_Headers d) ''x-attempt'')"
        "d_RoutingKey d"]
    obtain w' where "send_and_route (the (worker_use_case X opts cfg)) (os_ctx X) (d_Body d)
        (headerString (d_Headers d) ''correlation_id'') (scast (headerInt32 (d_Headers d) ''x-attempt''))
        (d_RoutingKey d) msg ?v = (None, w')"
      "wd_posts w' = wd_posts v @ [world_body X (ToNotification msg)]"
      "pg_status (wd_pg w') (m_ID msg) = Some StatusDelivered"
      by auto
    then show ?thesis using a by (simp add: worker_deliver_parsed [OF assms(2)] handle_message_def Let_def)
  qed
  obtain w1 where w1: "worker_deliver X opts cfg d w = (None, w1)"
    "wd_posts w1 = wd_posts w @ [world_body X (ToNotification msg)]" "pg_status (wd_pg w1) (m_ID msg) \<noteq> None"
    using again [OF assms(5)] by blast
  then obtain w2 where "worker_deliver X opts cfg d w1 = (None, w2)"
    "wd_posts w2 = wd_posts w1 @ [world_body X (ToNotification msg)]"
    using again by blast
  then show ?thesis using w1 by simp
qed

section \<open>A concrete world\<close>

definition retried :: Delivery where
  "retried = \<lparr>d_Tag = 1, d_RoutingKey = ''sms.high'', d_Headers = retry_headers ''sms'' 1 [],
     d_Body = Marshal binary_uuid (MessageFrom sample_new)\<rparr>"

lemma sample_new_parses: "Unmarshal binary_uuid (Marshal binary_uuid (MessageFrom sample_new)) = Some (MessageFrom sample_new)"
proof -
  have "creatable sample_new" unfolding sample_new_def by (rule creatable_new) (rule sample_valid_key)
  then have "sanitize_message (MessageFrom sample_new) = MessageFrom sample_new"
    by (intro sanitize_message_valid)
      (simp_all add: MessageFrom_def creatable_def well_formed_def sample_new_def new_notification_def)
  then show ?thesis using Unmarshal_Marshal binary_uuid_ok by simp
qed

theorem interrupted_delivery_is_lost_witness:
  "\<exists>w2. worker_deliver (all_works Confirms) \<lparr>wo_URL = ''u'', wo_Timeout = 0\<rparr> DefaultCBConfig
      (delivery_of (api_message (all_works Confirms) sample_new))
      (snd (on_pg (MarkIfUnprocessed (NewProcessedRepository plain_server) (n_ID sample_new)) (world_with [sample_new])))
      = (None, w2)
    \<and> wd_posts w2 = wd_posts (world_with [sample_new]) \<and> wd_mq w2 = wd_mq (world_with [sample_new])
    \<and> pg_status (wd_pg w2) (n_ID sample_new) = pg_status (wd_pg (world_with [sample_new])) (n_ID sample_new)"
proof -
  have i: "m_ID (MessageFrom sample_new) = n_ID sample_new" by (simp add: MessageFrom_def)
  show ?thesis
  proof (rule interrupted_delivery_is_lost [OF all_works_calm, where msg = "MessageFrom sample_new", unfolded i])
    show "Unmarshal (os_uuid (all_works Confirms)) (d_Body (delivery_of (api_message (all_works Confirms) sample_new)))
        = Some (MessageFrom sample_new)"
      by (simp add: api_message_delivery sample_new_parses all_works_def)
    have "n_ID sample_new \<notin> pg_seen (wd_pg (world_with [sample_new]))" by simp
    moreover have "quiet_server plain_server" using all_works_calm [of Confirms] by (simp add: calm_def)
    ultimately obtain p where "Repo_MarkIfUnprocessed plain_server (n_ID sample_new) (wd_pg (world_with [sample_new])) = (Inr True, p)"
      using mark_calm by blast
    then show "on_pg (MarkIfUnprocessed (NewProcessedRepository (os_server (all_works Confirms))) (n_ID sample_new))
        (world_with [sample_new])
      = (Inr True, snd (on_pg (MarkIfUnprocessed (NewProcessedRepository plain_server) (n_ID sample_new)) (world_with [sample_new])))"
      by (simp add: on_pg_def NewProcessedRepository_def)
  qed (rule api_message_delivery(1))
qed

theorem redelivered_retry_posts_twice_witness:
  "\<exists>w1 w2. worker_deliver (all_works Confirms) \<lparr>wo_URL = ''u'', wo_Timeout = 0\<rparr> DefaultCBConfig retried (world_with [sample_new])
      = (None, w1)
    \<and> worker_deliver (all_works Confirms) \<lparr>wo_URL = ''u'', wo_Timeout = 0\<rparr> DefaultCBConfig retried w1 = (None, w2)
    \<and> wd_posts w2 = wd_posts (world_with [sample_new])
        @ [world_body (all_works Confirms) (ToNotification (MessageFrom sample_new)),
           world_body (all_works Confirms) (ToNotification (MessageFrom sample_new))]"
proof (rule redelivered_retry_posts_twice [OF all_works_calm])
  show "Unmarshal (os_uuid (all_works Confirms)) (d_Body retried) = Some (MessageFrom sample_new)"
    by (simp add: retried_def sample_new_parses all_works_def)
  show "headerInt32 (d_Headers retried) ''x-attempt'' \<noteq> 0"
    by (simp add: retried_def retry_headers_def headerInt32_def)
  show "Channel_Valid (m_Channel (MessageFrom sample_new))"
    by (simp add: MessageFrom_def sample_new_def new_notification_def sample_input_def Channel_Valid_iff)
  show "pg_status (wd_pg (world_with [sample_new])) (m_ID (MessageFrom sample_new)) \<noteq> None"
    by (simp add: pg_status_def world_with_def MessageFrom_def)
qed

end
