(* ===== verification/Http_Limits.thy ===== *)
theory Http_Limits
  imports Http_Properties System
begin

text \<open>
  The limits of the API at their edges: the parameters of a list, whose page times limit can leave
  64 bits, and batches larger than the bucket of the rate limiter.
\<close>

section \<open>List parameters\<close>

lemma Atoi_bounds: "Atoi s = Some i \<Longrightarrow> - (2 ^ 63) \<le> i \<and> i < 2 ^ 63"
  unfolding Atoi_def Let_def by (auto split: list.splits if_splits)

lemma parse_bounded_range:
  assumes "parse_bounded dflt mx msg s = Inr i" and "1 \<le> dflt" and "dflt < 2 ^ 63"
  shows "1 \<le> i \<and> i < 2 ^ 63 \<and> (\<forall>m. mx = Some m \<longrightarrow> dflt \<le> m \<longrightarrow> i \<le> m)"
  using assms Atoi_bounds
  by (auto simp: parse_bounded_def split: if_splits option.splits)

lemma sint_of_int: "- (2 ^ 63) \<le> i \<Longrightarrow> i < 2 ^ 63 \<Longrightarrow> sint (word_of_int i :: go_int) = i"
  by (simp add: sint_sbintrunc' signed_take_bit_int_eq_self)

text \<open>C39: What \<open>GET /notifications\<close> hands to the repository is in range: the page is positive, the
  limit between 1 and 200, both fit an \<open>int\<close>, and a filter on status or channel is empty or one
  of the known values.\<close>

theorem parseListParams_in_range:
  assumes "parseListParams req = Inr (flt, page, limit)"
  shows "1 \<le> page \<and> 1 \<le> limit \<and> limit \<le> 200
    \<and> sint (word_of_int page :: go_int) = page \<and> sint (word_of_int limit :: go_int) = limit
    \<and> (lf_Status flt = [] \<or> Status_Valid (lf_Status flt)) \<and> (lf_Channel flt = [] \<or> Channel_Valid (lf_Channel flt))"
proof -
  obtain s c f t where p: "parse_status (rq_Query req ''status'') = Inr s" "parse_channel (rq_Query req ''channel'') = Inr c"
    "flt = \<lparr>lf_Status = s, lf_Channel = c, lf_DateFrom = f, lf_DateTo = t\<rparr>"
    "parse_bounded 1 None ''page must be a positive integer'' (rq_Query req ''page'') = Inr page"
    "parse_bounded defaultLimit (Some maxLimit) (''limit must be between 1 and '' @ Itoa maxLimit) (rq_Query req ''limit'') = Inr limit"
    using assms unfolding parseListParams_def by (auto split: sum.splits)
  have "1 \<le> page \<and> page < 2 ^ 63" using parse_bounded_range [OF p(4)] by simp
  moreover have "1 \<le> limit \<and> limit < 2 ^ 63 \<and> limit \<le> 200"
    using parse_bounded_range [OF p(5)] by (simp add: defaultLimit_def maxLimit_def)
  ultimately show ?thesis using p(1-3) sint_of_int [of page] sint_of_int [of limit]
    by (auto simp: parse_status_def parse_channel_def split: if_splits)
qed

definition list_request :: "go_string \<Rightarrow> request" where
  "list_request page =
     \<lparr>rq_Method = ''GET'', rq_Header = (\<lambda>_. []), rq_Query = (\<lambda>k. if k = ''page'' then page else []), rq_Param = (\<lambda>_. []),
      rq_Route = ''/notifications'', rq_Body = [], rq_CorrelationID = None, rq_RequestID = None\<rparr>"

definition no_filter :: ListFilter where
  "no_filter = \<lparr>lf_Status = [], lf_Channel = [], lf_DateFrom = 0, lf_DateTo = 0\<rparr>"

lemma list_request_params:
  assumes "Atoi s = Some p" and "1 \<le> p" and "s \<noteq> []"
  shows "parseListParams (list_request s) = Inr (no_filter, p, 50)"
  using assms by (simp add: parseListParams_def list_request_def parse_status_def parse_channel_def parse_date_def
      parse_bounded_def defaultLimit_def no_filter_def)

definition far_page :: int where
  "far_page = 288230376151711744"

lemma far_page: "Atoi (Itoa far_page) = Some far_page" "Itoa far_page \<noteq> []" "1 \<le> far_page"
  by (rule Atoi_Itoa) (simp_all add: Itoa_def far_page_def)

theorem parseListParams_in_range_witness:
  "1 \<le> far_page \<and> 1 \<le> (50 :: int) \<and> (50 :: int) \<le> 200
    \<and> sint (word_of_int far_page :: go_int) = far_page \<and> sint (word_of_int 50 :: go_int) = 50
    \<and> (lf_Status no_filter = [] \<or> Status_Valid (lf_Status no_filter))
    \<and> (lf_Channel no_filter = [] \<or> Channel_Valid (lf_Channel no_filter))"
  by (rule parseListParams_in_range [OF list_request_params [OF far_page(1,3,2)]])

section \<open>A page too far\<close>

lemma exec_always_fails:
  assumes "\<And>now d. \<exists>e. stmt now d = Inl e"
  shows "\<exists>e w'. exec F stmt w = (Inl e, w')"
proof (cases "exec F stmt w")
  case (Pair r w')
  then show ?thesis
  proof (cases rule: exec_cases)
    case (executed a)
    then show ?thesis using assms [of "seen_now F w" "seen_db F w"] by auto
  qed (use Pair in auto)
qed

lemma List_negative_offset:
  assumes "text_ok (lf_Status flt)" and "text_ok (lf_Channel flt)" and "sint ((page - 1) * limit) < 0"
  shows "\<exists>e w'. ListNotifications F flt page limit w = (Inl e, w')"
proof -
  obtain whr args where b: "buildListWhere flt = (whr, args)" by fastforce
  have "\<exists>e. sql_select F (selectSQL whr (length args)) (args @ [ArgInt limit, ArgInt ((page - 1) * limit)]) now d = Inl e" for now d
    using sql_select_reads [OF assms(1,2), of F limit "(page - 1) * limit" now d] assms(3) by (simp add: b)
  note x = exec_always_fails [where stmt = "sql_select F (selectSQL whr (length args)) (args @ [ArgInt limit, ArgInt ((page - 1) * limit)])", OF this]
  show ?thesis
    unfolding ListNotifications_def b prod.case Let_def
    using x by (auto split: prod.split sum.split) (metis sum.distinct(1) prod.inject)
qed

text \<open>The offset the query is given: the product wraps around in 64 bits.\<close>

definition page_offset :: "int \<Rightarrow> int \<Rightarrow> int" where
  "page_offset page limit = sint ((word_of_int page - 1) * word_of_int limit :: go_int)"

lemma list_params_text:
  assumes "parseListParams req = Inr (flt, page, limit)"
  shows "text_ok (lf_Status flt)" "text_ok (lf_Channel flt)" "sint (word_of_int limit :: go_int) = limit"
    "1 \<le> limit"
proof -
  have "lf_Status flt = [] \<or> Status_Valid (lf_Status flt)" "lf_Channel flt = [] \<or> Channel_Valid (lf_Channel flt)"
    using assms by (auto simp: parseListParams_def parse_status_def parse_channel_def split: sum.splits if_splits)
  then show "text_ok (lf_Status flt)" "text_ok (lf_Channel flt)"
    by (auto simp: Status_Valid_def Channel_Valid_iff text_ok_def valid_utf8_ascii split: if_splits)
  have "parse_bounded defaultLimit (Some maxLimit) (''limit must be between 1 and '' @ Itoa maxLimit)
      (rq_Query req ''limit'') = Inr limit"
    using assms unfolding parseListParams_def by (auto split: sum.splits)
  then have "1 \<le> limit \<and> limit < 2 ^ 63"
    using parse_bounded_range by (fastforce simp: defaultLimit_def)
  then show "sint (word_of_int limit :: go_int) = limit" "1 \<le> limit" by (simp_all add: sint_of_int)
qed

text \<open>C40: A page number that is accepted can still be too large for the query, whose offset is the
  product of page minus one and limit wrapped around in 64 bits. If the wrapped offset is
  negative, the request is answered with 500, on every server, instead of with an empty page.
  If it is not, a server that works answers 200 with the notifications found at the wrapped
  offset, under the page number asked for.\<close>

theorem far_page_fails:
  assumes "parseListParams req = Inr (flt, page, limit)"
    and "nh_svc H = service_port U s" and "svc_repo s = NewNotificationRepository F"
  shows "(page_offset page limit < 0 \<longrightarrow> rs_Status (fst (list_handler H V req empty_response w)) = Some 500)
    \<and> (quiet_server F \<longrightarrow> 0 \<le> page_offset page limit \<longrightarrow>
        fst (list_handler H V req empty_response w)
          = (let found = matching F flt (pg_db w)
             in writeJSON 200 (listResponse (map (notificationToResponse (he_uuid V))
                    (take (nat limit) (drop (nat (page_offset page limit)) found)))
                  page limit (int (length found))) empty_response))"
proof -
  note t = list_params_text [OF assms(1)]
  have run: "list_handler H V req empty_response w
      = (case ListNotifications F flt (word_of_int page) (word_of_int limit) w of
           (Inl err, w) \<Rightarrow> (writeError 500 ''failed to list notifications'' empty_response, w)
         | (Inr (items, cnt), w) \<Rightarrow>
             (writeJSON 200 (listResponse (map (notificationToResponse (he_uuid V)) items) page limit cnt)
                empty_response, w))"
    by (simp add: list_handler_def assms service_port_def Service_List_def NewNotificationRepository_def)
  have "rs_Status (fst (list_handler H V req empty_response w)) = Some 500" if "page_offset page limit < 0"
  proof -
    obtain e w' where "ListNotifications F flt (word_of_int page) (word_of_int limit) w = (Inl e, w')"
      using List_negative_offset [OF t(1,2)] \<open>page_offset page limit < 0\<close> unfolding page_offset_def by blast
    then show ?thesis by (simp add: run)
  qed
  moreover have "fst (list_handler H V req empty_response w)
      = (let found = matching F flt (pg_db w)
         in writeJSON 200 (listResponse (map (notificationToResponse (he_uuid V))
                (take (nat limit) (drop (nat (page_offset page limit)) found)))
              page limit (int (length found))) empty_response)"
    if "quiet_server F" "0 \<le> page_offset page limit"
  proof -
    have "0 \<le> sint (word_of_int limit :: go_int)"
      "0 \<le> sint ((word_of_int page - 1) * word_of_int limit :: go_int)"
      using \<open>0 \<le> page_offset page limit\<close> t(3,4) by (simp_all add: page_offset_def)
    from List_quiet [OF \<open>quiet_server F\<close> t(1,2) this, of w] show ?thesis
      unfolding run by (simp only: t(3) page_offset_def prod.case sum.case fst_conv Let_def)
  qed
  ultimately show ?thesis by blast
qed

text \<open>Two requests of the kind: one whose offset wraps to a negative number, and one, with a limit of
  64, whose offset wraps to zero and which is served the first page.\<close>

definition wrapped_page :: int where
  "wrapped_page = 288230376151711745"

definition wrapped_request :: request where
  "wrapped_request = (list_request [])\<lparr>rq_Query := (\<lambda>k. if k = ''page'' then Itoa wrapped_page
     else if k = ''limit'' then Itoa 64 else [])\<rparr>"

lemma wrapped_params: "parseListParams wrapped_request = Inr (no_filter, wrapped_page, 64)"
proof -
  have "Atoi (Itoa wrapped_page) = Some wrapped_page" "Atoi (Itoa 64) = Some 64"
    by (rule Atoi_Itoa; simp add: wrapped_page_def)+
  moreover have "Itoa wrapped_page \<noteq> []" "Itoa 64 \<noteq> []" by (simp_all add: Itoa_def wrapped_page_def)
  ultimately show ?thesis
    by (simp add: parseListParams_def wrapped_request_def list_request_def parse_status_def parse_channel_def
        parse_date_def parse_bounded_def defaultLimit_def maxLimit_def no_filter_def wrapped_page_def)
qed

definition list_port :: "pg NotificationHandler" where
  "list_port = \<lparr>nh_svc = service_port binary_uuid (NewNotificationService (NewNotificationRepository plain_server)
     (\<lambda>k hs b w. (None, w)) (\<lambda>w. 5) (\<lambda>w. (1, w))), nh_rateLimiter = None, nh_metrics = None\<rparr>"

definition list_env :: "pg http_env" where
  "list_env = \<lparr>he_uuid = binary_uuid, he_newID = (\<lambda>w. (1, w)), he_now = (\<lambda>w. 5), he_order = (\<lambda>c w. c)\<rparr>"

theorem far_page_fails_witness:
  "rs_Status (fst (list_handler list_port list_env (list_request (Itoa far_page)) empty_response sample_pg)) = Some 500
    \<and> fst (list_handler list_port list_env wrapped_request empty_response sample_pg)
      = (let found = matching plain_server no_filter (pg_db sample_pg)
         in writeJSON 200 (listResponse (map (notificationToResponse binary_uuid) (take 64 found))
              wrapped_page 64 (int (length found))) empty_response)"
proof -
  note at = far_page_fails [where H = list_port and V = list_env and w = sample_pg and F = plain_server
      and U = binary_uuid and s = "NewNotificationService (NewNotificationRepository plain_server)
        (\<lambda>k hs b w. (None, w)) (\<lambda>w. 5) (\<lambda>w. (1, w))"]
  have "page_offset far_page 50 < 0" by (simp add: page_offset_def far_page_def)
  moreover have "page_offset wrapped_page 64 = 0" by (simp add: page_offset_def wrapped_page_def)
  moreover have "nat 64 = (64 :: nat)" by simp
  ultimately show ?thesis
    using at [OF list_request_params [OF far_page(1,3,2)]] at [OF wrapped_params]
    by (simp only: list_port_def list_env_def NewNotificationService_def NotificationHandler.simps
        NotificationService.simps http_env.simps plain_quiet simp_thms order.refl drop_0 nat_0 Let_def)
qed

section \<open>A batch larger than the bucket\<close>

text \<open>The limiter as the handler's port, beside the rest of the world.\<close>

definition limiter_port ::
  "('f, 'l, 'r) rate_lib \<Rightarrow> ('v \<Rightarrow> time) \<Rightarrow> (('f, 'l) ChannelLimiter \<times> 'v) ChannelRateLimiter" where
  "limiter_port R clock ch n w =
     (case AllowChannel R (clock (snd w)) ch n (fst w) of (a, c) \<Rightarrow> (a, (c, snd w)))"

text \<open>The documented behaviour of \<open>rate.Limiter\<close> with a finite rate: a reservation of more than the
  burst is not OK, and reserving or cancelling does not change the burst.\<close>

definition burst_lib_ok :: "('f, 'l, 'r) rate_lib \<Rightarrow> ('l \<Rightarrow> go_int) \<Rightarrow> bool" where
  "burst_lib_ok R burst_of \<longleftrightarrow>
     (\<forall>rps b. burst_of (rt_NewLimiter R rps b) = b)
     \<and> (\<forall>l now n r l'. rt_ReserveN R l now n = (r, l')
          \<longrightarrow> burst_of l' = burst_of l \<and> (sint (burst_of l) < sint n \<longrightarrow> \<not> rt_OK R r))
     \<and> (\<forall>r l. burst_of (rt_Cancel R r l) = burst_of l)"

definition bursts_ok :: "('l \<Rightarrow> go_int) \<Rightarrow> ('f, 'l) ChannelLimiter \<Rightarrow> bool" where
  "bursts_ok burst_of c \<longleftrightarrow> (\<forall>ch l. cl_limiters c ch = Some l \<longrightarrow> burst_of l = cl_burst c)"

lemma AllowChannel_bursts:
  assumes "burst_lib_ok R burst_of" and "bursts_ok burst_of c"
  shows "bursts_ok burst_of (snd (AllowChannel R now ch n c))"
    and "sint (cl_burst c) < sint n \<Longrightarrow> \<not> fst (fst (AllowChannel R now ch n c))"
proof -
  obtain l c1 where l: "limiterFor R ch c = (l, c1)" by fastforce
  then have b: "burst_of l = cl_burst c" "bursts_ok burst_of c1" "cl_burst c1 = cl_burst c"
    using assms by (auto simp: limiterFor_def bursts_ok_def burst_lib_ok_def Let_def split: option.splits if_splits)
  obtain r l1 where r: "rt_ReserveN R l now n = (r, l1)" by fastforce
  then have r': "burst_of l1 = cl_burst c" "burst_of (rt_Cancel R r l1) = cl_burst c"
    "sint (cl_burst c) < sint n \<Longrightarrow> \<not> rt_OK R r"
    using assms(1) b(1) unfolding burst_lib_ok_def by metis+
  show "bursts_ok burst_of (snd (AllowChannel R now ch n c))"
    using b r' by (simp add: AllowChannel_def l r Let_def bursts_ok_def)
  show "sint (cl_burst c) < sint n \<Longrightarrow> \<not> fst (fst (AllowChannel R now ch n c))"
    using r'(3) by (simp add: AllowChannel_def l r Let_def)
qed

lemma ask_limits_sticky: "fst acc \<Longrightarrow> fst (fst (ask_limits allow cnt chs acc w))"
proof (induction chs arbitrary: acc w)
  case (Cons ch chs)
  then show ?case by (cases acc) (simp split: prod.split)
qed simp

lemma ask_limits_over_burst:
  assumes "burst_lib_ok R burst_of"
  shows "bursts_ok burst_of c \<Longrightarrow> ch \<in> set chs \<Longrightarrow> sint (cl_burst c) < sint (cnt ch)
    \<Longrightarrow> fst (fst (ask_limits (limiter_port R clock) cnt chs acc (c, v)))"
proof (induction chs arbitrary: acc c)
  case (Cons ch' chs)
  obtain ok wait c1 where a: "AllowChannel R (clock v) ch' (cnt ch') c = ((ok, wait), c1)" by (metis prod.collapse)
  have c1: "bursts_ok burst_of c1" "cl_burst c1 = cl_burst c"
    using AllowChannel_bursts(1) [OF assms Cons.prems(1)] AllowChannel_config [of R "clock v" ch' "cnt ch'" c] a
    by (metis snd_conv)+
  obtain lim mx where acc: "acc = (lim, mx)" by fastforce
  show ?case
  proof (cases "ch = ch'")
    case True
    then have "\<not> ok" using AllowChannel_bursts(2) [OF assms Cons.prems(1)] a Cons.prems(3) by (metis fst_conv)
    then show ?thesis using a acc by (simp add: limiter_port_def ask_limits_sticky)
  next
    case False
    then have "ch \<in> set chs" using Cons.prems(2) by simp
    then show ?thesis using Cons.IH [OF c1(1)] Cons.prems(3) c1(2) a acc by (simp add: limiter_port_def)
  qed
qed simp

text \<open>Calls of the limiter, from any clients.\<close>

definition use_limiter ::
  "('f, 'l, 'r) rate_lib \<Rightarrow> time \<times> Channel \<times> go_int \<Rightarrow> ('f, 'l) ChannelLimiter \<Rightarrow> ('f, 'l) ChannelLimiter" where
  "use_limiter R call c = (case call of (now, ch, n) \<Rightarrow> snd (AllowChannel R now ch n c))"

lemma used_limiter:
  assumes "burst_lib_ok R burst_of"
  shows "bursts_ok burst_of c \<Longrightarrow> bursts_ok burst_of (fold (use_limiter R) calls c)
    \<and> cl_burst (fold (use_limiter R) calls c) = cl_burst c"
proof (induction calls arbitrary: c)
  case (Cons call calls)
  obtain now ch n where "call = (now, ch, n)" by (cases call)
  then show ?case
    using Cons.IH [of "use_limiter R call c"] AllowChannel_bursts(1) [OF assms Cons.prems] AllowChannel_config [of R now ch n c]
    by (simp add: use_limiter_def)
qed simp

lemma channel_count_value:
  assumes "length xs \<le> 1000"
  shows "sint (channel_count xs ch) = int (length (filter (\<lambda>x. cr_Channel x = ch) xs))"
proof -
  have "length (filter (\<lambda>x. cr_Channel x = ch) xs) \<le> 1000"
    using assms length_filter_le [of "\<lambda>x. cr_Channel x = ch" xs] by linarith
  then show ?thesis using sint_of_int [of "int (length (filter (\<lambda>x. cr_Channel x = ch) xs))"]
    by (simp add: channel_count_def)
qed

text \<open>C24: A valid batch of at most 1000 notifications that has more on one channel than the burst of
  the rate limiter is refused with 429 at whatever time it is sent and whatever the limiter was
  used for before, so the \<open>Retry-After\<close> of the answer never helps.\<close>

theorem oversized_batch_never_accepted:
  assumes "burst_lib_ok R burst_of" and "nh_rateLimiter H = Some (limiter_port R clock)"
    and "DecodeLimited (10 * 2 ^ 20) batch_fields ([], 0) (rq_Body req) = Some b"
    and "length (batch_Notifications b) \<le> 1000" and "validation_errors 0 (batch_Notifications b) = []"
    and "sint burst < int (length (filter (\<lambda>x. cr_Channel x = ch) (batch_Notifications b)))" and "0 \<le> sint burst"
    and "\<And>chs w. set (he_order V chs w) = set chs"
  shows "rs_Status (fst (createBatch H V req empty_response (fold (use_limiter R) calls (NewChannelLimiter rps burst), v))) = Some 429"
proof -
  let ?xs = "batch_Notifications b" and ?c = "fold (use_limiter R) calls (NewChannelLimiter rps burst)"
  let ?order = "he_order V (channels_of ?xs) (?c, v)"
  have c: "bursts_ok burst_of ?c" "cl_burst ?c = burst"
    using used_limiter [OF assms(1), of "NewChannelLimiter rps burst" calls]
    by (simp_all add: bursts_ok_def NewChannelLimiter_def)
  have "filter (\<lambda>x. cr_Channel x = ch) ?xs \<noteq> []" using assms(6,7) by (metis int_ops(1) list.size(3) not_less)
  then have mem: "ch \<in> set ?order" and ne: "?xs \<noteq> []"
    using assms(8) by (auto simp: channels_of_def filter_empty_conv)
  have count: "sint (cl_burst ?c) < sint (channel_count ?xs ch)"
    using assms(4,6) c(2) channel_count_value by simp
  obtain mx w' where a: "ask_limits (limiter_port R clock) (channel_count ?xs) ?order (False, 0) (?c, v) = ((True, mx), w')"
    using ask_limits_over_burst [where chs = ?order and cnt = "channel_count ?xs", OF assms(1) c(1) mem count,
        of clock "(False, 0)" v] by (metis prod.collapse)
  have "createBatch H V req empty_response (?c, v) = batch_checked H V req ?xs empty_response (?c, v)"
    unfolding createBatch_def assms(3) using assms(4,5) ne by (simp add: Let_def maxBatchSize_def)
  also have "rs_Status (fst \<dots>) = Some 429"
    unfolding batch_checked_def assms(2) option.case Let_def a prod.case by (simp add: rate_limited_status)
  finally show ?thesis .
qed

text \<open>A limiter with a burst and tokens that do not refill, and a service that is never called.\<close>

definition bucket_lib :: "(unit, go_int \<times> int, bool) rate_lib" where
  "bucket_lib =
     \<lparr>rt_NewLimiter = (\<lambda>rps b. (b, sint b)),
      rt_ReserveN = (\<lambda>l now n. if sint n \<le> sint (fst l) \<and> sint n \<le> snd l then (True, (fst l, snd l - sint n)) else (False, l)),
      rt_OK = id, rt_DelayFrom = (\<lambda>r now. 0), rt_Cancel = (\<lambda>r l. l), rt_wait = (\<lambda>n rps. 0)\<rparr>"

lemma bucket_lib_ok: "burst_lib_ok bucket_lib fst"
  by (auto simp: burst_lib_ok_def bucket_lib_def)

definition idle_service :: "'w ServicePort" where
  "idle_service =
     \<lparr>sp_Create = (\<lambda>i w. (Inl ErrNotFound, w)), sp_CreateWithIdempotency = (\<lambda>i k w. (Inl ErrNotFound, w)),
      sp_CreateBatch = (\<lambda>i w. (Inl ErrNotFound, w)), sp_Get = (\<lambda>i w. (Inl ErrNotFound, w)),
      sp_GetBatchSummary = (\<lambda>i w. (Inl ErrNotFound, w)), sp_List = (\<lambda>f p l w. (Inl ErrNotFound, w)),
      sp_Cancel = (\<lambda>i w. (Inl ErrNotFound, w))\<rparr>"

theorem oversized_batch_never_accepted_witness:
  "rs_Status (fst (createBatch
     \<lparr>nh_svc = idle_service, nh_rateLimiter = Some (limiter_port bucket_lib (\<lambda>v. 0)), nh_metrics = None\<rparr>
     \<lparr>he_uuid = binary_uuid, he_newID = (\<lambda>w. (1, w)), he_now = (\<lambda>w. 5), he_order = (\<lambda>c w. c)\<rparr>
     (sample_request\<lparr>rq_Body := one_batch\<rparr>) empty_response
     (fold (use_limiter bucket_lib) [(0, ''sms'', 1)] (NewChannelLimiter () 0), ()))) = Some 429"
  by (rule oversized_batch_never_accepted [OF bucket_lib_ok, where b = "([one_item], 1)" and ch = "''sms''"])
    (simp_all add: one_batch_decoded [simplified] batch_Notifications_def one_item_valid [simplified], simp add: one_item_def)

section \<open>Buckets for channels that do not exist\<close>

lemma AllowChannel_dom:
  "dom (cl_limiters (snd (AllowChannel R now ch n c))) = insert ch (dom (cl_limiters c))"
  by (auto simp: AllowChannel_def limiterFor_def Let_def split: option.splits prod.splits if_splits)

text \<open>The channel the body of a creation names.\<close>

definition asked_channel :: "request \<Rightarrow> Channel option" where
  "asked_channel req =
     map_option cr_Channel (DecodeLimited (2 ^ 20) create_fields createNotificationRequest_zero (rq_Body req))"

lemma create_unknown_channel:
  assumes "nh_rateLimiter H = Some (limiter_port R clock)" and "nh_svc H = service_port U s"
    and "\<And>w. fst (snd (svc_newID s w)) = fst w" and "\<And>w. fst (snd (he_newID V w)) = fst w"
    and "\<And>m w. fst (nh_emit H m w) = fst w" and "rq_Header req ''Idempotency-Key'' = []"
    and "asked_channel req = Some ch" and "\<not> Channel_Valid ch"
  shows "dom (cl_limiters (fst (snd (create H V req r w)))) = insert ch (dom (cl_limiters (fst w)))
    \<and> rs_Status (fst (create H V req empty_response w)) \<in> {Some 400, Some 429}"
proof -
  obtain x where x: "DecodeLimited (2 ^ 20) create_fields createNotificationRequest_zero (rq_Body req) = Some x"
    "cr_Channel x = ch" using assms(7) by (auto simp: asked_channel_def)
  obtain ok wait w1 where a: "limiter_port R clock ch 1 w = ((ok, wait), w1)" by (metis prod.collapse)
  have d: "dom (cl_limiters (fst w1)) = insert ch (dom (cl_limiters (fst w)))"
    using a AllowChannel_dom [of R "clock (snd w)" ch 1 "fst w"]
    by (simp add: limiter_port_def split: prod.splits) (metis fst_conv snd_conv)
  obtain cid w2 where w2: "request_cid V req w1 = (cid, w2)" by (cases "request_cid V req w1")
  then have f2: "fst w2 = fst w1" using assms(4) [of w1] by (auto simp: request_cid_def split: option.splits)
  have "Validate (new_notification i c b k t (create_input cid x)) \<noteq> None" for i c b k t
    using Validate_channel [of "new_notification i c b k t (create_input cid x)"] assms(8) x(2)
    by (auto simp: new_notification_def create_input_def)
  then have invalid: "\<exists>e. Validate (new_notification i c b k t (create_input cid x)) = Some e" for i c b k t by blast
  obtain i w3 where n: "svc_newID s w2 = (i, w3)" by (cases "svc_newID s w2")
  obtain err where "Validate (new_notification i cid None None (svc_now s w2) (create_input cid x)) = Some err"
    using invalid by blast
  then have c: "Create U s (create_input cid x) w2 = (Inl (ErrorWrap [] ErrInvalidInput ('': '' @ error_text err)), w3)"
    by (simp add: Create_def n create_input_def)
  define e where "e = '': '' @ error_text err"
  note c = c [folded e_def]
  have f3: "fst w3 = fst w2" using assms(3) [of w2] by (simp add: n)
  have "create_allowed H V req x r w1 = (create_failed (ErrorWrap [] ErrInvalidInput e) ''failed to create notification'' r, w3)" for r
    using assms(2,6) by (simp add: create_allowed_def w2 TrimSpace_empty_iff create_without_key_def service_port_def c)
  then have "create H V req r w = (if \<not> ok then (rate_limited wait r, nh_emit H (MInc RateLimitRejected [ch]) w1)
      else (create_failed (ErrorWrap [] ErrInvalidInput e) ''failed to create notification'' r, w3))" for r
    using x by (simp add: create_def assms(1) a)
  moreover have "rs_Status empty_response = None" by (simp add: empty_response_def)
  ultimately show ?thesis using d f2 f3 assms(5)
    by (simp add: rate_limited_status create_failed_def)
qed

text \<open>C25: The rate limiter is asked before the channel of a request is validated, and keeps a bucket for
  every name it is asked about: requests for channels that do not exist are all answered with 400
  or 429, and each new name adds a bucket that nothing removes.\<close>

theorem unknown_channels_fill_limiter:
  assumes "nh_rateLimiter H = Some (limiter_port R clock)" and "nh_svc H = service_port U s"
    and "\<And>w. fst (snd (svc_newID s w)) = fst w" and "\<And>w. fst (snd (he_newID V w)) = fst w"
    and "\<And>m w. fst (nh_emit H m w) = fst w"
    and "list_all (\<lambda>req. rq_Header req ''Idempotency-Key'' = []) reqs"
    and "map asked_channel reqs = map Some chs" and "list_all (\<lambda>ch. \<not> Channel_Valid ch) chs"
  shows "dom (cl_limiters (fst (fold (\<lambda>req w. snd (create H V req empty_response w)) reqs w)))
      = set chs \<union> dom (cl_limiters (fst w))
    \<and> list_all (\<lambda>req. rs_Status (fst (create H V req empty_response w)) \<in> {Some 400, Some 429}) reqs"
proof -
  have one: "dom (cl_limiters (fst (snd (create H V req empty_response v)))) = insert ch (dom (cl_limiters (fst v)))
      \<and> rs_Status (fst (create H V req empty_response v)) \<in> {Some 400, Some 429}"
    if "rq_Header req ''Idempotency-Key'' = []" "asked_channel req = Some ch" "\<not> Channel_Valid ch" for req ch v
    by (rule create_unknown_channel [OF assms(1-5) that])
  show ?thesis using assms(6-8)
  proof (induction reqs arbitrary: chs w)
    case (Cons req reqs)
    then obtain ch cs where chs: "chs = ch # cs" "asked_channel req = Some ch" "map asked_channel reqs = map Some cs"
      by (cases chs) auto
    let ?w1 = "snd (create H V req empty_response w)"
    have s: "list_all (\<lambda>req. rs_Status (fst (create H V req empty_response v)) \<in> {Some 400, Some 429}) reqs" for v
      using Cons.IH [of cs v] Cons.prems chs by simp
    show ?case using Cons.IH [of cs ?w1] one [of req ch w] Cons.prems chs s [of w] by auto
  qed simp
qed

definition fax_request :: "go_string \<Rightarrow> request" where
  "fax_request ch = sample_request\<lparr>rq_Body := encode_object [(''channel'', ch)]\<rparr>"

lemma fax_request_asks: "map asked_channel [fax_request ''fax'', fax_request ''telex''] = map Some [''fax'', ''telex'']"
proof -
  have "parse_prefix (encode_object [(''channel'', ''fax'')]) = Some (JObj [(''channel'', JStr ''fax'')], [])"
    "parse_prefix (encode_object [(''channel'', ''telex'')]) = Some (JObj [(''channel'', JStr ''telex'')], [])"
    "length (encode_object [(''channel'', ''fax'')]) = 17" "length (encode_object [(''channel'', ''telex'')]) = 19"
    by code_simp+
  moreover have "decode_struct create_fields createNotificationRequest_zero (JObj [(''channel'', JStr s)])
      = Some (createNotificationRequest_zero\<lparr>cr_Channel := s\<rparr>)" if "s \<in> {''fax'', ''telex''}" for s
    using that by (elim insertE emptyE; simp only: ; code_simp)
  ultimately show ?thesis by (simp add: asked_channel_def fax_request_def DecodeLimited_def)
qed

text \<open>A repository that finds nothing.\<close>

definition no_repo :: "'w Repository" where
  "no_repo =
     \<lparr>repo_Insert = (\<lambda>n w. (None, w)), repo_GetByID = (\<lambda>i w. (Inl ErrNotFound, w)),
      repo_UpdateStatus = (\<lambda>i s w. (None, w)), repo_InsertBatch = (\<lambda>b ns w. (None, w)),
      repo_GetBatchSummary = (\<lambda>b w. (Inl ErrNotFound, w)), repo_List = (\<lambda>f p l w. (Inl ErrNotFound, w)),
      repo_CancelIfPending = (\<lambda>i w. (Inl ErrNotFound, w)), repo_GetByIdempotencyKey = (\<lambda>k w. (Inl ErrNotFound, w))\<rparr>"

theorem unknown_channels_fill_limiter_witness:
  "let H = \<lparr>nh_svc = service_port binary_uuid
              (NewNotificationService no_repo (\<lambda>k hs b w. (None, w)) (\<lambda>w. 5) (\<lambda>w. (1, w))),
            nh_rateLimiter = Some (limiter_port bucket_lib (\<lambda>v. 0)), nh_metrics = None\<rparr>;
       V = \<lparr>he_uuid = binary_uuid, he_newID = (\<lambda>w. (1, w)), he_now = (\<lambda>w. 5), he_order = (\<lambda>c w. c)\<rparr>;
       reqs = [fax_request ''fax'', fax_request ''telex'']; w = (NewChannelLimiter () 5, ())
   in dom (cl_limiters (fst (fold (\<lambda>req w. snd (create H V req empty_response w)) reqs w)))
        = set [''fax'', ''telex''] \<union> dom (cl_limiters (fst w))
      \<and> list_all (\<lambda>req. rs_Status (fst (create H V req empty_response w)) \<in> {Some 400, Some 429}) reqs"
  unfolding Let_def
  by (rule unknown_channels_fill_limiter [OF _ _ _ _ _ _ fax_request_asks, where R = bucket_lib and clock = "\<lambda>v. 0"
        and U = binary_uuid and s = "NewNotificationService no_repo (\<lambda>k hs b w. (None, w)) (\<lambda>w. 5) (\<lambda>w. (1, w))"])
    (simp_all add: NewNotificationService_def nh_emit_def fax_request_def sample_request_def Channel_Valid_iff)

end
