(* ===== verification/Startup.thy ===== *)
theory Startup
  imports System Http_Admin
begin

text \<open>
  Configuration, start-up and shut-down: \<open>internal/config\<close>, \<open>internal/platform\<close> (logger level,
  connection pool), \<open>internal/adapter/rabbitmq/connection.go\<close> and \<open>run\<close> of the two processes. The
  calls of the libraries are ports; a deferred call runs after the rest of the function, the
  latest first. Signals, the passing of time and log lines are part of the environment.
\<close>

section \<open>config.go\<close>

text \<open>\<open>RateLimitPerSecond\<close> is a \<open>float64\<close>, which the model only passes on.\<close>

record 'f Config =
  cf_HTTPPort :: go_string
  cf_MetricsPort :: go_string
  cf_DBDSN :: go_string
  cf_RMQURL :: go_string
  cf_WebhookURL :: go_string
  cf_WebhookTimeout :: duration
  cf_LogLevel :: go_string
  cf_ShutdownTimeout :: duration
  cf_RateLimitPerSecond :: 'f
  cf_RateLimitBurst :: go_int
  cf_CBFailureThreshold :: "32 word"
  cf_CBOpenDuration :: duration
  cf_CBHalfOpenMaxCalls :: "32 word"
  cf_EmailConcurrency :: go_int
  cf_SMSConcurrency :: go_int
  cf_PushConcurrency :: go_int

text \<open>The tags of the struct, as \<open>env.Parse\<close> reads them: a variable with its default, or none if
  it is required.\<close>

definition config_tags :: "(go_string \<times> go_string option) list" where
  "config_tags =
     [(''HTTP_PORT'', Some ''8080''), (''METRICS_PORT'', Some ''9090''), (''DB_DSN'', None), (''RMQ_URL'', None),
      (''WEBHOOK_URL'', None), (''WEBHOOK_TIMEOUT'', Some ''10s''), (''LOG_LEVEL'', Some ''info''),
      (''SHUTDOWN_TIMEOUT'', Some ''30s''), (''RATE_LIMIT_PER_SECOND'', Some ''100''), (''RATE_LIMIT_BURST'', Some ''200''),
      (''CB_FAILURE_THRESHOLD'', Some ''5''), (''CB_OPEN_DURATION'', Some ''30s''), (''CB_HALF_OPEN_MAX_CALLS'', Some ''2''),
      (''EMAIL_CONCURRENCY'', Some ''1''), (''SMS_CONCURRENCY'', Some ''1''), (''PUSH_CONCURRENCY'', Some ''5'')]"

definition Load :: "((go_string \<times> go_string option) list \<Rightarrow> 'w \<Rightarrow> (goerror + 'f Config) \<times> 'w) \<Rightarrow> 'w \<Rightarrow> (goerror + 'f Config) \<times> 'w" where
  "Load env_Parse w =
     (case env_Parse config_tags w of
        (Inl err, w) \<Rightarrow> (Inl (ErrorWrap ''parse env: '' err []), w)
      | (Inr cfg, w) \<Rightarrow> (Inr cfg, w))"

section \<open>logger.go\<close>

datatype log_level = LevelDebug | LevelInfo | LevelWarn | LevelError

text \<open>\<open>strings.ToLower\<close>, on the ASCII letters; the other runes that have an ASCII lower case lead
  to \<open>i\<close> and \<open>k\<close>, which no level contains.\<close>

definition lower_char :: "char \<Rightarrow> char" where
  "lower_char c = (if 65 \<le> byte c \<and> byte c \<le> 90 then char_of (byte c + 32) else c)"

definition logger_level :: "go_string \<Rightarrow> log_level" where
  "logger_level level =
     (let l = map lower_char level
      in if l = ''debug'' then LevelDebug else if l = ''warn'' then LevelWarn
         else if l = ''error'' then LevelError else LevelInfo)"

section \<open>The HTTP servers\<close>

text \<open>\<open>http.Server\<close>, with the fields the two processes set besides the handler, which is the
  business of \<open>Router\<close>. A field that is not set is zero, which is no time limit.\<close>

record http_server =
  srv_Addr :: go_string
  srv_ReadHeaderTimeout :: duration
  srv_ReadTimeout :: duration
  srv_WriteTimeout :: duration
  srv_IdleTimeout :: duration

definition api_server :: "'f Config \<Rightarrow> http_server" where
  "api_server cfg =
     \<lparr>srv_Addr = '':'' @ cf_HTTPPort cfg, srv_ReadHeaderTimeout = 5 * Second, srv_ReadTimeout = 30 * Second,
      srv_WriteTimeout = 30 * Second, srv_IdleTimeout = 120 * Second\<rparr>"

definition worker_server :: "go_string \<Rightarrow> http_server" where
  "worker_server port =
     \<lparr>srv_Addr = '':'' @ port, srv_ReadHeaderTimeout = 5 * Second, srv_ReadTimeout = 0,
      srv_WriteTimeout = 0, srv_IdleTimeout = 0\<rparr>"

section \<open>Libraries\<close>

text \<open>The calls \<open>run\<close> makes. Channels of the connection are numbered. \<open>lb_Wait\<close> is the \<open>select\<close>
  of the API: nil for a signal or a server that closed, else the server's error.\<close>

record ('f, 'w) libs =
  lb_Parse :: "(go_string \<times> go_string option) list \<Rightarrow> 'w \<Rightarrow> (goerror + 'f Config) \<times> 'w"
  lb_ParseConfig :: "go_string \<Rightarrow> 'w \<Rightarrow> goerror option \<times> 'w"
  lb_NewWithConfig :: "'w \<Rightarrow> goerror option \<times> 'w"
  lb_PoolPing :: "'w \<Rightarrow> goerror option \<times> 'w"
  lb_PoolClose :: "'w \<Rightarrow> 'w"
  lb_Dial :: "go_string \<Rightarrow> 'w \<Rightarrow> goerror option \<times> 'w"
  lb_IsClosed :: "'w \<Rightarrow> bool"
  lb_ConnClose :: "'w \<Rightarrow> goerror option \<times> 'w"
  lb_Channel :: "'w \<Rightarrow> (goerror + nat) \<times> 'w"
  lb_channel :: "nat \<Rightarrow> 'w amqp_channel"
  lb_Declare :: "nat \<Rightarrow> amqp_decl \<Rightarrow> 'w \<Rightarrow> goerror option \<times> 'w"
  lb_Qos :: "nat \<Rightarrow> go_int \<Rightarrow> 'w \<Rightarrow> goerror option \<times> 'w"
  lb_ChClose :: "nat \<Rightarrow> 'w \<Rightarrow> 'w"
  lb_Hostname :: "go_string"
  lb_Listen :: "http_server \<Rightarrow> 'w \<Rightarrow> 'w"
  lb_Wait :: "'w \<Rightarrow> goerror option \<times> 'w"
  lb_Shutdown :: "duration \<Rightarrow> 'w \<Rightarrow> 'w"

definition deferring :: "('w \<Rightarrow> 'w) \<Rightarrow> ('w \<Rightarrow> 'a \<times> 'w) \<Rightarrow> 'w \<Rightarrow> 'a \<times> 'w" where
  "deferring close body w = (case body w of (r, w) \<Rightarrow> (r, close w))"

section \<open>db.go and connection.go\<close>

definition NewPgxPool :: "('f, 'w) libs \<Rightarrow> go_string \<Rightarrow> 'w \<Rightarrow> goerror option \<times> 'w" where
  "NewPgxPool L dsn w =
     (case lb_ParseConfig L dsn w of
        (Some err, w) \<Rightarrow> (Some (ErrorWrap ''parse pg dsn: '' err []), w)
      | (None, w) \<Rightarrow>
          (case lb_NewWithConfig L w of
             (Some err, w) \<Rightarrow> (Some (ErrorWrap ''create pg pool: '' err []), w)
           | (None, w) \<Rightarrow>
               (case lb_PoolPing L w of
                  (Some err, w) \<Rightarrow> (Some (ErrorWrap ''ping pg: '' err []), lb_PoolClose L w)
                | (None, w) \<Rightarrow> (None, w))))"

definition Connection_Dial :: "('f, 'w) libs \<Rightarrow> go_string \<Rightarrow> 'w \<Rightarrow> goerror option \<times> 'w" where
  "Connection_Dial L url w =
     (case lb_Dial L url w of
        (Some err, w) \<Rightarrow> (Some (ErrorWrap ''dial amqp: '' err []), w)
      | (None, w) \<Rightarrow> (None, w))"

definition Connection_Channel :: "('f, 'w) libs \<Rightarrow> 'w \<Rightarrow> (goerror + nat) \<times> 'w" where
  "Connection_Channel L w =
     (case lb_Channel L w of
        (Inl err, w) \<Rightarrow> (Inl (ErrorWrap ''open channel: '' err []), w)
      | (Inr ch, w) \<Rightarrow> (Inr ch, w))"

definition Connection_IsClosed :: "('f, 'w) libs \<Rightarrow> 'w \<Rightarrow> bool" where
  "Connection_IsClosed L w = lb_IsClosed L w"

definition Connection_Close :: "('f, 'w) libs \<Rightarrow> 'w \<Rightarrow> goerror option \<times> 'w" where
  "Connection_Close L w = (if lb_IsClosed L w then (None, w) else lb_ConnClose L w)"

section \<open>Common to both processes\<close>

text \<open>Loading the configuration, connecting to Postgres and to RabbitMQ, declaring the topology on a
  channel of its own; \<open>body\<close> is the rest of \<open>run\<close>.\<close>

definition with_topology :: "('f, 'w) libs \<Rightarrow> ('w \<Rightarrow> goerror option \<times> 'w) \<Rightarrow> 'w \<Rightarrow> goerror option \<times> 'w" where
  "with_topology L body w =
     (case Connection_Channel L w of
        (Inl err, w) \<Rightarrow> (Some (ErrorWrap ''open topology channel: '' err []), w)
      | (Inr topoCh, w) \<Rightarrow>
          (case DeclareTopologyWith (lb_Declare L topoCh) ProductionTopology w of
             (Some err, w) \<Rightarrow> (Some (ErrorWrap ''declare topology: '' err []), w)
           | (None, w) \<Rightarrow> body (lb_ChClose L topoCh w)))"

definition with_rabbitmq ::
  "('f, 'w) libs \<Rightarrow> go_string \<Rightarrow> ('w \<Rightarrow> goerror option \<times> 'w) \<Rightarrow> 'w \<Rightarrow> goerror option \<times> 'w" where
  "with_rabbitmq L url body w =
     (case Connection_Dial L url w of
        (Some err, w) \<Rightarrow> (Some (ErrorWrap ''connect rabbitmq: '' err []), w)
      | (None, w) \<Rightarrow> deferring (\<lambda>w. snd (Connection_Close L w)) (with_topology L body) w)"

definition with_connections ::
  "('f, 'w) libs \<Rightarrow> ('f Config \<Rightarrow> 'w \<Rightarrow> goerror option \<times> 'w) \<Rightarrow> 'w \<Rightarrow> goerror option \<times> 'w" where
  "with_connections L body w =
     (case Load (lb_Parse L) w of
        (Inl err, w) \<Rightarrow> (Some err, w)
      | (Inr cfg, w) \<Rightarrow>
          (case NewPgxPool L (cf_DBDSN cfg) w of
             (Some err, w) \<Rightarrow> (Some (ErrorWrap ''connect postgres: '' err []), w)
           | (None, w) \<Rightarrow>
               deferring (lb_PoolClose L) (with_rabbitmq L (cf_RMQURL cfg) (body cfg)) w))"

section \<open>cmd/api/main.go\<close>

definition api_serve :: "('f, 'w) libs \<Rightarrow> 'f Config \<Rightarrow> 'w Publisher \<Rightarrow> 'w \<Rightarrow> goerror option \<times> 'w" where
  "api_serve L cfg publisher w =
     (case lb_Wait L (lb_Listen L (api_server cfg) w) of
        (Some err, w) \<Rightarrow> (Some (ErrorWrap ''http server: '' err []), w)
      | (None, w) \<Rightarrow> (None, lb_Shutdown L (cf_ShutdownTimeout cfg) w))"

definition api_body :: "('f, 'w) libs \<Rightarrow> 'f Config \<Rightarrow> 'w \<Rightarrow> goerror option \<times> 'w" where
  "api_body L cfg w =
     (case Connection_Channel L w of
        (Inl err, w) \<Rightarrow> (Some (ErrorWrap ''open publisher channel: '' err []), w)
      | (Inr pubCh, w) \<Rightarrow>
          deferring (lb_ChClose L pubCh)
            (\<lambda>w. case NewPublisher (lb_channel L pubCh) ExchangeNotifications w of
               (Inl err, w) \<Rightarrow> (Some (ErrorWrap ''create publisher: '' err []), w)
             | (Inr publisher, w) \<Rightarrow> api_serve L cfg publisher w) w)"

definition api_run :: "('f, 'w) libs \<Rightarrow> 'w \<Rightarrow> goerror option \<times> 'w" where
  "api_run L w = with_connections L (api_body L) w"

text \<open>\<open>main\<close>: what is written to the standard error and the exit code.\<close>

definition api_main :: "('f, 'w) libs \<Rightarrow> 'w \<Rightarrow> (go_string \<times> nat) \<times> 'w" where
  "api_main L w =
     (case api_run L w of
        (Some err, w) \<Rightarrow> ((''api exited: '' @ error_text err @ [CHR 0x0A], 1), w)
      | (None, w) \<Rightarrow> (([], 0), w))"

section \<open>cmd/worker/main.go\<close>

definition concurrencyFor :: "go_string \<Rightarrow> 'f Config \<Rightarrow> go_int" where
  "concurrencyFor queue cfg =
     (if take 5 queue = ''email'' then cf_EmailConcurrency cfg
      else if take 3 queue = ''sms'' then cf_SMSConcurrency cfg
      else if take 4 queue = ''push'' then cf_PushConcurrency cfg
      else 1)"

definition consumer_options :: "go_string \<Rightarrow> 'f Config \<Rightarrow> nat \<Rightarrow> QueueBinding \<Rightarrow> ConsumerOptions" where
  "consumer_options hostname cfg i b =
     (let c = concurrencyFor (qb_Queue b) cfg;
          prefetch = (if sint (10 :: go_int) < sint c then c else 10)
      in \<lparr>co_ConsumerTag = ''worker-'' @ hostname @ ''-'' @ qb_Queue b @ ''-'' @ Itoa (int i),
          co_PrefetchCount = prefetch, co_ShutdownTimeout = cf_ShutdownTimeout cfg, co_Concurrency = c\<rparr>)"

text \<open>One consumer for each binding, each on a channel that is closed when \<open>run\<close> returns.\<close>

fun with_consumers ::
  "('f, 'w) libs \<Rightarrow> 'f Config \<Rightarrow> (Consumer list \<Rightarrow> 'w \<Rightarrow> goerror option \<times> 'w) \<Rightarrow> nat \<Rightarrow> QueueBinding list
     \<Rightarrow> Consumer list \<Rightarrow> 'w \<Rightarrow> goerror option \<times> 'w" where
  "with_consumers L cfg body i [] consumers w = body consumers w"
| "with_consumers L cfg body i (b # bs) consumers w =
     (case Connection_Channel L w of
        (Inl err, w) \<Rightarrow> (Some (ErrorWrap (''open consumer channel for '' @ qb_Queue b @ '': '') err []), w)
      | (Inr consumeCh, w) \<Rightarrow>
          deferring (lb_ChClose L consumeCh)
            (\<lambda>w. case NewConsumer (lb_Qos L consumeCh) (qb_Queue b) (consumer_options (lb_Hostname L) cfg i b) w of
               (Inl err, w) \<Rightarrow> (Some (ErrorWrap (''create consumer for '' @ qb_Queue b @ '': '') err []), w)
             | (Inr consumer, w) \<Rightarrow> with_consumers L cfg body (i + 1) bs (consumers @ [consumer]) w) w)"

text \<open>The rest: the metrics server, which is shut down at the end, and the workers. The error of the
  metrics server goes into a channel that nobody reads.\<close>

definition worker_serve ::
  "('f, 'w) libs \<Rightarrow> (Consumer list \<Rightarrow> 'w \<Rightarrow> goerror option \<times> 'w) \<Rightarrow> 'f Config \<Rightarrow> Consumer list \<Rightarrow> 'w
     \<Rightarrow> goerror option \<times> 'w" where
  "worker_serve L run_worker cfg consumers w =
     deferring (lb_Shutdown L (cf_ShutdownTimeout cfg)) (run_worker consumers)
       (lb_Listen L (worker_server (cf_MetricsPort cfg)) w)"

definition worker_body ::
  "('f, 'w) libs \<Rightarrow> ('w Publisher \<Rightarrow> Consumer list \<Rightarrow> 'w \<Rightarrow> goerror option \<times> 'w) \<Rightarrow> 'f Config \<Rightarrow> 'w
     \<Rightarrow> goerror option \<times> 'w" where
  "worker_body L run_worker cfg w =
     (case Connection_Channel L w of
        (Inl err, w) \<Rightarrow> (Some (ErrorWrap ''open retry publisher channel: '' err []), w)
      | (Inr retryPubCh, w) \<Rightarrow>
          deferring (lb_ChClose L retryPubCh)
            (\<lambda>w. case NewPublisher (lb_channel L retryPubCh) ExchangeNotifications w of
               (Inl err, w) \<Rightarrow> (Some (ErrorWrap ''create retry publisher: '' err []), w)
             | (Inr retryPub, w) \<Rightarrow>
                 with_consumers L cfg (worker_serve L (run_worker retryPub) cfg) 0 (t_Bindings ProductionTopology) [] w) w)"

definition worker_run ::
  "('f, 'w) libs \<Rightarrow> ('f Config \<Rightarrow> 'w Publisher \<Rightarrow> Consumer list \<Rightarrow> 'w \<Rightarrow> goerror option \<times> 'w) \<Rightarrow> 'w
     \<Rightarrow> goerror option \<times> 'w" where
  "worker_run L run_worker w = with_connections L (\<lambda>cfg. worker_body L (run_worker cfg) cfg) w"

definition worker_main ::
  "('f, 'w) libs \<Rightarrow> ('f Config \<Rightarrow> 'w Publisher \<Rightarrow> Consumer list \<Rightarrow> 'w \<Rightarrow> goerror option \<times> 'w) \<Rightarrow> 'w
     \<Rightarrow> (go_string \<times> nat) \<times> 'w" where
  "worker_main L run_worker w =
     (case worker_run L run_worker w of
        (Some err, w) \<Rightarrow> ((''worker exited: '' @ error_text err @ [CHR 0x0A], 1), w)
      | (None, w) \<Rightarrow> (([], 0), w))"

text \<open>The gauge of the breaker states.\<close>

definition breakerStateValue :: "State \<Rightarrow> nat" where
  "breakerStateValue s = (case s of StateClosed \<Rightarrow> 0 | StateHalfOpen \<Rightarrow> 1 | StateOpen \<Rightarrow> 2)"

fun report_channels :: "'w CircuitBreakerRegistry \<Rightarrow> (go_string \<Rightarrow> nat \<Rightarrow> 'w \<Rightarrow> 'w) \<Rightarrow> Channel list \<Rightarrow> 'w \<Rightarrow> 'w" where
  "report_channels r set_gauge [] w = w"
| "report_channels r set_gauge (ch # chs) w =
     (case BreakerState r ch w of (s, w) \<Rightarrow> report_channels r set_gauge chs (set_gauge ch (breakerStateValue s) w))"

text \<open>\<open>reportBreakerStates\<close> runs through the channels at each tick of its timer, until the context
  is done; \<open>ticks\<close> gives, for each tick, the order of the range over the map.\<close>

definition reportBreakerStates ::
  "'w CircuitBreakerRegistry \<Rightarrow> (go_string \<Rightarrow> nat \<Rightarrow> 'w \<Rightarrow> 'w) \<Rightarrow> Channel list list \<Rightarrow> 'w \<Rightarrow> 'w" where
  "reportBreakerStates r set_gauge ticks w = fold (report_channels r set_gauge) ticks w"

section \<open>The order of the breaker states\<close>

text \<open>The gauge orders the states by how much they let through.\<close>

instantiation State :: linorder
begin

definition less_eq_State :: "State \<Rightarrow> State \<Rightarrow> bool" where
  "less_eq_State a b \<longleftrightarrow> breakerStateValue a \<le> breakerStateValue b"

definition less_State :: "State \<Rightarrow> State \<Rightarrow> bool" where
  "less_State a b \<longleftrightarrow> breakerStateValue a < breakerStateValue b"

instance
  by standard (auto simp: less_eq_State_def less_State_def breakerStateValue_def split: State.splits)

end

end
