(* ===== verification/Startup_Properties.thy ===== *)
theory Startup_Properties
  imports Startup
begin

text \<open>
  What a start of the two processes does, on libraries that record the calls that matter: what is
  opened is closed in the reverse order on every path, and the process serves only when the
  topology is complete and every queue has its consumer.
\<close>

section \<open>Recording the calls\<close>

text \<open>Closing the pool, which every path that opened it ends with, records whether the connection to the
  broker reports itself closed at that moment.\<close>

datatype startup_event = PoolOpened | PoolClosed bool | Dialled | ConnClosed | Opened nat | Closed nat
  | Declared nat amqp_decl | Listens http_server | Waited | Served "Consumer list" | ServerShut

type_synonym 'v recorded = "'v \<times> startup_event list"

definition silent :: "('v \<Rightarrow> 'r \<times> 'v) \<Rightarrow> 'v recorded \<Rightarrow> 'r \<times> 'v recorded" where
  "silent f s = (case f (fst s) of (r, v) \<Rightarrow> (r, v, snd s))"

definition noting :: "('r \<Rightarrow> startup_event list) \<Rightarrow> ('v \<Rightarrow> 'r \<times> 'v) \<Rightarrow> 'v recorded \<Rightarrow> 'r \<times> 'v recorded" where
  "noting ev f s = (case f (fst s) of (r, v) \<Rightarrow> (r, v, snd s @ ev r))"

definition marking :: "startup_event \<Rightarrow> ('v \<Rightarrow> 'v) \<Rightarrow> 'v recorded \<Rightarrow> 'v recorded" where
  "marking e f s = (f (fst s), snd s @ [e])"

definition if_done :: "startup_event \<Rightarrow> goerror option \<Rightarrow> startup_event list" where
  "if_done e r = (case r of None \<Rightarrow> [e] | Some err \<Rightarrow> [])"

definition silent_channel :: "'v amqp_channel \<Rightarrow> 'v recorded amqp_channel" where
  "silent_channel c =
     \<lparr>ch_Confirm = silent (ch_Confirm c),
      ch_Publish = (\<lambda>ex key mand imm msg. silent (ch_Publish c ex key mand imm msg)),
      ch_WaitContext = (\<lambda>n. silent (ch_WaitContext c n)), ch_Now = (\<lambda>s. ch_Now c (fst s))\<rparr>"

definition recording :: "('f, 'v) libs \<Rightarrow> ('f, 'v recorded) libs" where
  "recording L =
     \<lparr>lb_Parse = (\<lambda>tags. silent (lb_Parse L tags)),
      lb_ParseConfig = (\<lambda>dsn. silent (lb_ParseConfig L dsn)),
      lb_NewWithConfig = noting (if_done PoolOpened) (lb_NewWithConfig L),
      lb_PoolPing = silent (lb_PoolPing L),
      lb_PoolClose = (\<lambda>s. marking (PoolClosed (lb_IsClosed L (fst s))) (lb_PoolClose L) s),
      lb_Dial = (\<lambda>url. noting (if_done Dialled) (lb_Dial L url)),
      lb_IsClosed = (\<lambda>s. lb_IsClosed L (fst s)),
      lb_ConnClose = noting (\<lambda>r. [ConnClosed]) (lb_ConnClose L),
      lb_Channel = noting (case_sum (\<lambda>err. []) (\<lambda>ch. [Opened ch])) (lb_Channel L),
      lb_channel = (\<lambda>ch. silent_channel (lb_channel L ch)),
      lb_Declare = (\<lambda>ch d. noting (if_done (Declared ch d)) (lb_Declare L ch d)),
      lb_Qos = (\<lambda>ch n. silent (lb_Qos L ch n)),
      lb_ChClose = (\<lambda>ch. marking (Closed ch) (lb_ChClose L ch)),
      lb_Hostname = lb_Hostname L,
      lb_Listen = (\<lambda>addr. marking (Listens addr) (lb_Listen L addr)),
      lb_Wait = noting (\<lambda>r. [Waited]) (lb_Wait L),
      lb_Shutdown = (\<lambda>t. marking ServerShut (lb_Shutdown L t))\<rparr>"

text \<open>A computation appends to the record what \<open>P\<close> allows with its result.\<close>

definition does :: "('v recorded \<Rightarrow> 'r \<times> 'v recorded) \<Rightarrow> ('r \<Rightarrow> startup_event list \<Rightarrow> bool) \<Rightarrow> bool" where
  "does c P \<longleftrightarrow> (\<forall>v h. \<exists>r v' T. c (v, h) = (r, v', h @ T) \<and> P r T)"

section \<open>What is left open\<close>

text \<open>The stack of what is open. A channel is closed only when it is the latest thing opened;
  closing the connection ends its channels. The pool is closed when nothing else is open, except
  what belonged to a connection that reports itself closed.\<close>

fun below :: "startup_event \<Rightarrow> startup_event list \<Rightarrow> startup_event list option" where
  "below e [] = None"
| "below e (x # st) = (if x = e then Some st else below e st)"

fun close_top :: "startup_event \<Rightarrow> startup_event list \<Rightarrow> startup_event list option" where
  "close_top e [] = None"
| "close_top e (x # st) = (if x = e then Some st else None)"

fun left_open :: "startup_event list \<Rightarrow> startup_event list \<Rightarrow> startup_event list option" where
  "left_open st [] = Some st"
| "left_open st (PoolOpened # T) = left_open (PoolOpened # st) T"
| "left_open st (Dialled # T) = left_open (Dialled # st) T"
| "left_open st (Opened ch # T) = left_open (Opened ch # st) T"
| "left_open st (Closed ch # T) =
     (case close_top (Opened ch) st of None \<Rightarrow> None | Some st \<Rightarrow> left_open st T)"
| "left_open st (ConnClosed # T) =
     (case below Dialled st of None \<Rightarrow> None | Some st \<Rightarrow> left_open st T)"
| "left_open st (PoolClosed lost # T) =
     (case (if lost then below PoolOpened st else close_top PoolOpened st) of
        None \<Rightarrow> None | Some st \<Rightarrow> left_open st T)"
| "left_open st (Declared ch d # T) = left_open st T"
| "left_open st (Listens a # T) = left_open st T"
| "left_open st (Waited # T) = left_open st T"
| "left_open st (Served cs # T) = left_open st T"
| "left_open st (ServerShut # T) = left_open st T"

definition served_nothing :: "startup_event list \<Rightarrow> bool" where
  "served_nothing T \<longleftrightarrow> list_all (\<lambda>e. case e of Served cs \<Rightarrow> False | Listens a \<Rightarrow> False | _ \<Rightarrow> True) T"

definition balanced :: "startup_event list \<Rightarrow> bool" where
  "balanced T \<longleftrightarrow> (\<forall>st. left_open st T = Some st)"

lemma served_nothing_simps [simp]:
  "served_nothing []"
  "served_nothing (e # T)
     \<longleftrightarrow> (case e of Served cs \<Rightarrow> False | Listens a \<Rightarrow> False | _ \<Rightarrow> True) \<and> served_nothing T"
  "served_nothing (T @ T') \<longleftrightarrow> served_nothing T \<and> served_nothing T'"
  by (simp_all add: served_nothing_def)

lemma left_open_append:
  "left_open st (T @ T') = (case left_open st T of None \<Rightarrow> None | Some st' \<Rightarrow> left_open st' T')"
  by (induction st T rule: left_open.induct) (auto split: option.splits)

lemma balanced_Nil [simp]: "balanced []"
  by (simp add: balanced_def)

lemma balanced_channel: "balanced T \<Longrightarrow> balanced (Opened ch # T @ [Closed ch])"
  by (simp add: balanced_def left_open_append)

lemma declared_quiet [simp]:
  "left_open st (map (\<lambda>d. Declared ch (fst d)) ds) = Some st" "served_nothing (map (\<lambda>d. Declared ch (fst d)) ds)"
  by (induction ds) simp_all

section \<open>Composition\<close>

lemma doesI: "(\<And>v h. \<exists>r v' T. c (v, h) = (r, v', h @ T) \<and> P r T) \<Longrightarrow> does c P"
  by (simp add: does_def)

lemma doesE:
  assumes "does c P"
  obtains r v' T where "c (v, h) = (r, v', h @ T)" "P r T"
  using assms unfolding does_def by blast

lemma does_weaken: "does c P \<Longrightarrow> (\<And>r T. P r T \<Longrightarrow> Q r T) \<Longrightarrow> does c Q"
  unfolding does_def by blast

lemma does_silent: "does (silent f) (\<lambda>r T. T = [])"
  by (auto simp: does_def silent_def split: prod.splits)

lemma does_noting: "does (noting ev f) (\<lambda>r T. T = ev r)"
  by (auto simp: does_def noting_def split: prod.splits)

text \<open>Sequencing, as the definitions write it.\<close>

lemma does_case:
  assumes c: "does c P" and k: "\<And>r. does (k r) (Q r)"
  shows "does (\<lambda>w. case c w of (r, w) \<Rightarrow> k r w) (\<lambda>r' T. \<exists>r T1 T2. T = T1 @ T2 \<and> P r T1 \<and> Q r r' T2)"
proof (rule doesI)
  fix v h
  obtain r v' T1 where 1: "c (v, h) = (r, v', h @ T1)" "P r T1" using c by (rule doesE)
  obtain r' v'' T2 where 2: "k r (v', h @ T1) = (r', v'', (h @ T1) @ T2)" "Q r r' T2" using k by (rule doesE)
  show "\<exists>r' v' T. (case c (v, h) of (r, w) \<Rightarrow> k r w) = (r', v', h @ T)
      \<and> (\<exists>r T1 T2. T = T1 @ T2 \<and> P r T1 \<and> Q r r' T2)"
    using 1 2 by auto
qed

lemma does_return: "P r [] \<Longrightarrow> does (\<lambda>w. (r, w)) P"
  by (auto simp: does_def)

lemma does_marking_then:
  assumes "does c P"
  shows "does (\<lambda>w. c (marking e f w)) (\<lambda>r T. \<exists>T'. T = e # T' \<and> P r T')"
proof (rule doesI)
  fix v h
  obtain r v' T where "c (f v, h @ [e]) = (r, v', (h @ [e]) @ T)" "P r T" using assms by (rule doesE)
  then show "\<exists>r v' T. c (marking e f (v, h)) = (r, v', h @ T) \<and> (\<exists>T'. T = e # T' \<and> P r T')"
    by (simp add: marking_def)
qed

lemma does_deferring:
  assumes "does c P" and close: "\<And>v h. \<exists>v'. close (v, h) = (v', h @ X v)"
  shows "does (deferring close c) (\<lambda>r T. \<exists>T' v. T = T' @ X v \<and> P r T')"
proof (rule doesI)
  fix v h
  obtain r v' T where 1: "c (v, h) = (r, v', h @ T)" "P r T" using assms(1) by (rule doesE)
  obtain v'' where 2: "close (v', h @ T) = (v'', (h @ T) @ X v')" using close by blast
  show "\<exists>r v' T. deferring close c (v, h) = (r, v', h @ T) \<and> (\<exists>T' v. T = T' @ X v \<and> P r T')"
    using 1 2 by (auto simp: deferring_def)
qed

lemma marking_appends: "\<exists>v'. marking e f (v, h) = (v', h @ [e])"
  by (simp add: marking_def)

lemma does_closing:
  "does c P \<Longrightarrow> does (deferring (marking e f) c) (\<lambda>r T. \<exists>T'. T = T' @ [e] \<and> P r T')"
  by (rule does_weaken [OF does_deferring [where X = "\<lambda>v. [e]", OF _ marking_appends]]) auto

section \<open>The parts of a start\<close>

lemma does_Channel:
  "does (Connection_Channel (recording L)) (\<lambda>r T. T = (case r of Inl err \<Rightarrow> [] | Inr ch \<Rightarrow> [Opened ch]))"
  by (auto simp: does_def Connection_Channel_def recording_def noting_def split: prod.splits sum.splits)

lemma does_Dial:
  "does (Connection_Dial (recording L) url) (\<lambda>r T. T = if_done Dialled r)"
  by (auto simp: does_def Connection_Dial_def recording_def noting_def if_done_def
      split: prod.splits option.splits)

lemma does_NewPgxPool:
  "does (NewPgxPool (recording L) dsn)
     (\<lambda>r T. if r = None then T = [PoolOpened] else T = [] \<or> (\<exists>lost. T = [PoolOpened, PoolClosed lost]))"
  by (auto simp: does_def NewPgxPool_def recording_def noting_def silent_def marking_def if_done_def
      split: prod.splits option.splits)

lemma does_Load:
  "does (Load (lb_Parse (recording L))) (\<lambda>r T. T = [])"
  by (auto simp: does_def Load_def recording_def silent_def split: prod.splits sum.splits)

lemma does_declare_all:
  "does (declare_all (lb_Declare (recording L) ch) ds)
     (\<lambda>r T. \<exists>ds1 ds2. ds = ds1 @ ds2 \<and> T = map (\<lambda>d. Declared ch (fst d)) ds1 \<and> (r = None \<longrightarrow> ds2 = []))"
proof (induction ds)
  case Nil
  then show ?case by (simp add: does_def)
next
  case (Cons dm ds)
  obtain d msg where dm: "dm = (d, msg)" by fastforce
  show ?case
  proof (rule doesI)
    fix v h
    obtain r v' where "lb_Declare L ch d v = (r, v')" by fastforce
    then have call: "lb_Declare (recording L) ch d (v, h) = (r, v', h @ if_done (Declared ch d) r)"
      by (simp add: recording_def noting_def)
    obtain r1 v1 T where rest: "declare_all (lb_Declare (recording L) ch) ds (v', h @ [Declared ch d])
        = (r1, v1, (h @ [Declared ch d]) @ T)"
      "\<exists>ds1 ds2. ds = ds1 @ ds2 \<and> T = map (\<lambda>d. Declared ch (fst d)) ds1 \<and> (r1 = None \<longrightarrow> ds2 = [])"
      using Cons.IH by (rule doesE)
    then obtain ds1 ds2 where "ds = ds1 @ ds2" "T = map (\<lambda>d. Declared ch (fst d)) ds1" "r1 = None \<longrightarrow> ds2 = []"
      by blast
    then have "\<exists>e1 e2. dm # ds = e1 @ e2 \<and> Declared ch d # T = map (\<lambda>d. Declared ch (fst d)) e1 \<and> (r1 = None \<longrightarrow> e2 = [])"
      by (intro exI [of _ "dm # ds1"] exI [of _ ds2]) (simp add: dm)
    then show "\<exists>r v' T. declare_all (lb_Declare (recording L) ch) (dm # ds) (v, h) = (r, v', h @ T)
        \<and> (\<exists>ds1 ds2. dm # ds = ds1 @ ds2 \<and> T = map (\<lambda>d. Declared ch (fst d)) ds1 \<and> (r = None \<longrightarrow> ds2 = []))"
      using call rest(1) by (cases r) (auto simp: dm if_done_def)
  qed
qed

text \<open>\<open>body\<close>, started with the topology in place; when that fails the topology channel is left to
  the connection.\<close>

definition topology_in_place :: "nat \<Rightarrow> startup_event list" where
  "topology_in_place t =
     Opened t # map (\<lambda>d. Declared t (fst d)) (topology_decls ProductionTopology) @ [Closed t]"

definition after_topology ::
  "(goerror option \<Rightarrow> startup_event list \<Rightarrow> bool) \<Rightarrow> goerror option \<Rightarrow> startup_event list \<Rightarrow> bool" where
  "after_topology P r T \<longleftrightarrow>
     (\<exists>t T'. T = topology_in_place t @ T' \<and> P r T')
     \<or> (r \<noteq> None \<and> served_nothing T \<and> (\<forall>st. \<exists>k. left_open st T = Some (k @ st) \<and> set k \<inter> {Dialled, PoolOpened} = {}))"

lemma does_with_topology:
  assumes "does body P"
  shows "does (with_topology (recording L) body) (after_topology P)"
proof (rule doesI)
  fix v h
  obtain r v1 T1 where ch: "Connection_Channel (recording L) (v, h) = (r, v1, h @ T1)"
    "T1 = (case r of Inl err \<Rightarrow> [] | Inr ch \<Rightarrow> [Opened ch])"
    using does_Channel by (rule doesE)
  show "\<exists>r v' T. with_topology (recording L) body (v, h) = (r, v', h @ T) \<and> after_topology P r T"
  proof (cases r)
    case (Inl e)
    then show ?thesis using ch
      by (intro exI [of _ "Some _"] exI [of _ v1] exI [of _ "[]"])
        (simp add: with_topology_def after_topology_def)
  next
    case (Inr t)
    obtain r2 v2 T2 where decl: "declare_all (lb_Declare (recording L) t) (topology_decls ProductionTopology) (v1, h @ [Opened t])
        = (r2, v2, (h @ [Opened t]) @ T2)"
      "\<exists>ds1 ds2. topology_decls ProductionTopology = ds1 @ ds2 \<and> T2 = map (\<lambda>d. Declared t (fst d)) ds1 \<and> (r2 = None \<longrightarrow> ds2 = [])"
      using does_declare_all by (rule doesE)
    then obtain ds1 ds2 where ds: "topology_decls ProductionTopology = ds1 @ ds2"
      "T2 = map (\<lambda>d. Declared t (fst d)) ds1" "r2 = None \<longrightarrow> ds2 = []" by blast
    show ?thesis
    proof (cases r2)
      case None
      obtain r3 v3 T3 where "body (marking (Closed t) (lb_ChClose L t) (v2, h @ Opened t # T2))
          = (r3, v3, (h @ Opened t # T2) @ Closed t # T3)" "P r3 T3"
        using does_marking_then [OF assms, of "Closed t" "lb_ChClose L t"]
        by (rule doesE [where v = v2 and h = "h @ Opened t # T2"]) auto
      moreover have "lb_ChClose (recording L) t = marking (Closed t) (lb_ChClose L t)" by (simp add: recording_def)
      ultimately have "with_topology (recording L) body (v, h) = (r3, v3, h @ topology_in_place t @ T3)"
        using ch decl(1) ds None Inr by (simp add: with_topology_def DeclareTopologyWith_def topology_in_place_def)
      then show ?thesis using \<open>P r3 T3\<close> unfolding after_topology_def by blast
    next
      case (Some e)
      have "with_topology (recording L) body (v, h) = (Some (ErrorWrap ''declare topology: '' e []), v2, h @ Opened t # T2)"
        using ch decl(1) Some Inr by (simp add: with_topology_def DeclareTopologyWith_def)
      moreover have "\<exists>k. left_open st (Opened t # T2) = Some (k @ st) \<and> set k \<inter> {Dialled, PoolOpened} = {}" for st
        using ds(2) by (intro exI [of _ "[Opened t]"]) simp
      ultimately show ?thesis using ds(2) unfolding after_topology_def
        by (intro exI [of _ "Some _"] exI [of _ v2] exI [of _ "Opened t # T2"]) auto
    qed
  qed
qed

text \<open>\<open>body\<close>, started with the topology in place and both connections open, between their opening
  and their closing. A connection that reports itself closed is not closed again.\<close>

definition connected :: "bool \<Rightarrow> bool \<Rightarrow> startup_event list \<Rightarrow> startup_event list" where
  "connected lost closed T =
     PoolOpened # Dialled # T @ (if lost then [] else [ConnClosed]) @ [PoolClosed (lost \<or> closed)]"

definition start_up ::
  "(goerror option \<Rightarrow> startup_event list \<Rightarrow> bool) \<Rightarrow> goerror option \<Rightarrow> startup_event list \<Rightarrow> bool" where
  "start_up P r T \<longleftrightarrow>
     (\<exists>lost closed t T'. T = connected lost closed (topology_in_place t @ T') \<and> P r T')
     \<or> (\<exists>err. r = Some err \<and> served_nothing T \<and> left_open [] T = Some [])"

lemma conn_close_appends:
  "\<exists>v'. snd (Connection_Close (recording L) (v, h)) = (v', h @ (if lb_IsClosed L v then [] else [ConnClosed]))
     \<and> (lb_IsClosed L v \<longrightarrow> v' = v)"
  by (auto simp: Connection_Close_def recording_def noting_def split: prod.splits)

lemma below_skips: "e \<notin> set k \<Longrightarrow> below e (k @ e # st) = Some st"
  by (induction k) auto

lemma connected_leftovers:
  assumes "left_open [Dialled, PoolOpened] T = Some (k @ [Dialled, PoolOpened])" "set k \<inter> {Dialled, PoolOpened} = {}"
  shows "left_open [] (connected lost closed T) = Some []"
proof -
  have "below Dialled (k @ Dialled # [PoolOpened]) = Some [PoolOpened]" using assms(2) by (intro below_skips) auto
  moreover have "below PoolOpened ((k @ [Dialled]) @ PoolOpened # []) = Some []" using assms(2) by (intro below_skips) auto
  ultimately show ?thesis using assms(1) by (simp add: connected_def left_open_append)
qed

definition after_dial ::
  "bool \<Rightarrow> (goerror option \<Rightarrow> startup_event list \<Rightarrow> bool) \<Rightarrow> goerror option \<Rightarrow> startup_event list \<Rightarrow> bool" where
  "after_dial closed P r T \<longleftrightarrow> (r \<noteq> None \<and> T = [])
     \<or> (\<exists>lost T'. T = Dialled # T' @ (if lost then [] else [ConnClosed]) \<and> (lost \<longrightarrow> closed) \<and> after_topology P r T')"

lemma after_dialI:
  "after_topology P r T' \<Longrightarrow> (lost \<longrightarrow> closed) \<Longrightarrow> after_dial closed P r (Dialled # T' @ (if lost then [] else [ConnClosed]))"
  unfolding after_dial_def by blast

lemma does_with_rabbitmq:
  assumes "does body P"
  shows "\<exists>r v' T. with_rabbitmq (recording L) url body (v, h) = (r, v', h @ T) \<and> after_dial (lb_IsClosed L v') P r T"
proof -
  obtain r v1 T1 where dial: "Connection_Dial (recording L) url (v, h) = (r, v1, h @ T1)" "T1 = if_done Dialled r"
    using does_Dial by (rule doesE)
  show ?thesis
  proof (cases r)
    case (Some e)
    then show ?thesis using dial
      by (intro exI [of _ "Some _"] exI [of _ v1] exI [of _ "[]"]) (simp add: with_rabbitmq_def after_dial_def if_done_def)
  next
    case None
    obtain r2 u T' where body: "with_topology (recording L) body (v1, h @ [Dialled]) = (r2, u, (h @ [Dialled]) @ T')"
      "after_topology P r2 T'" using does_with_topology [OF assms] by (rule doesE)
    obtain v2 where close: "snd (Connection_Close (recording L) (u, (h @ [Dialled]) @ T'))
          = (v2, ((h @ [Dialled]) @ T') @ (if lb_IsClosed L u then [] else [ConnClosed]))" "lb_IsClosed L u \<longrightarrow> v2 = u"
      using conn_close_appends [of L u "(h @ [Dialled]) @ T'"] by (elim exE conjE)
    have "after_dial (lb_IsClosed L v2) P r2 (Dialled # T' @ (if lb_IsClosed L u then [] else [ConnClosed]))"
      by (rule after_dialI [OF body(2)]) (use close(2) in simp)
    then show ?thesis using dial None body(1) close(1)
      by (intro exI [of _ r2] exI [of _ v2] exI [of _ "Dialled # T' @ (if lb_IsClosed L u then [] else [ConnClosed])"])
        (simp add: with_rabbitmq_def if_done_def deferring_def)
  qed
qed

lemma after_dial_start_up:
  assumes "after_dial closed P r T"
  shows "start_up P r (PoolOpened # T @ [PoolClosed closed])"
  using assms unfolding after_dial_def
proof (elim disjE exE conjE)
  assume "r \<noteq> None" "T = []"
  then show ?thesis by (auto simp: start_up_def)
next
  fix lost T'
  assume T: "T = Dialled # T' @ (if lost then [] else [ConnClosed])" and "lost \<longrightarrow> closed" and "after_topology P r T'"
  then have eq: "PoolOpened # T @ [PoolClosed closed] = connected lost closed T'" by (auto simp: connected_def)
  show ?thesis using \<open>after_topology P r T'\<close> unfolding after_topology_def
  proof (elim disjE exE conjE)
    fix t U
    assume "T' = topology_in_place t @ U" "P r U"
    then show ?thesis unfolding start_up_def eq by blast
  next
    assume r: "r \<noteq> None" and quiet: "served_nothing T'"
      and left: "\<forall>st. \<exists>k. left_open st T' = Some (k @ st) \<and> set k \<inter> {Dialled, PoolOpened} = {}"
    from left have "left_open [] (connected lost closed T') = Some []" by (meson connected_leftovers)
    moreover have "served_nothing (connected lost closed T')" using quiet by (simp add: connected_def)
    ultimately show ?thesis using r unfolding start_up_def eq by blast
  qed
qed

lemma does_with_connections:
  assumes "\<And>cfg. does (body cfg) P"
  shows "does (with_connections (recording L) body) (start_up P)"
proof (rule doesI)
  fix v h
  obtain r v1 T1 where load: "Load (lb_Parse (recording L)) (v, h) = (r, v1, h @ T1)" "T1 = []"
    using does_Load by (rule doesE)
  show "\<exists>r v' T. with_connections (recording L) body (v, h) = (r, v', h @ T) \<and> start_up P r T"
  proof (cases r)
    case (Inl e)
    then show ?thesis using load
      by (intro exI [of _ "Some e"] exI [of _ v1] exI [of _ "[]"]) (simp add: with_connections_def start_up_def)
  next
    case (Inr cfg)
    obtain r2 v2 T2 where pool: "NewPgxPool (recording L) (cf_DBDSN cfg) (v1, h) = (r2, v2, h @ T2)"
      "if r2 = None then T2 = [PoolOpened] else T2 = [] \<or> (\<exists>lost. T2 = [PoolOpened, PoolClosed lost])"
      using does_NewPgxPool by (rule doesE)
    show ?thesis
    proof (cases r2)
      case (Some e)
      then have "start_up P (Some (ErrorWrap ''connect postgres: '' e [])) T2"
        using pool(2) by (auto simp: start_up_def)
      then show ?thesis using load Inr pool(1) Some
        by (intro exI [of _ "Some (ErrorWrap ''connect postgres: '' e [])"] exI [of _ v2] exI [of _ T2])
          (simp add: with_connections_def)
    next
      case None
      obtain r3 v3 T3 where body: "with_rabbitmq (recording L) (cf_RMQURL cfg) (body cfg) (v2, h @ [PoolOpened])
          = (r3, v3, (h @ [PoolOpened]) @ T3)" "after_dial (lb_IsClosed L v3) P r3 T3"
        using does_with_rabbitmq [OF assms] by blast
      have "start_up P r3 (PoolOpened # T3 @ [PoolClosed (lb_IsClosed L v3)])" by (rule after_dial_start_up [OF body(2)])
      moreover have "lb_PoolClose (recording L) (v3, h') = (lb_PoolClose L v3, h' @ [PoolClosed (lb_IsClosed L v3)])" for h'
        by (simp add: recording_def marking_def)
      ultimately show ?thesis using load Inr pool None body(1)
        by (intro exI [of _ r3] exI [of _ "lb_PoolClose L v3"] exI [of _ "PoolOpened # T3 @ [PoolClosed (lb_IsClosed L v3)]"])
          (simp add: with_connections_def deferring_def)
    qed
  qed
qed

section \<open>The API process\<close>

text \<open>What the rest of a start may do: serve as \<open>P\<close> says, or fail and close what it opened.\<close>

definition or_fails ::
  "(goerror option \<Rightarrow> startup_event list \<Rightarrow> bool) \<Rightarrow> goerror option \<Rightarrow> startup_event list \<Rightarrow> bool" where
  "or_fails P r T \<longleftrightarrow> P r T \<or> ((\<exists>err. r = Some err) \<and> served_nothing T \<and> balanced T)"

definition api_session :: "'f Config \<Rightarrow> goerror option \<Rightarrow> startup_event list \<Rightarrow> bool" where
  "api_session cfg r T \<longleftrightarrow>
     T = [Listens (api_server cfg), Waited] @ (if r = None then [ServerShut] else [])"

lemma does_api_serve: "does (api_serve (recording L) cfg publisher) (api_session cfg)"
  by (auto simp: does_def api_serve_def api_session_def recording_def marking_def noting_def
      split: prod.splits option.splits)

text \<open>A publisher on a channel of its own; neither its creation nor that of a consumer is recorded.\<close>

lemma does_NewPublisher: "does (NewPublisher (lb_channel (recording L) ch) ex) (\<lambda>r T. T = [])"
  by (auto simp: does_def NewPublisher_def recording_def silent_channel_def silent_def
      split: prod.splits option.splits)

lemma does_on_channel:
  assumes body: "\<And>x. Q x \<Longrightarrow> does (body x) (or_fails P)"
    and mk: "\<And>ch. does (mk ch) (\<lambda>r T. T = [] \<and> (case r of Inl err \<Rightarrow> True | Inr x \<Rightarrow> Q x))"
  shows "does (\<lambda>w. case Connection_Channel (recording L) w of
       (Inl err, w) \<Rightarrow> (Some (f err), w)
     | (Inr ch, w) \<Rightarrow>
         deferring (lb_ChClose (recording L) ch)
           (\<lambda>w. case mk ch w of (Inl err, w) \<Rightarrow> (Some (g err), w) | (Inr x, w) \<Rightarrow> body x w) w)
     (or_fails (\<lambda>r T. \<exists>ch T'. T = Opened ch # T' @ [Closed ch] \<and> P r T'))"
    (is "does ?c ?P")
proof (rule doesI)
  fix v h
  let ?rest = "\<lambda>ch w. case mk ch w of (Inl err, w) \<Rightarrow> (Some (g err), w) | (Inr x, w) \<Rightarrow> body x w"
  have rest: "does (?rest ch) (or_fails P)" for ch
  proof (rule doesI)
    fix v h
    obtain r v1 T1 where 1: "mk ch (v, h) = (r, v1, h @ T1)" "T1 = [] \<and> (case r of Inl err \<Rightarrow> True | Inr x \<Rightarrow> Q x)"
      using mk by (rule doesE)
    show "\<exists>r v' T. ?rest ch (v, h) = (r, v', h @ T) \<and> or_fails P r T"
    proof (cases r)
      case (Inl e)
      then show ?thesis using 1
        by (intro exI [of _ "Some _"] exI [of _ v1] exI [of _ "[]"]) (simp add: or_fails_def)
    next
      case (Inr x)
      then have "does (body x) (or_fails P)" using body 1(2) by simp
      then obtain r2 v2 T2 where "body x (v1, h) = (r2, v2, h @ T2)" "or_fails P r2 T2" by (rule doesE)
      then show ?thesis using 1 Inr by (intro exI [of _ r2] exI [of _ v2] exI [of _ T2]) simp
    qed
  qed
  obtain r v1 T1 where open_ch: "Connection_Channel (recording L) (v, h) = (r, v1, h @ T1)"
    "T1 = (case r of Inl err \<Rightarrow> [] | Inr ch \<Rightarrow> [Opened ch])"
    using does_Channel by (rule doesE)
  show "\<exists>r v' T. ?c (v, h) = (r, v', h @ T) \<and> ?P r T"
  proof (cases r)
    case (Inl e)
    then show ?thesis using open_ch
      by (intro exI [of _ "Some _"] exI [of _ v1] exI [of _ "[]"]) (simp add: or_fails_def)
  next
    case (Inr ch)
    have close: "lb_ChClose (recording L) ch = marking (Closed ch) (lb_ChClose L ch)" by (simp add: recording_def)
    obtain r2 v2 T2 where call: "deferring (lb_ChClose (recording L) ch) (?rest ch) (v1, h @ [Opened ch])
        = (r2, v2, (h @ [Opened ch]) @ T2)" "\<exists>T'. T2 = T' @ [Closed ch] \<and> or_fails P r2 T'"
      using does_closing [OF rest] unfolding close by (rule doesE)
    then obtain T' where T2: "T2 = T' @ [Closed ch]" and "or_fails P r2 T'" by blast
    then have "?P r2 (Opened ch # T2)" unfolding T2 or_fails_def
      by (elim disjE conjE) (blast, simp add: balanced_channel)
    then show ?thesis using open_ch Inr call(1)
      by (intro exI [of _ r2] exI [of _ v2] exI [of _ "Opened ch # T2"]) simp
  qed
qed

lemma does_api_body:
  "does (api_body (recording L) cfg) (or_fails (\<lambda>r T. \<exists>ch T'. T = Opened ch # T' @ [Closed ch] \<and> api_session cfg r T'))"
  unfolding api_body_def
proof (rule does_on_channel [where Q = "\<lambda>x. True"])
  show "does (\<lambda>w. NewPublisher (lb_channel (recording L) ch) ExchangeNotifications w)
      (\<lambda>r T. T = [] \<and> (case r of Inl err \<Rightarrow> True | Inr x \<Rightarrow> True))" for ch
    by (rule does_weaken [OF does_NewPublisher]) (simp split: sum.splits)
  show "does (\<lambda>w. api_serve (recording L) cfg x w) (or_fails (api_session cfg))" for x
    by (rule does_weaken [OF does_api_serve]) (simp add: or_fails_def)
qed

section \<open>The worker process\<close>

text \<open>The consumer of a binding; creating it sets the prefetch count of its channel.\<close>

definition consumer_for :: "go_string \<Rightarrow> 'f Config \<Rightarrow> nat \<Rightarrow> QueueBinding \<Rightarrow> Consumer" where
  "consumer_for hostname cfg i b =
     (let opts = normalise_options (consumer_options hostname cfg i b)
      in \<lparr>c_queue = qb_Queue b, c_consumerTag = co_ConsumerTag opts, c_prefetchCount = co_PrefetchCount opts,
          c_shutdownTimeout = co_ShutdownTimeout opts, c_concurrency = co_Concurrency opts\<rparr>)"

lemma does_NewConsumer:
  "does (NewConsumer (lb_Qos (recording L) ch) (qb_Queue b) (consumer_options hostname cfg i b))
     (\<lambda>r T. T = [] \<and> (case r of Inl err \<Rightarrow> True | Inr c \<Rightarrow> c = consumer_for hostname cfg i b))"
  by (auto simp: does_def NewConsumer_def consumer_for_def recording_def silent_def Let_def
      split: prod.splits option.splits)

fun consumers_from :: "go_string \<Rightarrow> 'f Config \<Rightarrow> nat \<Rightarrow> QueueBinding list \<Rightarrow> Consumer list" where
  "consumers_from hostname cfg i [] = []"
| "consumers_from hostname cfg i (b # bs) = consumer_for hostname cfg i b # consumers_from hostname cfg (i + 1) bs"

definition on_channels ::
  "nat \<Rightarrow> (goerror option \<Rightarrow> startup_event list \<Rightarrow> bool) \<Rightarrow> goerror option \<Rightarrow> startup_event list \<Rightarrow> bool" where
  "on_channels n P r T \<longleftrightarrow>
     (\<exists>chs T'. length chs = n \<and> T = map Opened chs @ T' @ map Closed (rev chs) \<and> P r T')"

lemma does_with_consumers:
  assumes "does (body (cs @ consumers_from (lb_Hostname L) cfg i bs)) P"
  shows "does (with_consumers (recording L) cfg body i bs cs) (or_fails (on_channels (length bs) P))"
  using assms
proof (induction bs arbitrary: i cs)
  case Nil
  have "with_consumers (recording L) cfg body i [] cs = body cs" by (simp add: fun_eq_iff)
  with Nil show ?case by (simp add: does_weaken or_fails_def on_channels_def)
next
  case (Cons b bs)
  have host: "lb_Hostname (recording L) = lb_Hostname L" by (simp add: recording_def)
  have body: "does (with_consumers (recording L) cfg body (i + 1) bs (cs @ [c])) (or_fails (on_channels (length bs) P))"
    if "c = consumer_for (lb_Hostname L) cfg i b" for c
    by (rule Cons.IH) (use Cons.prems that in simp)
  have all: "does (with_consumers (recording L) cfg body i (b # bs) cs)
      (or_fails (\<lambda>r T. \<exists>ch T'. T = Opened ch # T' @ [Closed ch] \<and> on_channels (length bs) P r T'))"
    unfolding with_consumers.simps host by (rule does_on_channel [OF body does_NewConsumer])
  have step: "on_channels (length (b # bs)) P r (Opened ch # T' @ [Closed ch])" if on: "on_channels (length bs) P r T'" for r ch T'
  proof -
    obtain chs U where "length chs = length bs" "T' = map Opened chs @ U @ map Closed (rev chs)" "P r U"
      using on unfolding on_channels_def by blast
    then show ?thesis unfolding on_channels_def by (intro exI [of _ "ch # chs"] exI [of _ U]) simp
  qed
  show ?case by (rule does_weaken [OF all]) (use step in \<open>unfold or_fails_def, blast\<close>)
qed

text \<open>\<open>RunWorker\<close>, recorded with the consumers it is given.\<close>

definition served_by ::
  "('f Config \<Rightarrow> 'v recorded Publisher \<Rightarrow> Consumer list \<Rightarrow> 'v \<Rightarrow> goerror option \<times> 'v)
     \<Rightarrow> 'f Config \<Rightarrow> 'v recorded Publisher \<Rightarrow> Consumer list \<Rightarrow> 'v recorded \<Rightarrow> goerror option \<times> 'v recorded" where
  "served_by rw cfg p cs = noting (\<lambda>r. [Served cs]) (rw cfg p cs)"

definition worker_session :: "go_string \<Rightarrow> 'f Config \<Rightarrow> goerror option \<Rightarrow> startup_event list \<Rightarrow> bool" where
  "worker_session hostname cfg r T \<longleftrightarrow>
     T = [Listens (worker_server (cf_MetricsPort cfg)),
          Served (consumers_from hostname cfg 0 (t_Bindings ProductionTopology)), ServerShut]"

lemma does_worker_serve:
  "does (worker_serve (recording L) (served_by rw cfg p) cfg cs)
     (\<lambda>r T. T = [Listens (worker_server (cf_MetricsPort cfg)), Served cs, ServerShut])"
  by (auto simp: does_def worker_serve_def served_by_def deferring_def recording_def marking_def noting_def
      split: prod.splits)

definition worker_up :: "go_string \<Rightarrow> 'f Config \<Rightarrow> goerror option \<Rightarrow> startup_event list \<Rightarrow> bool" where
  "worker_up hostname cfg r T \<longleftrightarrow>
     (\<exists>ch T'. T = Opened ch # T' @ [Closed ch]
       \<and> on_channels (length (t_Bindings ProductionTopology)) (worker_session hostname cfg) r T')"

definition api_up :: "'f Config \<Rightarrow> goerror option \<Rightarrow> startup_event list \<Rightarrow> bool" where
  "api_up cfg r T \<longleftrightarrow> (\<exists>ch T'. T = Opened ch # T' @ [Closed ch] \<and> api_session cfg r T')"

lemma does_worker_body:
  "does (worker_body (recording L) (served_by rw cfg) cfg) (or_fails (worker_up (lb_Hostname L) cfg))"
  unfolding worker_body_def worker_up_def
proof (rule does_on_channel [where Q = "\<lambda>x. True"])
  show "does (\<lambda>w. NewPublisher (lb_channel (recording L) ch) ExchangeNotifications w)
      (\<lambda>r T. T = [] \<and> (case r of Inl err \<Rightarrow> True | Inr x \<Rightarrow> True))" for ch
    by (rule does_weaken [OF does_NewPublisher]) (simp split: sum.splits)
  have "does (worker_serve (recording L) (served_by rw cfg x) cfg
      ([] @ consumers_from (lb_Hostname L) cfg 0 (t_Bindings ProductionTopology))) (worker_session (lb_Hostname L) cfg)" for x
    by (rule does_weaken [OF does_worker_serve]) (simp add: worker_session_def)
  then show "does (\<lambda>w. with_consumers (recording L) cfg (worker_serve (recording L) (served_by rw cfg x) cfg) 0
        (t_Bindings ProductionTopology) [] w)
      (or_fails (on_channels (length (t_Bindings ProductionTopology)) (worker_session (lb_Hostname L) cfg)))" for x
    by (rule does_with_consumers)
qed

section \<open>Whole starts\<close>

lemma left_open_channels: "left_open st (map Opened chs @ T) = left_open (rev (map Opened chs) @ st) T"
  by (induction chs arbitrary: st) simp_all

lemma left_open_closing: "left_open (map Opened chs @ st) (map Closed chs @ T) = left_open st T"
  by (induction chs arbitrary: st) simp_all

lemma balanced_on_channels:
  assumes "on_channels n P r T" and "\<And>T. P r T \<Longrightarrow> balanced T"
  shows "balanced T"
proof -
  obtain chs T' where T: "T = map Opened chs @ T' @ map Closed (rev chs)" and "balanced T'"
    using assms unfolding on_channels_def by blast
  then have "left_open st T = Some st" for st
    using left_open_closing [of "rev chs" st "[]"] left_open_channels [of st chs "[]"]
    by (simp add: left_open_append balanced_def rev_map)
  then show ?thesis by (simp add: balanced_def)
qed

lemma balanced_worker_up: "worker_up hostname cfg r T \<Longrightarrow> balanced T"
  unfolding worker_up_def
  by (elim exE conjE, simp, rule balanced_channel, erule balanced_on_channels)
    (simp add: worker_session_def balanced_def)

lemma balanced_api_up: "api_up cfg r T \<Longrightarrow> balanced T"
  unfolding api_up_def
  by (elim exE conjE, simp, rule balanced_channel) (simp add: api_session_def balanced_def)

text \<open>The record of a start that gets to serve.\<close>

definition serves ::
  "('f Config \<Rightarrow> goerror option \<Rightarrow> startup_event list \<Rightarrow> bool) \<Rightarrow> goerror option \<Rightarrow> startup_event list \<Rightarrow> bool" where
  "serves up r T \<longleftrightarrow> (\<exists>cfg lost closed t T'. T = connected lost closed (topology_in_place t @ T') \<and> up cfg r T')"

lemma start_up_cases:
  assumes "start_up (\<lambda>r T. \<exists>cfg. or_fails (up cfg) r T) r T" and up: "\<And>cfg T. up cfg r T \<Longrightarrow> balanced T"
  shows "left_open [] T = Some [] \<and> (serves up r T \<or> (\<exists>err. r = Some err \<and> served_nothing T))"
proof -
  have quiet: "left_open [Dialled, PoolOpened] (topology_in_place t @ T') = Some ([] @ [Dialled, PoolOpened])"
    if "balanced T'" for t T'
    using that by (simp add: topology_in_place_def left_open_append balanced_def)
  have closed: "left_open [] (connected lost closed (topology_in_place t @ T')) = Some []" if "balanced T'" for lost closed t T'
    by (rule connected_leftovers [OF quiet [OF that]]) simp
  have calm: "served_nothing (connected lost closed (topology_in_place t @ T'))" if "served_nothing T'" for lost closed t T'
    using that by (simp add: connected_def topology_in_place_def)
  from assms(1) show ?thesis unfolding start_up_def or_fails_def serves_def
    by (elim disjE exE conjE) (use closed calm up in blast)+
qed

section \<open>Properties\<close>

text \<open>C16: Whatever the libraries answer, a start of the worker or of the API either serves or returns
  an error having served nothing, and on every path it closes all it opened, the latest first. It
  serves only with both connections open and the whole topology declared; the worker then runs
  with one consumer for each of the production queues, each on a channel of its own, behind its
  metrics server, and shuts the server down before it closes the channels. A connection is
  left unclosed only if it reports itself closed.\<close>

theorem starts_in_full_or_not_at_all:
  fixes L :: "('f, 'v) libs"
  shows "(case worker_run (recording L) (served_by rw) (v, []) of (r, v', T) \<Rightarrow>
      left_open [] T = Some []
      \<and> (serves (worker_up (lb_Hostname L) :: 'f Config \<Rightarrow> _) r T \<or> (\<exists>err. r = Some err \<and> served_nothing T)))
   \<and> (case api_run (recording L) (v, []) of (r, v', T) \<Rightarrow>
      left_open [] T = Some [] \<and> (serves (api_up :: 'f Config \<Rightarrow> _) r T \<or> (\<exists>err. r = Some err \<and> served_nothing T)))"
proof -
  have worker: "does (with_connections (recording L) (\<lambda>cfg. worker_body (recording L) (served_by rw cfg) cfg))
      (start_up (\<lambda>r T. \<exists>cfg :: 'f Config. or_fails (worker_up (lb_Hostname L) cfg) r T))"
    by (rule does_with_connections, rule does_weaken [OF does_worker_body]) blast
  have api: "does (with_connections (recording L) (api_body (recording L)))
      (start_up (\<lambda>r T. \<exists>cfg :: 'f Config. or_fails (api_up cfg) r T))"
    by (rule does_with_connections, rule does_weaken [OF does_api_body, folded api_up_def]) blast
  obtain r v' T where 1: "worker_run (recording L) (served_by rw) (v, []) = (r, v', [] @ T)"
    "start_up (\<lambda>r T. \<exists>cfg :: 'f Config. or_fails (worker_up (lb_Hostname L) cfg) r T) r T"
    unfolding worker_run_def using worker by (rule doesE)
  obtain r2 v2 T2 where 2: "api_run (recording L) (v, []) = (r2, v2, [] @ T2)"
    "start_up (\<lambda>r T. \<exists>cfg :: 'f Config. or_fails (api_up cfg) r T) r2 T2"
    unfolding api_run_def using api by (rule doesE)
  have "left_open [] T = Some [] \<and> (serves (worker_up (lb_Hostname L) :: 'f Config \<Rightarrow> _) r T \<or> (\<exists>err. r = Some err \<and> served_nothing T))"
    by (rule start_up_cases [OF 1(2)]) (rule balanced_worker_up)
  moreover have "left_open [] T2 = Some [] \<and> (serves (api_up :: 'f Config \<Rightarrow> _) r2 T2 \<or> (\<exists>err. r2 = Some err \<and> served_nothing T2))"
    by (rule start_up_cases [OF 2(2)]) (rule balanced_api_up)
  ultimately show ?thesis using 1(1) 2(1) by simp
qed

text \<open>Libraries that do as they are asked, and number the channels.\<close>

definition sample_config :: "nat Config" where
  "sample_config =
     \<lparr>cf_HTTPPort = ''8080'', cf_MetricsPort = ''9090'', cf_DBDSN = ''pg'', cf_RMQURL = ''mq'', cf_WebhookURL = ''wh'',
      cf_WebhookTimeout = 10, cf_LogLevel = ''info'', cf_ShutdownTimeout = 30, cf_RateLimitPerSecond = 100,
      cf_RateLimitBurst = 200, cf_CBFailureThreshold = 5, cf_CBOpenDuration = 30, cf_CBHalfOpenMaxCalls = 2,
      cf_EmailConcurrency = 1, cf_SMSConcurrency = 1, cf_PushConcurrency = 5\<rparr>"

definition obliging_channel :: "nat amqp_channel" where
  "obliging_channel =
     \<lparr>ch_Confirm = Pair None, ch_Publish = (\<lambda>ex key mand imm msg. Pair (Inr 0)),
      ch_WaitContext = (\<lambda>n. Pair (Inr True)), ch_Now = (\<lambda>n. 0)\<rparr>"

definition obliging :: "(nat, nat) libs" where
  "obliging =
     \<lparr>lb_Parse = (\<lambda>tags. Pair (Inr sample_config)), lb_ParseConfig = (\<lambda>dsn. Pair None),
      lb_NewWithConfig = Pair None, lb_PoolPing = Pair None, lb_PoolClose = id, lb_Dial = (\<lambda>url. Pair None),
      lb_IsClosed = (\<lambda>n. False), lb_ConnClose = Pair None, lb_Channel = (\<lambda>n. (Inr n, n + 1)),
      lb_channel = (\<lambda>ch. obliging_channel), lb_Declare = (\<lambda>ch d. Pair None), lb_Qos = (\<lambda>ch n. Pair None),
      lb_ChClose = (\<lambda>ch. id), lb_Hostname = ''host'', lb_Listen = (\<lambda>addr. id), lb_Wait = Pair None,
      lb_Shutdown = (\<lambda>t. id)\<rparr>"

lemma obliging_worker:
  "fst (worker_run (recording obliging) (served_by (\<lambda>cfg p cs. Pair None)) (0, [])) = None"
  by code_simp

theorem starts_in_full_or_not_at_all_witness:
  "case worker_run (recording obliging) (served_by (\<lambda>cfg p cs. Pair None)) (0, []) of (r, v', T) \<Rightarrow>
     r = None \<and> serves (worker_up ''host'' :: nat Config \<Rightarrow> _) r T"
proof -
  have "lb_Hostname obliging = ''host''" by (simp add: obliging_def)
  then show ?thesis
    using obliging_worker starts_in_full_or_not_at_all [of obliging "\<lambda>cfg p cs. Pair None" 0]
    by (auto split: prod.splits)
qed

end
