(* ===== verification/Router.thy ===== *)
theory Router
  imports Http_Notifications Http_Admin
begin

text \<open>
  The API as one handler: \<open>NewRouter\<close> of \<open>internal/adapter/http/router.go\<close> with the dependencies
  it is given, the endpoint each route leads to, and the routes of the worker's own server
  (\<open>cmd/worker/main.go\<close>). How \<open>chi\<close> matches a request against the routes, what it answers to one
  that matches none, the file \<open>openapi.yaml\<close> and the page of the metrics library are parameters.
\<close>

section \<open>Dependencies\<close>

record 'w RouterDeps =
  rd_Service :: "'w ServicePort"
  rd_Checkers :: "'w HealthChecker list"
  rd_RateLimiter :: "'w ChannelRateLimiter option"
  rd_Metrics :: "(metric_op \<Rightarrow> 'w \<Rightarrow> 'w) option"
  rd_AMQPChannelProvider :: "('w \<Rightarrow> (goerror + 'w admin_channel) \<times> 'w) option"
  rd_AdminPublisher :: "'w AdminRetryPublisher option"
  rd_AdminQueuePrefix :: go_string
  rd_AdminMainExchange :: go_string

definition NewNotificationHandler ::
  "'w ServicePort \<Rightarrow> 'w ChannelRateLimiter option \<Rightarrow> (metric_op \<Rightarrow> 'w \<Rightarrow> 'w) option \<Rightarrow> 'w NotificationHandler" where
  "NewNotificationHandler svc limiter m = \<lparr>nh_svc = svc, nh_rateLimiter = limiter, nh_metrics = m\<rparr>"

text \<open>The admin handler exists only if both the channels and the publisher are given.\<close>

definition deps_admin :: "'w RouterDeps \<Rightarrow> 'w AdminHandler option" where
  "deps_admin d =
     (case rd_AMQPChannelProvider d of
        None \<Rightarrow> None
      | Some provider \<Rightarrow>
          (case rd_AdminPublisher d of
             None \<Rightarrow> None
           | Some publisher \<Rightarrow>
               Some (WithQueuePrefix (rd_AdminQueuePrefix d)
                 (NewAdminHandler provider publisher (admin_exchange (rd_AdminMainExchange d))))))"

definition deps_routes :: "'w RouterDeps \<Rightarrow> (go_string \<times> go_string \<times> endpoint) list" where
  "deps_routes d = router_routes (rd_Metrics d \<noteq> None) (deps_admin d \<noteq> None)"

section \<open>handler_docs.go\<close>

text \<open>The lines of a text, without a line feed after the last.\<close>

fun text_of_lines :: "go_string list \<Rightarrow> go_string" where
  "text_of_lines [] = []"
| "text_of_lines [l] = l"
| "text_of_lines (l # m # ls) = l @ CHR 0x0A # text_of_lines (m # ls)"

definition swaggerUIHTML :: go_string where
  \<open>swaggerUIHTML = text_of_lines
     [''<!DOCTYPE html>'',
      ''<html lang="en">'',
      ''<head>'',
      ''  <meta charset="utf-8" />'',
      ''  <title>Notification Dispatcher API</title>'',
      ''  <link rel="stylesheet" href="https://unpkg.com/swagger-ui-dist@5/swagger-ui.css" />'',
      ''</head>'',
      ''<body>'',
      ''  <div id="swagger-ui"></div>'',
      ''  <script src="https://unpkg.com/swagger-ui-dist@5/swagger-ui-bundle.js" crossorigin></script>'',
      ''  <script>'',
      ''    window.onload = () => {'',
      ''      window.ui = SwaggerUIBundle({'',
      ''        url: "/docs/openapi.yaml",'',
      ''        dom_id: "#swagger-ui",'',
      ''        deepLinking: true,'',
      ''      });'',
      ''    };'',
      ''  </script>'',
      ''</body>'',
      ''</html>'']\<close>

text \<open>The two answers of \<open>RegisterDocs\<close>; \<open>openAPISpec\<close> is the file \<open>openapi.yaml\<close>.\<close>

definition docs_page :: "request \<Rightarrow> response \<Rightarrow> 'w \<Rightarrow> response \<times> 'w" where
  "docs_page req r w = (write_body swaggerUIHTML (set_header ''Content-Type'' ''text/html; charset=utf-8'' r), w)"

definition docs_spec :: "go_string \<Rightarrow> request \<Rightarrow> response \<Rightarrow> 'w \<Rightarrow> response \<times> 'w" where
  "docs_spec openAPISpec req r w = (write_body openAPISpec (set_header ''Content-Type'' ''application/yaml'' r), w)"

section \<open>Dispatch\<close>

record 'w http_lib =
  hl_match :: "(go_string \<times> go_string \<times> endpoint) list \<Rightarrow> request \<Rightarrow> endpoint option"
  hl_unmatched :: "request \<Rightarrow> response \<Rightarrow> response"
  hl_openapi :: go_string
  hl_metrics :: "request \<Rightarrow> response \<Rightarrow> 'w \<Rightarrow> response"

definition run_endpoint ::
  "'w RouterDeps \<Rightarrow> 'w http_env \<Rightarrow> 'w http_lib \<Rightarrow> endpoint \<Rightarrow> request \<Rightarrow> response \<Rightarrow> 'w \<Rightarrow> response \<times> 'w" where
  "run_endpoint d V L e req r w =
     (let h = NewNotificationHandler (rd_Service d) (rd_RateLimiter d) (rd_Metrics d)
      in case e of
           Ready \<Rightarrow> ready (rd_Checkers d) req r w
         | Live \<Rightarrow> live req r w
         | MetricsPage \<Rightarrow> (hl_metrics L req r w, w)
         | DocsPage \<Rightarrow> docs_page req r w
         | OpenAPI \<Rightarrow> docs_spec (hl_openapi L) req r w
         | CreateOne \<Rightarrow> create h V req r w
         | GetOne \<Rightarrow> get h V req r w
         | CreateMany \<Rightarrow> createBatch h V req r w
         | BatchSummaryOf \<Rightarrow> getBatchSummary h V req r w
         | ListAll \<Rightarrow> list_handler h V req r w
         | CancelOne \<Rightarrow> cancel h V req r w
         | InspectDLQ \<Rightarrow>
             (case deps_admin d of None \<Rightarrow> (hl_unmatched L req r, w) | Some a \<Rightarrow> inspectDLQ a req r w)
         | ReplayDLQ \<Rightarrow>
             (case deps_admin d of None \<Rightarrow> (hl_unmatched L req r, w) | Some a \<Rightarrow> replayDLQ a req r w))"

definition routed :: "'w RouterDeps \<Rightarrow> 'w http_env \<Rightarrow> 'w http_lib \<Rightarrow> 'w Handler" where
  "routed d V L req r w =
     (case hl_match L (deps_routes d) req of
        None \<Rightarrow> (False, hl_unmatched L req r, w)
      | Some e \<Rightarrow> (False, run_endpoint d V L e req r w))"

definition deps_router :: "'w RouterDeps \<Rightarrow> 'w http_env \<Rightarrow> 'w http_lib \<Rightarrow> 'w Handler" where
  "deps_router d V L = NewRouter (he_uuid V) (he_newID V) (rd_Metrics d) (routed d V L)"

section \<open>cmd/api/main.go and cmd/worker/main.go\<close>

definition rmqChecker :: "('w \<Rightarrow> bool) \<Rightarrow> 'w HealthChecker" where
  "rmqChecker isClosed =
     (''rabbitmq'', \<lambda>w. (if isClosed w then Some (ErrorText ''connection closed'') else None, w))"

text \<open>What \<open>run\<close> of the API passes to \<open>NewRouter\<close>.\<close>

definition api_deps ::
  "'w ServicePort \<Rightarrow> ('w \<Rightarrow> goerror option \<times> 'w) \<Rightarrow> ('w \<Rightarrow> bool) \<Rightarrow> 'w ChannelRateLimiter
     \<Rightarrow> (metric_op \<Rightarrow> 'w \<Rightarrow> 'w) \<Rightarrow> ('w \<Rightarrow> (goerror + 'w admin_channel) \<times> 'w) \<Rightarrow> 'w Publisher \<Rightarrow> 'w RouterDeps" where
  "api_deps svc ping isClosed limiter m rmqConn publisher =
     \<lparr>rd_Service = svc, rd_Checkers = [pgChecker ping, rmqChecker isClosed], rd_RateLimiter = Some limiter,
      rd_Metrics = Some m, rd_AMQPChannelProvider = Some rmqConn,
      rd_AdminPublisher = Some (PublishToExchange publisher), rd_AdminQueuePrefix = [], rd_AdminMainExchange = []\<rparr>"

text \<open>The worker's server answers its liveness probe without a content type.\<close>

definition worker_live :: "request \<Rightarrow> response \<Rightarrow> 'w \<Rightarrow> response \<times> 'w" where
  "worker_live req r w =
     (write_body (''{'' @ [QUOTE] @ ''status'' @ [QUOTE] @ '':'' @ [QUOTE] @ ''ok'' @ [QUOTE] @ ''}'') (WriteHeader 200 r), w)"

definition worker_routes :: "(go_string \<times> go_string \<times> endpoint) list" where
  "worker_routes = [(''GET'', ''/health/live'', Live)] @ docs_routes @ metrics_routes"

definition newWorkerMetricsServer :: "'w http_lib \<Rightarrow> 'w Handler" where
  "newWorkerMetricsServer L req r w =
     (case hl_match L worker_routes req of
        None \<Rightarrow> (False, hl_unmatched L req r, w)
      | Some Live \<Rightarrow> (False, worker_live req r w)
      | Some DocsPage \<Rightarrow> (False, docs_page req r w)
      | Some OpenAPI \<Rightarrow> (False, docs_spec (hl_openapi L) req r w)
      | Some e \<Rightarrow> (False, hl_metrics L req r w, w))"

end
