(* ===== verification/Step_Order.thy ===== *)
theory Step_Order
  imports Worker Service_Properties
begin

text \<open>
  What the parts of the program keep when their ports keep it. An order \<open>le\<close> on worlds says that
  nothing got worse; if every port of a component only moves the world up in it, so does every
  operation of the component. One locale for each: the delivery use case and the notification
  service.
\<close>

section \<open>Worlds in an order\<close>

locale world_order =
  fixes le :: "'w \<Rightarrow> 'w \<Rightarrow> bool"
  assumes le_refl: "le w w" and le_trans: "le w1 w2 \<Longrightarrow> le w2 w3 \<Longrightarrow> le w1 w3"
begin

lemma called: "x = (r, w') \<Longrightarrow> le w (snd x) \<Longrightarrow> le w w'"
  by simp

lemma fold_le:
  assumes "\<And>x w. le w (f x w)"
  shows "le w (fold f xs w)"
proof (induction xs arbitrary: w)
  case (Cons x xs)
  have "le (f x w) (fold f (x # xs) w)" using Cons by simp
  then show ?case using assms by (rule le_trans [rotated])
qed (simp add: le_refl)

end

section \<open>The delivery use case\<close>

text \<open>\<open>ok body w\<close> says that the body may be published and sent in \<open>w\<close>.\<close>

locale deliver_order = world_order le for le :: "'w \<Rightarrow> 'w \<Rightarrow> bool" +
  fixes U :: uuid_lib and u :: "'w DeliverUseCase" and ok :: "go_string \<Rightarrow> 'w \<Rightarrow> bool"
  assumes ok_le: "ok body w \<Longrightarrow> le w w' \<Longrightarrow> ok body w'"
    and send: "ok body w \<Longrightarrow> Unmarshal U body = Some msg \<Longrightarrow> le w (snd (uc_provider u (ToNotification msg) w))"
    and update: "le w (snd (uc_updater u i s w))"
    and mark: "uc_processed u = Some pm \<Longrightarrow> le w (snd (MarkIfUnprocessed pm i w))"
    and unmark: "uc_processed u = Some pm \<Longrightarrow> le w (snd (DeleteProcessed pm i w))"
    and retry: "uc_retryPublisher u = Some rp \<Longrightarrow> ok body w \<Longrightarrow> le w (snd (PublishRetry rp ch p l a corr body w))"
    and dlq: "uc_retryPublisher u = Some rp \<Longrightarrow> ok body w \<Longrightarrow> le w (snd (PublishDLQ rp ch a corr key body w))"
    and record_row: "uc_attempts u = Some ar \<Longrightarrow> le w (snd (ar i a s e p w))"
    and count: "uc_metrics u = Some f \<Longrightarrow> le w (f m w)"
begin

lemma emit_le: "le w (emit u m w)"
  by (auto simp: emit_def le_refl count split: option.split)

lemma recordAttempt_le: "le w (recordAttempt u i a s e p w)"
  by (auto simp: recordAttempt_def le_refl record_row split: option.split)

lemma on_sent_le: "le w (snd (on_sent u msg a w))"
proof -
  let ?w1 = "emit u (MInc NotificationsDelivered [m_Channel msg, ''success''])
    (emit u (MObserve DeliveryDuration [m_Channel msg, ''success'']) w)"
  obtain r w2 where p: "uc_updater u (m_ID msg) ''delivered'' ?w1 = (r, w2)" by fastforce
  have "le w ?w1" by (rule le_trans [OF emit_le emit_le])
  moreover have "le ?w1 w2" by (rule called [OF p update])
  ultimately have "le w w2" by (rule le_trans)
  then show ?thesis
    using recordAttempt_le le_trans by (cases r) (simp_all add: on_sent_def p le_trans [OF _ recordAttempt_le])
qed

lemma fail_without_retry_le: "le w (snd (fail_without_retry u msg e w))"
proof -
  obtain r w1 where p: "uc_updater u (m_ID msg) ''failed'' w = (r, w1)" by fastforce
  have "le w w1" by (rule called [OF p update])
  then show ?thesis by (simp add: fail_without_retry_def p le_refl le_trans [OF _ emit_le])
qed

lemma route_retry_le:
  assumes "uc_retryPublisher u = Some rp" and "ok body w"
  shows "le w (snd (route_retry u rp body corr a prio msg e w))"
proof -
  obtain r w1 where p: "PublishRetry rp (m_Channel msg) prio (a + 1) (a + 1) corr body w = (r, w1)" by fastforce
  have "le w w1" by (rule called [OF p retry [OF assms]])
  have up: "le w (emit u m (recordAttempt u i a st er pr w1))" for m i st er pr
    by (rule le_trans [OF le_trans [OF \<open>le w w1\<close> recordAttempt_le] emit_le])
  obtain st er pr where t: "(if errors_Is e ErrCircuitOpen then (''circuit_open'', ''circuit_breaker_open'', [])
      else if errors_Is e ErrDeliveryFailed then (''retrying'', error_text e, error_text e)
      else (''retrying'', error_text e, [])) = (st, er, pr)" by (metis prod_cases3)
  show ?thesis
  proof (cases r)
    case None
    show ?thesis unfolding route_retry_def Let_def t prod.case p None option.case snd_conv by (rule up)
  next
    case (Some e')
    show ?thesis unfolding route_retry_def Let_def t prod.case p Some option.case snd_conv by (rule \<open>le w w1\<close>)
  qed
qed

lemma route_dlq_le:
  assumes "uc_retryPublisher u = Some rp" and "ok body w"
  shows "le w (snd (route_dlq u rp body corr a key prio msg e w))"
proof -
  let ?key = "if key = [] then m_Channel msg @ ''.'' @ prio else key"
  obtain r w1 where p: "PublishDLQ rp (m_Channel msg) a corr ?key body w = (r, w1)" by fastforce
  have 1: "le w w1" by (rule called [OF p dlq [OF assms]])
  obtain r2 w2 where p2: "uc_updater u (m_ID msg) ''failed'' w1 = (r2, w2)" by fastforce
  have 2: "le w w2" by (rule le_trans [OF 1 called [OF p2 update]])
  let ?w3 = "case uc_processed u of None \<Rightarrow> w2 | Some pm \<Rightarrow> snd (DeleteProcessed pm (m_ID msg) w2)"
  have 3: "le w ?w3"
    by (cases "uc_processed u") (simp_all add: 2 le_trans [OF 2 unmark])
  show ?thesis
  proof (cases r)
    case None
    then show ?thesis
      using le_trans [OF le_trans [OF le_trans [OF 3 recordAttempt_le] emit_le] emit_le]
      by (simp add: route_dlq_def p p2 Let_def)
  qed (simp add: route_dlq_def p 1 Let_def)
qed

lemma on_send_error_le:
  assumes "ok body w"
  shows "le w (snd (on_send_error u ctx body corr a key msg e w))"
proof -
  define v where "v = emit u (MObserve DeliveryDuration
    [m_Channel msg, if errors_Is e ErrCircuitOpen then ''circuit_open'' else ''failure'']) w"
  have up: "le w v" unfolding v_def by (rule emit_le)
  have ok: "ok body v" using assms up by (rule ok_le)
  have "le v (snd (on_send_error u ctx body corr a key msg e w))"
  proof (cases "uc_retryPublisher u")
    case None
    then show ?thesis
      by (simp add: on_send_error_def Let_def v_def [symmetric] le_refl fail_without_retry_le del: if_cancel)
  next
    case (Some rp)
    then show ?thesis
      using route_retry_le [OF Some ok] route_dlq_le [OF Some ok]
      by (simp add: on_send_error_def Let_def v_def [symmetric] le_refl)
  qed
  with up show ?thesis by (rule le_trans)
qed

lemma send_and_route_le:
  assumes "ok body w" and "Unmarshal U body = Some msg"
  shows "le w (snd (send_and_route u ctx body corr a key msg w))"
proof -
  obtain r w1 where p: "uc_provider u (ToNotification msg) w = (r, w1)" by fastforce
  have 1: "le w w1" by (rule called [OF p send [OF assms]])
  have "le w1 (snd (send_and_route u ctx body corr a key msg w))"
    using on_sent_le on_send_error_le [OF ok_le [OF assms(1) 1]] by (cases r) (simp_all add: send_and_route_def p)
  with 1 show ?thesis by (rule le_trans)
qed

lemma handle_message_le:
  assumes ok: "ok body w" and msg: "Unmarshal U body = Some msg"
  shows "le w (snd (handle_message u ctx body corr a key msg w))"
proof (cases "uc_processed u")
  case None
  then show ?thesis using send_and_route_le [OF assms] by (simp add: handle_message_def)
next
  case (Some pm)
  obtain r w1 where p: "MarkIfUnprocessed pm (m_ID msg) w = (r, w1)" by fastforce
  have 1: "le w w1" by (rule called [OF p mark [OF Some]])
  have "le w (snd (send_and_route u ctx body corr a key msg w1))"
    using 1 send_and_route_le [OF ok_le [OF ok 1] msg] by (rule le_trans)
  then show ?thesis
    using 1 send_and_route_le [OF assms] by (cases r) (auto simp: handle_message_def Some p)
qed

lemma Handle_le:
  assumes "ok body w"
  shows "le w (snd (Handle U u ctx body corr a key w))"
proof (cases "Unmarshal U body")
  case None
  show ?thesis
  proof (cases "uc_retryPublisher u")
    case (Some rp)
    obtain r w1 where p: "PublishDLQ rp (channelFromRoutingKey key) a corr key body w = (r, w1)" by fastforce
    have "le w w1" by (rule called [OF p dlq [OF Some assms]])
    then show ?thesis by (simp add: Handle_def None Some p Let_def le_trans [OF _ emit_le])
  qed (simp add: Handle_def None le_refl)
next
  case (Some msg)
  let ?w1 = "emit u (MInc NotificationsInFlight []) w"
  obtain r w2 where p: "handle_message u ctx body corr a key msg ?w1 = (r, w2)" by fastforce
  have "le ?w1 w2" by (rule called [OF p handle_message_le [OF ok_le [OF assms emit_le] Some]])
  then have "le w w2" by (rule le_trans [OF emit_le])
  then show ?thesis by (simp add: Handle_def Some p Let_def le_trans [OF _ emit_le])
qed

end

section \<open>The notification service\<close>

text \<open>\<open>held n w\<close> says that \<open>n\<close> is stored in \<open>w\<close>; only then may its message be published.\<close>

locale service_order = world_order le for le :: "'w \<Rightarrow> 'w \<Rightarrow> bool" +
  fixes U :: uuid_lib and s :: "'w NotificationService" and held :: "Notification \<Rightarrow> 'w \<Rightarrow> bool"
  assumes held_le: "held n w \<Longrightarrow> le w w' \<Longrightarrow> held n w'"
    and new_id: "le w (snd (svc_newID s w))"
    and insert: "le w (snd (repo_Insert (svc_repo s) n w))"
    and insert_held: "creatable n \<Longrightarrow> repo_Insert (svc_repo s) n w = (None, w') \<Longrightarrow> held n w'"
    and insert_batch: "le w (snd (repo_InsertBatch (svc_repo s) b ns w))"
    and insert_batch_held: "creatable n \<Longrightarrow> n \<in> set ns \<Longrightarrow> repo_InsertBatch (svc_repo s) b ns w = (None, w') \<Longrightarrow> held n w'"
    and publish: "held n w \<Longrightarrow> le w (snd (publishOne U s n w))"
    and by_id: "le w (snd (repo_GetByID (svc_repo s) i w))"
    and by_key: "le w (snd (repo_GetByIdempotencyKey (svc_repo s) k w))"
    and summary: "le w (snd (repo_GetBatchSummary (svc_repo s) b w))"
    and listing: "le w (snd (repo_List (svc_repo s) flt p l w))"
    and cancelling: "le w (snd (repo_CancelIfPending (svc_repo s) i w))"
begin

lemma insert_and_publish_le:
  assumes "creatable n"
  shows "le w (snd (insert_and_publish U s n w))"
proof -
  obtain r w1 where i: "repo_Insert (svc_repo s) n w = (r, w1)" by fastforce
  have 1: "le w w1" by (rule called [OF i insert])
  show ?thesis
  proof (cases r)
    case None
    obtain r2 w2 where p: "publishOne U s n w1 = (r2, w2)" by fastforce
    have "le w1 w2" by (rule called [OF p publish]) (rule insert_held [OF assms i [unfolded None]])
    then have "le w w2" by (rule le_trans [OF 1])
    then show ?thesis by (cases r2) (simp_all add: insert_and_publish_def i None p)
  qed (simp add: insert_and_publish_def i 1)
qed

lemma Create_le: "le w (snd (Create U s inp w))"
proof -
  obtain i w1 where g: "svc_newID s w = (i, w1)" by fastforce
  have 1: "le w w1" by (rule called [OF g new_id])
  let ?n = "new_notification i (in_CorrelationID inp) (in_BatchID inp) (in_IdempotencyKey inp) (svc_now s w) inp"
  have "le w (snd (insert_and_publish U s ?n w1))" if "Validate ?n = None"
    by (rule le_trans [OF 1 insert_and_publish_le [OF creatable_new [OF that]]])
  then show ?thesis using 1 by (cases "Validate ?n") (simp_all add: Create_def g)
qed

lemma CreateWithIdempotency_le: "le w (snd (CreateWithIdempotency U s inp key w))"
proof -
  obtain r w1 where k: "repo_GetByIdempotencyKey (svc_repo s) key w = (r, w1)" by fastforce
  have 1: "le w w1" by (rule called [OF k by_key])
  obtain r2 w2 where c: "Create U s (inp\<lparr>in_IdempotencyKey := Some key\<rparr>) w1 = (r2, w2)" by fastforce
  have "le w w2" by (rule le_trans [OF 1 called [OF c Create_le]])
  then show ?thesis using 1
    by (cases r; cases r2) (simp_all add: CreateWithIdempotency_def k c)
qed

lemma build_batch_le: "le w (snd (build_batch s b now i items w))"
proof (induction items arbitrary: i w)
  case (Cons inp items)
  obtain cid w1 where c: "(if in_CorrelationID inp = uuid_Nil then svc_newID s w else (in_CorrelationID inp, w)) = (cid, w1)"
    by fastforce
  have 1: "le w w1" using c called [OF _ new_id] by (auto simp: le_refl split: if_splits)
  obtain j w2 where g: "svc_newID s w1 = (j, w2)" by fastforce
  have 2: "le w w2" by (rule le_trans [OF 1 called [OF g new_id]])
  obtain r w3 where r: "build_batch s b now (i + 1) items w2 = (r, w3)" by fastforce
  have 3: "le w w3" by (rule le_trans [OF 2 called [OF r Cons.IH]])
  show ?case using 2 3
    unfolding build_batch.simps c Let_def prod.case g
    by (cases r) (simp_all add: r split: option.split)
qed (simp add: le_refl)

lemma publish_all_le: "(\<And>n. n \<in> set ns \<Longrightarrow> held n w) \<Longrightarrow> le w (publish_all U s ns w)"
proof (induction ns arbitrary: w)
  case (Cons n ns)
  let ?w1 = "snd (publishOne U s n w)"
  have 1: "le w ?w1" by (rule publish) (use Cons.prems in simp)
  have "le ?w1 (publish_all U s ns ?w1)"
    by (rule Cons.IH) (rule held_le [OF _ 1], use Cons.prems in simp)
  with 1 show ?case by (simp add: le_trans [OF 1])
qed (simp add: le_refl)

lemma CreateBatch_le: "le w (snd (CreateBatch U s items w))"
proof -
  obtain b w1 where g: "svc_newID s w = (b, w1)" by fastforce
  obtain r w2 where bb: "build_batch s b (svc_now s w1) 0 items w1 = (r, w2)" by fastforce
  have 2: "le w w2" by (rule le_trans [OF called [OF g new_id] called [OF bb build_batch_le]])
  show ?thesis
  proof (cases r)
    case (Inr ns)
    obtain r3 w3 where i: "repo_InsertBatch (svc_repo s) b ns w2 = (r3, w3)" by fastforce
    have 3: "le w w3" by (rule le_trans [OF 2 called [OF i insert_batch]])
    show ?thesis
    proof (cases r3)
      case None
      have "held n w3" if "n \<in> set ns" for n
        using build_batch_result [OF bb [unfolded Inr]] insert_batch_held [OF _ that i [unfolded None]] that by blast
      then have "le w3 (publish_all U s ns w3)" by (rule publish_all_le)
      then show ?thesis by (simp add: CreateBatch_def g bb Inr i None le_trans [OF 3])
    qed (simp add: CreateBatch_def g bb Inr i 3)
  qed (simp add: CreateBatch_def g bb 2)
qed

lemma reads_le:
  "le w (snd (Get s i w))" "le w (snd (Service_GetBatchSummary s b w))"
  "le w (snd (Service_List s flt p l w))" "le w (snd (Cancel s i w))"
  by (simp_all add: Get_def Service_GetBatchSummary_def Service_List_def Cancel_def by_id summary listing cancelling)

lemmas service_le = Create_le CreateWithIdempotency_le CreateBatch_le reads_le

end

end
