(* ===== verification/Http_Order.thy ===== *)
theory Http_Order
  imports Router Step_Order
begin

text \<open>
  What the HTTP layer keeps when its ports keep it: the counterpart of \<open>Step_Order\<close> for the
  handlers, the admin handlers, the probes, the middlewares and the router.
\<close>

section \<open>The handlers of notifications\<close>

locale handler_order = world_order le for le :: "'w \<Rightarrow> 'w \<Rightarrow> bool" +
  fixes h :: "'w NotificationHandler" and V :: "'w http_env"
  assumes sp_create: "le w (snd (sp_Create (nh_svc h) inp w))"
    and sp_create_key: "le w (snd (sp_CreateWithIdempotency (nh_svc h) inp key w))"
    and sp_batch: "le w (snd (sp_CreateBatch (nh_svc h) inps w))"
    and sp_get: "le w (snd (sp_Get (nh_svc h) i w))"
    and sp_summary: "le w (snd (sp_GetBatchSummary (nh_svc h) i w))"
    and sp_list: "le w (snd (sp_List (nh_svc h) flt p l w))"
    and sp_cancel: "le w (snd (sp_Cancel (nh_svc h) i w))"
    and limit: "nh_rateLimiter h = Some allow \<Longrightarrow> le w (snd (allow ch n w))"
    and metric: "nh_metrics h = Some f \<Longrightarrow> le w (f m w)"
    and new_id: "le w (snd (he_newID V w))"
begin

lemma nh_emit_le: "le w (nh_emit h m w)"
  by (cases "nh_metrics h") (simp_all add: nh_emit_def le_refl metric)

lemma nh_emits_le: "le w (fold (\<lambda>x. nh_emit h (m x)) xs w)"
  by (rule fold_le) (rule nh_emit_le)

lemma request_cid_le: "le w (snd (request_cid V req w))"
  by (simp add: request_cid_def le_refl new_id split: option.split)

lemma create_accepted_le: "le w (snd (create_accepted h V n r w))"
  by (simp add: create_accepted_def nh_emit_le Let_def)

lemma create_with_key_le: "le w (snd (create_with_key h V inp key r w))"
proof -
  obtain x w1 where c: "sp_CreateWithIdempotency (nh_svc h) inp key w = (x, w1)" by fastforce
  have 1: "le w w1" by (rule called [OF c sp_create_key])
  show ?thesis
    by (cases x) (auto simp: create_with_key_def c le_refl 1 le_trans [OF 1 create_accepted_le] split: prod.split)
qed

lemma create_without_key_le: "le w (snd (create_without_key h V inp r w))"
proof -
  obtain x w1 where c: "sp_Create (nh_svc h) inp w = (x, w1)" by fastforce
  have 1: "le w w1" by (rule called [OF c sp_create])
  show ?thesis by (cases x) (simp_all add: create_without_key_def c 1 le_trans [OF 1 create_accepted_le])
qed

lemma create_allowed_le: "le w (snd (create_allowed h V req x r w))"
proof -
  obtain cid w1 where c: "request_cid V req w = (cid, w1)" by fastforce
  have 1: "le w w1" by (rule called [OF c request_cid_le])
  show ?thesis
    by (simp add: create_allowed_def c Let_def le_trans [OF 1 create_with_key_le] le_trans [OF 1 create_without_key_le])
qed

lemma create_le: "le w (snd (create h V req r w))"
proof (cases "DecodeLimited (2 ^ 20) create_fields createNotificationRequest_zero (rq_Body req)")
  case None
  then show ?thesis unfolding create_def None by (simp add: le_refl)
next
  case dec: (Some x)
  show ?thesis
  proof (cases "nh_rateLimiter h")
    case None
    then show ?thesis unfolding create_def dec None by (simp add: create_allowed_le)
  next
    case (Some allow)
    obtain ok d w1 where a: "allow (cr_Channel x) 1 w = ((ok, d), w1)" by (metis prod.collapse)
    have 1: "le w w1" by (rule called [OF a limit [OF Some]])
    show ?thesis unfolding create_def dec Some
      by (simp add: a le_trans [OF 1 create_allowed_le] le_trans [OF 1 nh_emit_le])
  qed
qed

lemma ask_limits_le: "nh_rateLimiter h = Some allow \<Longrightarrow> le w (snd (ask_limits allow cnt chs acc w))"
proof (induction chs arbitrary: acc w)
  case (Cons ch chs)
  obtain b t where acc: "acc = (b, t)" by fastforce
  obtain ok d w1 where a: "allow ch (cnt ch) w = ((ok, d), w1)" by (metis prod.collapse)
  show ?case unfolding acc ask_limits.simps a prod.case
    by (rule le_trans [OF called [OF a limit [OF Cons.prems]] Cons.IH [OF Cons.prems]])
qed (simp add: le_refl)

lemma batch_allowed_le: "le w (snd (batch_allowed h V req xs r w))"
proof -
  obtain cid w1 where c: "request_cid V req w = (cid, w1)" by fastforce
  obtain x w2 where b: "sp_CreateBatch (nh_svc h) (map (create_input cid) xs) w1 = (x, w2)" by fastforce
  have 2: "le w w2" by (rule le_trans [OF called [OF c request_cid_le] called [OF b sp_batch]])
  show ?thesis
    by (cases x) (auto simp: batch_allowed_def c b 2 le_trans [OF 2 nh_emits_le] Let_def split: prod.split)
qed

lemma batch_checked_le: "le w (snd (batch_checked h V req xs r w))"
proof (cases "nh_rateLimiter h")
  case None
  then show ?thesis by (simp add: batch_checked_def batch_allowed_le)
next
  case (Some allow)
  obtain b t w1 where a: "ask_limits allow (channel_count xs) (he_order V (channels_of xs) w) (False, 0) w = ((b, t), w1)"
    by (metis prod.collapse)
  have 1: "le w w1" by (rule called [OF a ask_limits_le [OF Some]])
  show ?thesis
    by (simp add: batch_checked_def Some a Let_def le_trans [OF 1 batch_allowed_le] le_trans [OF 1 nh_emits_le])
qed

lemma createBatch_le: "le w (snd (createBatch h V req r w))"
proof (cases "DecodeLimited (10 * 2 ^ 20) batch_fields ([], 0) (rq_Body req)")
  case None
  then show ?thesis unfolding createBatch_def None by (simp add: le_refl)
next
  case (Some b)
  then show ?thesis unfolding createBatch_def Some by (simp add: le_refl batch_checked_le Let_def)
qed

lemma get_le: "le w (snd (get h V req r w))"
  by (auto simp: get_def le_refl intro: called [OF _ sp_get] split: option.split prod.split sum.split)

lemma getBatchSummary_le: "le w (snd (getBatchSummary h V req r w))"
  by (auto simp: getBatchSummary_def le_refl intro: called [OF _ sp_summary] split: option.split prod.split sum.split)

lemma cancel_le: "le w (snd (cancel h V req r w))"
  by (auto simp: cancel_def le_refl intro: called [OF _ sp_cancel] split: option.split prod.split sum.split)

lemma list_handler_le: "le w (snd (list_handler h V req r w))"
  by (auto simp: list_handler_def le_refl intro: called [OF _ sp_list] split: prod.split sum.split)

end

section \<open>The admin handlers\<close>

text \<open>\<open>open_ch\<close> are the channels that can be opened; \<open>ok\<close> is what a message taken from a dead letter
  queue gives, and a replay needs.\<close>

locale admin_order = world_order le for le :: "'w \<Rightarrow> 'w \<Rightarrow> bool" +
  fixes a :: "'w AdminHandler" and open_ch :: "'w admin_channel \<Rightarrow> bool" and ok :: "Delivery \<Rightarrow> 'w \<Rightarrow> bool"
  assumes open_up: "le w (snd (ah_Channel a w))"
    and opened: "ah_Channel a w = (Inr ch, w') \<Longrightarrow> open_ch ch"
    and inspecting: "open_ch ch \<Longrightarrow> le w (snd (ac_QueueInspect ch q w))"
    and getting: "open_ch ch \<Longrightarrow> le w (snd (ac_Get ch q w))"
    and got: "open_ch ch \<Longrightarrow> ac_Get ch q w = (Inr (Some d), w') \<Longrightarrow> ok d w'"
    and acking: "open_ch ch \<Longrightarrow> le w (ac_Ack ch d w)"
    and nacking: "open_ch ch \<Longrightarrow> le w (ac_Nack ch d b w)"
    and closing: "open_ch ch \<Longrightarrow> le w (ac_Close ch w)"
    and replaying: "ok d w \<Longrightarrow> Channel_Valid channel
        \<Longrightarrow> le w (snd (ah_publisher a (ah_mainExchange a) (replay_key channel d) (replay_headers d) (d_Body d) w))"
begin

lemma replay_loop_le:
  assumes ch: "open_ch ch" and channel: "Channel_Valid channel"
  shows "le w (snd (replay_loop a ch channel k m w))"
proof (induction k arbitrary: m w)
  case (Suc k)
  obtain x w1 where g: "ac_Get ch (dlqQueueName a channel) w = (x, w1)" by fastforce
  have 1: "le w w1" by (rule called [OF g getting [OF ch]])
  show ?case
  proof (cases "x = Inr None \<or> (\<exists>e. x = Inl e)")
    case True
    then show ?thesis using 1 by (auto simp: g)
  next
    case False
    then obtain d where x: "x = Inr (Some d)" by (cases x) auto
    obtain r w2 where p: "ah_publisher a (ah_mainExchange a) (replay_key channel d) (replay_headers d) (d_Body d) w1 = (r, w2)"
      by fastforce
    have 2: "le w w2" by (rule le_trans [OF 1 called [OF p replaying [OF got [OF ch g [unfolded x]] channel]]])
    show ?thesis
    proof (cases r)
      case None
      show ?thesis using Suc.IH by (simp add: g x p None) (rule le_trans [OF le_trans [OF 2 acking [OF ch]] Suc.IH])
    qed (simp add: g x p le_trans [OF 2 nacking [OF ch]])
  qed
qed (simp add: le_refl)

lemma inspectDLQ_le: "le w (snd (inspectDLQ a req r w))"
proof (cases "Channel_Valid (rq_Param req ''channel'')")
  case True
  obtain x w1 where o: "ah_Channel a w = (x, w1)" by fastforce
  have 1: "le w w1" by (rule called [OF o open_up])
  show ?thesis
  proof (cases x)
    case (Inr ch)
    have ch: "open_ch ch" by (rule opened [OF o [unfolded Inr]])
    obtain y w2 where q: "ac_QueueInspect ch (dlqQueueName a (rq_Param req ''channel'')) w1 = (y, w2)" by fastforce
    have 2: "le w (ac_Close ch w2)"
      by (rule le_trans [OF le_trans [OF 1 called [OF q inspecting [OF ch]]] closing [OF ch]])
    then show ?thesis using True by (cases y) (simp_all add: inspectDLQ_def o Inr q Let_def)
  qed (use True 1 in \<open>simp add: inspectDLQ_def o Let_def\<close>)
qed (simp add: inspectDLQ_def le_refl Let_def)

lemma replayDLQ_le: "le w (snd (replayDLQ a req r w))"
proof (cases "Channel_Valid (rq_Param req ''channel'')")
  case valid: True
  show ?thesis
  proof (cases "parse_replay_limit (rq_Query req ''limit'')")
    case None
    then show ?thesis using valid by (simp add: replayDLQ_def le_refl Let_def)
  next
    case lim: (Some k)
    obtain x w1 where o: "ah_Channel a w = (x, w1)" by fastforce
    have 1: "le w w1" by (rule called [OF o open_up])
    show ?thesis
    proof (cases x)
      case (Inr ch)
      have ch: "open_ch ch" by (rule opened [OF o [unfolded Inr]])
      obtain y w2 where l: "replay_loop a ch (rq_Param req ''channel'') (nat k) 0 w1 = (y, w2)" by fastforce
      have 2: "le w w2" by (rule le_trans [OF 1 called [OF l replay_loop_le [OF ch valid]]])
      obtain z w3 where q: "ac_QueueInspect ch (dlqQueueName a (rq_Param req ''channel'')) w2 = (z, w3)" by fastforce
      have 3: "le w (ac_Close ch w3)"
        by (rule le_trans [OF le_trans [OF 2 called [OF q inspecting [OF ch]]] closing [OF ch]])
      show ?thesis using valid 3 le_trans [OF 2 closing [OF ch]]
        by (cases y) (simp_all add: replayDLQ_def lim o Inr l q Let_def)
    qed (use valid lim 1 in \<open>simp add: replayDLQ_def o Let_def\<close>)
  qed
qed (simp add: replayDLQ_def le_refl Let_def)

end

section \<open>Probes, middlewares, router\<close>

context world_order
begin

lemma run_checkers_le:
  "list_all (\<lambda>c. \<forall>w. le w (snd (snd c w))) cs \<Longrightarrow> le w (snd (run_checkers cs acc w))"
proof (induction cs arbitrary: acc w)
  case (Cons c cs)
  obtain name ping comps overall where c: "c = (name, ping)" "acc = (comps, overall)" by (metis prod.collapse)
  obtain r w1 where p: "ping w = (r, w1)" by fastforce
  have 1: "le w w1" by (rule called [OF p]) (use Cons.prems c in simp)
  have "le w1 (snd (run_checkers cs acc' w1))" for acc' using Cons by simp
  then show ?case unfolding c by (cases r) (simp_all add: p le_trans [OF 1])
qed (simp add: le_refl)

lemma ready_le: "list_all (\<lambda>c. \<forall>w. le w (snd (snd c w))) cs \<Longrightarrow> le w (snd (ready cs req r w))"
  using run_checkers_le [of cs w "(Map.empty, ''ok'')"]
  by (simp add: ready_def Let_def split_beta)

lemma NewRouter_le:
  assumes id: "\<And>w. le w (snd (newID w))" and m: "\<And>f x w. m = Some f \<Longrightarrow> le w (f x w)"
    and inner: "\<And>req r w. le w (snd (snd (handler req r w)))"
  shows "le w (snd (snd (NewRouter U newID m handler req r w)))"
proof -
  have metrics: "le w (snd (snd (Metrics_middleware m handler req r w)))" for req r w
  proof (cases m)
    case None
    then show ?thesis by (simp add: Metrics_middleware_def inner)
  next
    case (Some f)
    obtain p r1 w1 where i: "handler req r (f (MInc HTTPRequestsInFlight []) w) = (p, r1, w1)" by (metis prod.collapse)
    have "le (f (MInc HTTPRequestsInFlight []) w) w1"
      using inner [of "f (MInc HTTPRequestsInFlight []) w" req r] by (simp add: i)
    then have 1: "le w w1" by (rule le_trans [OF m [OF Some]])
    note s = le_trans [OF _ m [OF Some]]
    show ?thesis
      by (cases p) (simp_all add: Metrics_middleware_def Some i Let_def s [OF 1] s [OF s [OF s [OF 1]]])
  qed
  have logged: "le w (snd (snd (RequestLogger (case m of None \<Rightarrow> handler | Some x \<Rightarrow> Metrics_middleware m handler) req r w)))" for req r w
    using inner metrics by (cases m) (simp_all add: RequestLogger_def)
  let ?next = "RequestLogger (case m of None \<Rightarrow> handler | Some x \<Rightarrow> Metrics_middleware m handler)"
  have cid: "le w (snd (snd (CorrelationID U newID ?next req r w)))" for req r w
  proof -
    obtain i1 w1 where 1: "newID w = (i1, w1)" by fastforce
    obtain i2 w2 where 2: "newID w = (i2, w2)" by fastforce
    obtain i3 w3 where 3: "newID w1 = (i3, w3)" by fastforce
    have le2: "le w w2" by (rule called [OF 2 id])
    have le3: "le w w3" by (rule le_trans [OF called [OF 1 id] called [OF 3 id]])
    show ?thesis
      by (cases "uuid_Parse U (rq_Header req ''X-Correlation-ID'')")
        (simp_all add: CorrelationID_def Let_def 1 3 le_trans [OF le3 logged]
          le_trans [OF called [OF 1 id] logged])
  qed
  show ?thesis using cid [of w req r]
    by (auto simp: NewRouter_def Recoverer_def Let_def split: prod.splits)
qed

text \<open>The whole router, from its parts.\<close>

lemma deps_router_le:
  assumes h: "handler_order le (NewNotificationHandler (rd_Service d) (rd_RateLimiter d) (rd_Metrics d)) V"
    and a: "\<And>a. deps_admin d = Some a \<Longrightarrow> admin_order le a open_ch ok"
    and pings: "list_all (\<lambda>c. \<forall>w. le w (snd (snd c w))) (rd_Checkers d)"
  shows "le w (snd (snd (deps_router d V L req r w)))"
proof -
  note handlers = handler_order.create_le [OF h] handler_order.createBatch_le [OF h] handler_order.get_le [OF h]
    handler_order.getBatchSummary_le [OF h] handler_order.list_handler_le [OF h] handler_order.cancel_le [OF h]
  have admin: "le w (snd (inspectDLQ x req r w))" "le w (snd (replayDLQ x req r w))" if "deps_admin d = Some x" for x req r w
    using admin_order.inspectDLQ_le [OF a [OF that]] admin_order.replayDLQ_le [OF a [OF that]] by blast+
  have "le w (snd (run_endpoint d V L e req r w))" for e req r w
    by (cases e) (simp_all add: run_endpoint_def le_refl ready_le [OF pings] live_def docs_page_def docs_spec_def handlers admin split: option.split)
  then have inner: "le w (snd (snd (routed d V L req r w)))" for req r w
    by (simp add: routed_def le_refl split: option.split)
  show ?thesis unfolding deps_router_def
    by (rule NewRouter_le [OF handler_order.new_id [OF h] _ inner])
      (rule handler_order.metric [OF h], simp add: NewNotificationHandler_def)
qed

end

end
