(* ===== verification/System_Invariant.thy ===== *)
theory System_Invariant
  imports Http_Order System_Properties
begin

text \<open>
  Both processes at work on one world, in any order and with any failures: the API serving
  arbitrary requests, the worker handling whatever the broker hands it of what was published, other
  sessions of the database in between. What reaches the broker and the webhook stands for a
  row of the database that passed validation. The parts keep this by the lemmas of \<open>Step_Order\<close>
  and \<open>Http_Order\<close>, whose locales are interpreted here on the wired processes.
\<close>

section \<open>The API over the world\<close>

text \<open>What the API meets outside besides \<open>outside\<close>: the limiter, whose state is with that of the
  breakers, the channels of the admin handlers, the probes and the router library. \<open>fr_get\<close> says
  which of the accepted publications a \<open>Get\<close> hands out, if any.\<close>

record 'c front =
  fr_allow :: "time \<Rightarrow> Channel \<Rightarrow> go_int \<Rightarrow> 'c \<Rightarrow> (bool \<times> duration) \<times> 'c"
  fr_order :: "Channel list \<Rightarrow> 'c world \<Rightarrow> Channel list"
  fr_open :: "'c world \<Rightarrow> goerror option"
  fr_inspect :: "go_string \<Rightarrow> 'c world \<Rightarrow> goerror + int"
  fr_get :: "go_string \<Rightarrow> 'c world \<Rightarrow> goerror + nat option"
  fr_ping :: "'c world \<Rightarrow> goerror option"
  fr_closed :: "'c world \<Rightarrow> bool"
  fr_http :: "'c world http_lib"

definition count_call :: "'c world \<Rightarrow> 'c world" where
  "count_call w = w\<lparr>wd_mq := (wd_mq w)\<lparr>mq_calls := mq_calls (wd_mq w) + 1\<rparr>\<rparr>"

definition front_channel :: "'c front \<Rightarrow> 'c world admin_channel" where
  "front_channel Y =
     \<lparr>ac_QueueInspect = (\<lambda>q w. (fr_inspect Y q w, count_call w)),
      ac_Get = (\<lambda>q w.
        (case fr_get Y q w of
           Inl e \<Rightarrow> Inl e
         | Inr None \<Rightarrow> Inr None
         | Inr (Some i) \<Rightarrow> if i < length (mq_log (wd_mq w)) then Inr (Some (delivery_of (mq_log (wd_mq w) ! i))) else Inr None,
         count_call w)),
      ac_Ack = (\<lambda>d. count_call), ac_Nack = (\<lambda>d b. count_call), ac_Close = count_call\<rparr>"

definition front_open :: "'c front \<Rightarrow> 'c world \<Rightarrow> (goerror + 'c world admin_channel) \<times> 'c world" where
  "front_open Y w = (case fr_open Y w of Some e \<Rightarrow> Inl e | None \<Rightarrow> Inr (front_channel Y), count_call w)"

definition front_env :: "'c outside \<Rightarrow> 'c front \<Rightarrow> 'c world http_env" where
  "front_env X Y =
     \<lparr>he_uuid = os_uuid X, he_newID = svc_newID (api_service X), he_now = os_now X, he_order = fr_order Y\<rparr>"

definition front_deps :: "'c outside \<Rightarrow> 'c front \<Rightarrow> 'c world RouterDeps" where
  "front_deps X Y =
     api_deps (service_port (os_uuid X) (api_service X)) (\<lambda>w. (fr_ping Y w, w)) (fr_closed Y)
       (\<lambda>ch n w. on_cb (fr_allow Y (os_now X w) ch n) w) (\<lambda>m w. w\<lparr>wd_metrics := wd_metrics w @ [m]\<rparr>)
       (front_open Y) (world_publisher X)"

definition api_handle :: "'c outside \<Rightarrow> 'c front \<Rightarrow> 'c world Handler" where
  "api_handle X Y = deps_router (front_deps X Y) (front_env X Y) (fr_http Y)"

section \<open>Steps of the system\<close>

definition bodies :: "'c world \<Rightarrow> go_string set" where
  "bodies w = (\<lambda>p. snd (snd (snd p))) ` set (mq_log (wd_mq w))"

text \<open>A delivery carries a body that was published; its key and headers can be any, which covers the
  ways through the retry queues. Between the calls the breakers and buckets may change with time.\<close>

inductive system_step ::
  "'c outside \<Rightarrow> 'c front \<Rightarrow> WebhookOptions \<Rightarrow> CBConfig \<Rightarrow> 'c world \<Rightarrow> 'c world \<Rightarrow> bool"
  for X Y opts cfg where
  serve: "api_handle X Y req empty_response w = (p, r, w') \<Longrightarrow> system_step X Y opts cfg w w'"
| handle: "d_Body d \<in> bodies w \<Longrightarrow> worker_deliver X opts cfg d w = (r, w') \<Longrightarrow> system_step X Y opts cfg w w'"
| elapse: "system_step X Y opts cfg w (w\<lparr>wd_breakers := c\<rparr>)"

section \<open>The invariant\<close>

text \<open>A row stands behind a message if it has its content and may be sent.\<close>

definition sendable :: "Notification \<Rightarrow> bool" where
  "sendable n \<longleftrightarrow> well_formed n \<and> Priority_Valid (n_Priority n) \<and> valid_utf8 (n_Recipient n) \<and> valid_utf8 (n_Content n)"

definition holds_msg :: "NotificationMessage \<Rightarrow> db \<Rightarrow> bool" where
  "holds_msg msg d \<longleftrightarrow> list_ex (\<lambda>n. MessageFrom n = msg \<and> sendable n) (tb_notifications d)"

definition in_db :: "NotificationMessage \<Rightarrow> 'c world \<Rightarrow> bool" where
  "in_db msg w \<longleftrightarrow> holds_msg msg (pg_db (wd_pg w))"

definition backed :: "'c outside \<Rightarrow> go_string \<Rightarrow> 'c world \<Rightarrow> bool" where
  "backed X body w \<longleftrightarrow> (\<exists>msg. body = Marshal (os_uuid X) msg \<and> in_db msg w)"

definition integrity :: "'c outside \<Rightarrow> 'c world \<Rightarrow> bool" where
  "integrity X w \<longleftrightarrow>
     (\<forall>body \<in> bodies w. backed X body w)
     \<and> (\<forall>body \<in> set (wd_posts w). \<exists>msg. body = world_body X (ToNotification msg) \<and> in_db msg w)"

text \<open>No other session removes a row, changes its content or breaks the constraints of the schema.\<close>

definition rows_stay :: "server \<Rightarrow> bool" where
  "rows_stay F \<longleftrightarrow> (\<forall>msg. keeps (holds_msg msg) F) \<and> keeps db_ok F"

text \<open>The order in which both processes move.\<close>

definition rises :: "'c outside \<Rightarrow> 'c world \<Rightarrow> 'c world \<Rightarrow> bool" where
  "rises X w w' \<longleftrightarrow> (\<forall>msg. in_db msg w \<longrightarrow> in_db msg w') \<and> (integrity X w \<longrightarrow> integrity X w')
     \<and> (db_ok (pg_db (wd_pg w)) \<longrightarrow> db_ok (pg_db (wd_pg w')))"

interpretation sys: world_order "rises X" for X
  by unfold_locales (auto simp: rises_def)

section \<open>The database\<close>

lemma MessageFrom_set_status: "MessageFrom (set_status s t n) = MessageFrom n" "sendable (set_status s t n) = sendable n"
  by (simp_all add: MessageFrom_def set_status_def sendable_def well_formed_def)

lemma MessageFrom_stored: "MessageFrom (stored F n) = MessageFrom n" "sendable (stored F n) = sendable n"
  by (simp_all add: MessageFrom_def stored_def sendable_def well_formed_def)

lemma holds_append: "tb_notifications d' = tb_notifications d @ ns \<Longrightarrow> holds_msg msg d \<Longrightarrow> holds_msg msg d'"
  by (auto simp: holds_msg_def list_ex_iff)

lemma holds_same: "tb_notifications d' = tb_notifications d \<Longrightarrow> holds_msg msg d \<Longrightarrow> holds_msg msg d'"
  by (simp add: holds_msg_def)

lemma insert_keeps_holds:
  "sql_insert_notification F n now d = Inr (u, d') \<Longrightarrow> holds_msg msg d \<Longrightarrow> holds_msg msg d'"
  by (rule holds_append [of d' d "[stored F n]"]) (auto simp: sql_insert_notification_def split: if_splits)

lemma update_keeps_holds:
  assumes "holds_msg msg d" and "sql_update_status s P now d = Inr (rows, d')"
  shows "holds_msg msg d'"
proof -
  obtain n where n: "n \<in> set (tb_notifications d)" "MessageFrom n = msg" "sendable n"
    using assms(1) by (auto simp: holds_msg_def list_ex_iff)
  let ?upd = "\<lambda>n. if P n then set_status s now n else n"
  have "tb_notifications d' = map ?upd (tb_notifications d)"
    using assms(2) by (auto simp: sql_update_status_def split: if_splits)
  then have "?upd n \<in> set (tb_notifications d')" using n(1) by simp
  moreover have "MessageFrom (?upd n) = msg \<and> sendable (?upd n)" using n(2,3) by (simp add: MessageFrom_set_status)
  ultimately show ?thesis unfolding holds_msg_def list_ex_iff by blast
qed

lemma holds_predicate:
  assumes "rows_stay F"
  shows "db_predicate F (holds_msg msg) (\<lambda>i. True)"
proof unfold_locales
  show "keeps (holds_msg msg) F" using assms by (simp add: rows_stay_def)
qed (auto simp: sql_insert_batch_def sql_mark_def sql_insert_attempt_def split: if_splits
  intro: holds_same insert_keeps_holds update_keeps_holds)

lemma schema_predicate: "rows_stay F \<Longrightarrow> db_predicate F db_ok (\<lambda>i. True)"
  by (rule db_ok_predicate) (simp add: rows_stay_def)

lemmas db_rises = db_predicate.operation_keeps [OF holds_predicate] db_predicate.operation_keeps [OF schema_predicate]

lemma insert_holds:
  assumes "sql_insert_notification F n now d = Inr (u, d')" and "creatable n"
  shows "holds_msg (MessageFrom n) d'"
proof -
  have d': "tb_notifications d' = tb_notifications d @ [stored F n]" and ok: "list_all text_ok (notification_texts n)"
    using assms(1) by (auto simp: sql_insert_notification_def split: if_splits)
  have "valid_utf8 (n_Recipient n)" "valid_utf8 (n_Content n)" using ok by (simp_all add: notification_texts_def text_ok_def)
  then have "sendable n" using assms(2) by (simp add: sendable_def creatable_def)
  then show ?thesis by (simp add: holds_msg_def d' MessageFrom_stored)
qed

lemma copy_holds:
  "sql_copy_notifications F ns now d = Inr (u, d') \<Longrightarrow> n \<in> set ns \<Longrightarrow> creatable n \<Longrightarrow> holds_msg (MessageFrom n) d'"
proof (induction ns arbitrary: d)
  case (Cons m ns)
  obtain d1 where 1: "sql_insert_notification F m now d = Inr ((), d1)" "sql_copy_notifications F ns now d1 = Inr (u, d')"
    using Cons.prems(1) by (auto split: sum.splits)
  have grow: "holds_msg msg d1 \<Longrightarrow> holds_msg msg d'" for msg
    using 1(2)
  proof (induction ns arbitrary: d1)
    case (Cons m ns)
    then show ?case by (auto split: sum.splits dest: insert_keeps_holds)
  qed simp
  show ?case
  proof (cases "n = m")
    case True
    then show ?thesis using grow insert_holds [OF 1(1)] Cons.prems(3) by simp
  next
    case False
    then show ?thesis using Cons 1(2) by simp
  qed
qed simp

lemma Insert_holds:
  assumes "Insert F n p = (None, p')" and "creatable n"
  shows "holds_msg (MessageFrom n) (pg_db p')"
proof -
  obtain u p1 where "exec F (sql_insert_notification F n) p = (Inr u, p1)" "p1 = p'"
    using assms(1) by (auto simp: Insert_def split: prod.splits sum.splits)
  then show ?thesis using insert_holds [OF exec_done assms(2)] by fastforce
qed

lemma InsertBatch_holds:
  assumes "InsertBatch F b ns p = (None, p')" and "n \<in> set ns" and "creatable n"
  shows "holds_msg (MessageFrom n) (pg_db p')"
  using InsertBatch_cases [OF assms(1)] copy_holds [OF _ assms(2,3)] by blast

section \<open>Ports of the world\<close>

lemma rises_frame:
  assumes "\<And>msg. in_db msg w \<Longrightarrow> in_db msg w'" and "db_ok (pg_db (wd_pg w)) \<Longrightarrow> db_ok (pg_db (wd_pg w'))"
    and "bodies w' \<subseteq> bodies w" and "wd_posts w' = wd_posts w"
  shows "rises X w w'"
  using assms unfolding rises_def integrity_def backed_def by (metis subsetD)

lemma rises_same: "wd_pg w' = wd_pg w \<Longrightarrow> mq_log (wd_mq w') = mq_log (wd_mq w) \<Longrightarrow> wd_posts w' = wd_posts w \<Longrightarrow> rises X w w'"
  by (rule rises_frame) (simp_all add: in_db_def bodies_def)

lemma rises_pg:
  assumes "\<And>msg. holds_msg msg (pg_db (wd_pg w)) \<Longrightarrow> holds_msg msg (pg_db (snd (f (wd_pg w))))"
    and "db_ok (pg_db (wd_pg w)) \<Longrightarrow> db_ok (pg_db (snd (f (wd_pg w))))"
  shows "rises X w (snd (on_pg f w))"
  by (rule rises_frame) (simp_all add: in_db_def bodies_def assms)

lemma rises_message:
  assumes "backed X body w" and "wd_pg w' = wd_pg w" and "bodies w' \<subseteq> insert body (bodies w)" and "wd_posts w' = wd_posts w"
  shows "rises X w w'"
proof -
  have same: "in_db msg w' = in_db msg w" for msg using assms(2) by (simp add: in_db_def)
  then have b: "backed X x w' = backed X x w" for x by (simp add: backed_def)
  show ?thesis unfolding rises_def integrity_def b same assms(2,4) using assms(1,3) by blast
qed

lemma rises_post:
  assumes "in_db msg w" and "wd_pg w' = wd_pg w" and "mq_log (wd_mq w') = mq_log (wd_mq w)"
    and "wd_posts w' \<in> {wd_posts w, wd_posts w @ [world_body X (ToNotification msg)]}"
  shows "rises X w w'"
proof -
  have same: "in_db msg w' = in_db msg w" for msg using assms(2) by (simp add: in_db_def)
  then have b: "backed X x w' = backed X x w" "bodies w' = bodies w" for x using assms(3) by (simp_all add: backed_def bodies_def)
  show ?thesis using assms(1,4) unfolding rises_def integrity_def b same assms(2) by auto
qed

lemma PublishToExchange_log:
  "\<exists>L. mq_log (wd_mq (snd (PublishToExchange (world_publisher X) ex key hs body w))) = mq_log (wd_mq w) @ L
     \<and> set L \<subseteq> {(ex, key, hs, body)}"
  by (cases "os_broker X (mq_calls (wd_mq w))")
    (auto simp: PublishToExchange_def world_publisher_def world_channel_def mq_channel_def on_mq_def mq_Publish_def
      mq_Wait_def Let_def)

lemma publish_rises:
  assumes "backed X body w"
  shows "rises X w (snd (PublishToExchange (world_publisher X) ex key hs body w))"
proof -
  obtain L where "mq_log (wd_mq (snd (PublishToExchange (world_publisher X) ex key hs body w))) = mq_log (wd_mq w) @ L"
    "set L \<subseteq> {(ex, key, hs, body)}" using PublishToExchange_log by blast
  then show ?thesis
    by (intro rises_message [OF assms]) (auto simp: bodies_def PublishToExchange_frame)
qed

section \<open>The processes keep the order\<close>

lemma api_repo_simps:
  "svc_repo (api_service X) = world_repo X"
  "repo_InsertBatch (world_repo X) b ns = on_pg (InsertBatch (os_server X) b ns)"
  "repo_Insert (world_repo X) n = on_pg (Insert (os_server X) n)"
  "repo_GetByID (world_repo X) i = on_pg (GetByID (os_server X) i)"
  "repo_GetByIdempotencyKey (world_repo X) k = on_pg (GetByIdempotencyKey (os_server X) k)"
  "repo_GetBatchSummary (world_repo X) b = on_pg (GetBatchSummary (os_server X) b)"
  "repo_List (world_repo X) flt p l = on_pg (ListNotifications (os_server X) flt p l)"
  "repo_CancelIfPending (world_repo X) i = on_pg (CancelIfPending (os_server X) i)"
  by (simp_all add: api_service_def NewNotificationService_def world_repo_def NewNotificationRepository_def)

lemma on_pg_result: "on_pg f w = (r, w') \<Longrightarrow> f (wd_pg w) = (r, wd_pg w')"
  by (auto simp: on_pg_def split: prod.splits)

lemma rises_in_db: "rises X w w' \<Longrightarrow> in_db msg w \<Longrightarrow> in_db msg w'"
  by (simp add: rises_def)

lemma rises_backed: "rises X w w' \<Longrightarrow> backed X body w \<Longrightarrow> backed X body w'"
  unfolding backed_def using rises_in_db by blast

lemma service_in_order:
  fixes X :: "'c outside"
  assumes "rows_stay (os_server X)"
  shows "service_order (rises X) (os_uuid X) (api_service X) (\<lambda>n. in_db (MessageFrom n))"
proof unfold_locales
  fix n w w'
  show "in_db (MessageFrom n) w \<Longrightarrow> rises X w w' \<Longrightarrow> in_db (MessageFrom n) w'" by (rule rises_in_db)
next
  fix n w w'
  assume c: "creatable n" and "repo_Insert (svc_repo (api_service X)) n w = (None, w')"
  then have "Insert (os_server X) n (wd_pg w) = (None, wd_pg w')" by (simp add: api_repo_simps on_pg_result)
  then show "in_db (MessageFrom n) w'" using c by (simp add: in_db_def Insert_holds)
next
  fix n ns b w w'
  assume c: "creatable n" "n \<in> set ns" and "repo_InsertBatch (svc_repo (api_service X)) b ns w = (None, w')"
  then have "InsertBatch (os_server X) b ns (wd_pg w) = (None, wd_pg w')" by (simp add: api_repo_simps on_pg_result)
  then show "in_db (MessageFrom n) w'" using c by (simp add: in_db_def InsertBatch_holds)
next
  fix n and w :: "'c world"
  assume "in_db (MessageFrom n) w"
  then have "backed X (Marshal (os_uuid X) (MessageFrom n)) w" unfolding backed_def by blast
  then show "rises X w (snd (publishOne (os_uuid X) (api_service X) n w))"
    by (simp add: publishOne_def Publish_def publish_rises Let_def)
qed (simp_all add: api_repo_simps rises_pg db_rises [OF assms] rises_same)

interpretation solo_service: service_order "rises (solo X)" "os_uuid (solo X)" "api_service (solo X)" "\<lambda>n. in_db (MessageFrom n)" for X
  by (rule service_in_order) (simp add: rows_stay_def)

lemma deliver_in_order:
  fixes X :: "'c outside"
  assumes rows: "rows_stay (os_server X)" and U: "uuid_lib_ok (os_uuid X)"
  shows "deliver_order (rises X) (os_uuid X) (the (worker_use_case X opts cfg)) (backed X)"
proof unfold_locales
  fix body w w'
  show "backed X body w \<Longrightarrow> rises X w w' \<Longrightarrow> backed X body w'" by (rule rises_backed)
next
  fix body w msg
  assume "backed X body w" and m: "Unmarshal (os_uuid X) body = Some msg"
  then obtain m0 where m0: "body = Marshal (os_uuid X) m0" "in_db m0 w" unfolding backed_def by blast
  then obtain n where "MessageFrom n = m0" "sendable n" by (auto simp: in_db_def holds_msg_def list_ex_iff)
  then have "sanitize_message m0 = m0"
    by (intro sanitize_message_valid) (auto simp: MessageFrom_def sendable_def well_formed_def)
  then have "msg = m0" using m m0(1) Unmarshal_Marshal [OF U] by simp
  then show "rises X w (snd (uc_provider (the (worker_use_case X opts cfg)) (ToNotification msg) w))"
    using provider_frame [of X opts cfg "ToNotification msg" w] m0(2) by (auto intro: rises_post)
next
  fix rp body w ch p l a corr
  assume "uc_retryPublisher (the (worker_use_case X opts cfg)) = Some rp" "backed X body w"
  then show "rises X w (snd (PublishRetry rp ch p l a corr body w))"
    by (auto simp: worker_use_case_eq Adapter_PublishRetry_def Let_def publish_rises split: prod.split option.split
        intro: sys.called [OF _ publish_rises])
next
  fix rp body w ch a corr key
  assume "uc_retryPublisher (the (worker_use_case X opts cfg)) = Some rp" "backed X body w"
  then show "rises X w (snd (PublishDLQ rp ch a corr key body w))"
    by (auto simp: worker_use_case_eq Adapter_PublishDLQ_def Let_def publish_rises split: prod.split option.split
        intro: sys.called [OF _ publish_rises])
qed (auto simp: worker_use_case_eq rises_pg db_rises [OF rows] intro: rises_same)

interpretation solo_worker: deliver_order "rises (solo X\<lparr>os_uuid := binary_uuid\<rparr>)" binary_uuid
  "the (worker_use_case (solo X\<lparr>os_uuid := binary_uuid\<rparr>) opts cfg)" "backed (solo X\<lparr>os_uuid := binary_uuid\<rparr>)" for X opts cfg
  using deliver_in_order [of "solo X\<lparr>os_uuid := binary_uuid\<rparr>" opts cfg] by (simp add: rows_stay_def binary_uuid_ok)

lemma front_simps [simp]:
  "rd_Service (front_deps X Y) = service_port (os_uuid X) (api_service X)"
  "rd_RateLimiter (front_deps X Y) = Some (\<lambda>ch n w. on_cb (fr_allow Y (os_now X w) ch n) w)"
  "rd_Metrics (front_deps X Y) = Some (\<lambda>m w. w\<lparr>wd_metrics := wd_metrics w @ [m]\<rparr>)"
  "rd_Checkers (front_deps X Y) = [pgChecker (\<lambda>w. (fr_ping Y w, w)), rmqChecker (fr_closed Y)]"
  "deps_admin (front_deps X Y) = Some
     \<lparr>ah_Channel = front_open Y, ah_publisher = PublishToExchange (world_publisher X),
      ah_mainExchange = ExchangeNotifications, ah_queuePrefix = []\<rparr>"
  by (simp_all add: front_deps_def api_deps_def deps_admin_def NewAdminHandler_def WithQueuePrefix_def admin_exchange_def)

lemma count_call_rises: "rises X w (count_call w)"
  by (rule rises_same) (simp_all add: count_call_def)

lemma handlers_over_service:
  assumes svc: "service_order le (os_uuid X) (api_service X) stands"
    and same: "\<And>w w'. wd_pg w' = wd_pg w \<Longrightarrow> mq_log (wd_mq w') = mq_log (wd_mq w)
      \<Longrightarrow> wd_posts w' = wd_posts w \<Longrightarrow> le w w'"
  shows "handler_order le
    (NewNotificationHandler (rd_Service (front_deps X Y)) (rd_RateLimiter (front_deps X Y)) (rd_Metrics (front_deps X Y)))
    (front_env X Y)"
proof -
  note svc_le = service_order.service_le [OF svc] service_order.new_id [OF svc]
  have w: "world_order le" using svc by (rule service_order.axioms)
  show ?thesis
    by (intro handler_order.intro w handler_order_axioms.intro)
      (auto simp: NewNotificationHandler_def service_port_def front_env_def svc_le simp del: api_service_simps intro: same)
qed

lemma handlers_in_order:
  assumes "rows_stay (os_server X)"
  shows "handler_order (rises X)
    (NewNotificationHandler (rd_Service (front_deps X Y)) (rd_RateLimiter (front_deps X Y)) (rd_Metrics (front_deps X Y)))
    (front_env X Y)"
  by (rule handlers_over_service [OF service_in_order [OF assms] rises_same])

interpretation solo_handlers: handler_order "rises (solo X)"
  "NewNotificationHandler (rd_Service (front_deps (solo X) Y)) (rd_RateLimiter (front_deps (solo X) Y))
     (rd_Metrics (front_deps (solo X) Y))" "front_env (solo X) Y" for X Y
  by (rule handlers_in_order) (simp add: rows_stay_def)

text \<open>A message taken from a dead letter queue has been published before.\<close>

lemma got_backed:
  assumes "ac_Get (front_channel Y) q w = (Inr (Some d), w')" and "integrity X w'"
  shows "backed X (d_Body d) w'"
proof -
  obtain i where i: "i < length (mq_log (wd_mq w))" "d = delivery_of (mq_log (wd_mq w) ! i)" "w' = count_call w"
    using assms(1) by (auto simp: front_channel_def split: sum.splits option.splits if_splits)
  have "delivery_of p = \<lparr>d_Tag = 1, d_RoutingKey = fst (snd p), d_Headers = fst (snd (snd p)), d_Body = snd (snd (snd p))\<rparr>" for p
    by (cases p) simp
  then have "d_Body d \<in> bodies w'" using i by (simp add: bodies_def count_call_def)
  then show ?thesis using assms(2) by (simp add: integrity_def)
qed

lemma admin_in_order:
  "admin_order (rises X) (the (deps_admin (front_deps X Y))) (\<lambda>ch. ch = front_channel Y)
     (\<lambda>d w. integrity X w \<longrightarrow> backed X (d_Body d) w)"
proof unfold_locales
  fix d :: Delivery and w :: "'a world" and channel
  let ?a = "the (deps_admin (front_deps X Y))" and ?body = "d_Body d"
  assume ok: "integrity X w \<longrightarrow> backed X ?body w"
  let ?w' = "snd (PublishToExchange (world_publisher X) (ah_mainExchange ?a) (replay_key channel d) (replay_headers d) ?body w)"
  have "rises X w ?w'"
  proof (cases "integrity X w")
    case True
    then show ?thesis using ok publish_rises by blast
  next
    case False
    then show ?thesis by (simp add: rises_def in_db_def PublishToExchange_frame)
  qed
  then show "rises X w (snd (ah_publisher ?a (ah_mainExchange ?a) (replay_key channel d) (replay_headers d) ?body w))"
    by simp
qed (auto simp: front_open_def front_channel_def count_call_rises split: option.splits
  intro: got_backed [unfolded front_channel_def])

interpretation sys_admin: admin_order "rises X" "the (deps_admin (front_deps X Y))" "\<lambda>ch. ch = front_channel Y"
  "\<lambda>d w. integrity X w \<longrightarrow> backed X (d_Body d) w" for X Y
  by (rule admin_in_order)

lemma api_handle_rises:
  assumes "rows_stay (os_server X)"
  shows "rises X w (snd (snd (api_handle X Y req r w)))"
  unfolding api_handle_def
proof (rule sys.deps_router_le [OF handlers_in_order [OF assms]])
  show "list_all (\<lambda>c. \<forall>w. rises X w (snd (snd c w))) (rd_Checkers (front_deps X Y))"
    by (simp add: pgChecker_def rmqChecker_def sys.le_refl)
  fix a
  assume "deps_admin (front_deps X Y) = Some a"
  then show "admin_order (rises X) a (\<lambda>ch. ch = front_channel Y) (\<lambda>d w. integrity X w \<longrightarrow> backed X (d_Body d) w)"
    using admin_in_order [of X Y] by simp
qed

lemma worker_deliver_rises:
  assumes "rows_stay (os_server X)" and "uuid_lib_ok (os_uuid X)" and "backed X (d_Body d) w"
  shows "rises X w (snd (worker_deliver X opts cfg d w))"
  using deliver_order.Handle_le [OF deliver_in_order [OF assms(1,2)] assms(3)]
  by (simp add: worker_deliver_def worker_handler_def Let_def)

lemma step_keeps:
  assumes "system_step X Y opts cfg w w'" and "integrity X w" and "rows_stay (os_server X)" and "uuid_lib_ok (os_uuid X)"
  shows "rises X w w'"
  using assms(1)
proof (cases rule: system_step.cases)
  case (serve req p r)
  then show ?thesis using api_handle_rises [OF assms(3), of w Y req empty_response] by simp
next
  case (handle d r)
  then have "backed X (d_Body d) w" using assms(2) by (simp add: integrity_def)
  then show ?thesis using worker_deliver_rises [OF assms(3,4), of d w opts cfg] handle(2) by simp
next
  case (elapse c)
  show ?thesis unfolding elapse by (rule rises_same) simp_all
qed

text \<open>At the start nothing has been published or sent.\<close>

lemma integrity_start: "mq_log (wd_mq w) = [] \<Longrightarrow> wd_posts w = [] \<Longrightarrow> integrity X w"
  by (simp add: integrity_def bodies_def)

section \<open>Properties\<close>

text \<open>C6: Run the API and the worker on one world for any number of steps: any requests, replays of
  dead letters included, any deliveries of what was published, in any order, with any calls
  failing. If it held at the start (as it does when nothing has been published or sent), every
  message the broker has accepted is the wire form, and every request the webhook has received
  the payload, of a notification that is in the database with this content and passed validation.
  No row is lost or changes its content, and the constraints of the schema hold.\<close>

theorem only_stored_notifications_are_sent:
  assumes "(system_step X Y opts cfg)\<^sup>*\<^sup>* w w'" and "integrity X w" and "db_ok (pg_db (wd_pg w))"
    and "rows_stay (os_server X)" and "uuid_lib_ok (os_uuid X)"
  shows "integrity X w' \<and> db_ok (pg_db (wd_pg w')) \<and> (in_db msg w \<longrightarrow> in_db msg w')"
  using assms(1)
proof (induction rule: rtranclp_induct)
  case base
  then show ?case using assms(2,3) by simp
next
  case (step w1 w2)
  then show ?case using step_keeps [OF step(2) _ assms(4,5)] by (simp add: rises_def)
qed

text \<open>A world in which the message of a stored notification waits for the worker.\<close>

definition idle_front :: "unit front" where
  "idle_front =
     \<lparr>fr_allow = (\<lambda>t ch n c. ((True, 0), c)), fr_order = (\<lambda>chs w. chs), fr_open = (\<lambda>w. None),
      fr_inspect = (\<lambda>q w. Inr 0), fr_get = (\<lambda>q w. Inr None), fr_ping = (\<lambda>w. None), fr_closed = (\<lambda>w. False),
      fr_http = \<lparr>hl_match = (\<lambda>rs req. None), hl_unmatched = (\<lambda>req r. r), hl_openapi = [],
        hl_metrics = (\<lambda>req r w. r)\<rparr>\<rparr>"

definition waiting_world :: "unit world" where
  "waiting_world = (world_with [sample_new])\<lparr>wd_mq := \<lparr>mq_log = [api_message (all_works Confirms) sample_new], mq_calls = 0\<rparr>\<rparr>"

lemma waiting_delivered:
  "\<exists>w'. worker_deliver (all_works Confirms) \<lparr>wo_URL = ''u'', wo_Timeout = 0\<rparr> DefaultCBConfig
      (delivery_of (api_message (all_works Confirms) sample_new)) waiting_world = (None, w')
    \<and> wd_posts w' = [world_body (all_works Confirms) sample_new]"
proof -
  have cr: "creatable sample_new" unfolding sample_new_def by (rule creatable_new) (rule sample_valid_key)
  have utf8: "valid_utf8 (n_Recipient sample_new)" "valid_utf8 (n_Content sample_new)"
    by (simp_all add: sample_new_def new_notification_def)
  show ?thesis
    using deliver_message [OF all_works_calm [of Confirms] cr utf8, where w = waiting_world
      and opts = "\<lparr>wo_URL = ''u'', wo_Timeout = 0\<rparr>" and cfg = DefaultCBConfig]
    by (auto simp: waiting_world_def pg_status_def world_with_def empty_db_def pg_seen_def)
qed

lemma waiting_integrity:
  "in_db (MessageFrom sample_new) waiting_world" "integrity (all_works Confirms) waiting_world" "db_ok (pg_db (wd_pg waiting_world))"
proof -
  have "creatable sample_new" unfolding sample_new_def by (rule creatable_new) (rule sample_valid_key)
  then have "sendable sample_new"
    by (simp add: sendable_def creatable_def) (simp add: sample_new_def new_notification_def)
  then show "in_db (MessageFrom sample_new) waiting_world"
    by (simp add: in_db_def holds_msg_def waiting_world_def world_with_def)
  then show "integrity (all_works Confirms) waiting_world"
    by (auto simp: integrity_def bodies_def waiting_world_def api_message_def backed_def)
  show "db_ok (pg_db (wd_pg waiting_world))"
    by (simp add: waiting_world_def world_with_def db_ok_def empty_db_def sample_new_def new_notification_def keys_of_def map_filter_simps)
qed

theorem only_stored_notifications_are_sent_witness:
  "\<exists>w'. (system_step (all_works Confirms) idle_front \<lparr>wo_URL = ''u'', wo_Timeout = 0\<rparr> DefaultCBConfig)\<^sup>*\<^sup>* waiting_world w'
     \<and> wd_posts w' = [world_body (all_works Confirms) sample_new]
     \<and> integrity (all_works Confirms) w' \<and> in_db (MessageFrom sample_new) w'"
proof -
  let ?X = "all_works Confirms" and ?d = "delivery_of (api_message (all_works Confirms) sample_new)"
  obtain w' where w': "worker_deliver ?X \<lparr>wo_URL = ''u'', wo_Timeout = 0\<rparr> DefaultCBConfig ?d waiting_world = (None, w')"
    "wd_posts w' = [world_body ?X sample_new]" using waiting_delivered by blast
  have "d_Body ?d \<in> bodies waiting_world" by (simp add: bodies_def waiting_world_def api_message_def)
  then have steps: "(system_step ?X idle_front \<lparr>wo_URL = ''u'', wo_Timeout = 0\<rparr> DefaultCBConfig)\<^sup>*\<^sup>* waiting_world w'"
    using w'(1) by (blast intro: system_step.handle)
  have rows: "rows_stay (os_server ?X)" by (simp add: rows_stay_def plain_keeps)
  have U: "uuid_lib_ok (os_uuid ?X)" using all_works_calm by (simp add: calm_def)
  show ?thesis
    using only_stored_notifications_are_sent [OF steps waiting_integrity(2,3) rows U, of "MessageFrom sample_new"] steps w'(2) waiting_integrity(1)
    by blast
qed

end
