(* ===== verification/Handle_Steps.thy ===== *)
theory Handle_Steps
  imports Worker
begin

text \<open>
  The delivery use case (\<open>internal/app/deliver.go\<close>) one call at a time. A handler goroutine is a tree:
  it asks one of its ports, or whether its context is cancelled, and goes on with the
  answer, so that other goroutines can act in between. Run without interruption the tree is \<open>Handle\<close>.
\<close>

section \<open>Programs of calls\<close>

datatype question = Port call | Ctx_Err

datatype answer = Errs "goerror option" | Marked "goerror + bool"

datatype handler_prog = Returns "goerror option" | Asks question "answer \<Rightarrow> handler_prog"

fun err_of :: "answer \<Rightarrow> goerror option" where
  "err_of (Errs r) = r"
| "err_of (Marked r) = None"

fun mark_of :: "answer \<Rightarrow> goerror + bool" where
  "mark_of (Marked r) = r"
| "mark_of (Errs r) = Inr False"

primrec then_do :: "handler_prog \<Rightarrow> (goerror option \<Rightarrow> handler_prog) \<Rightarrow> handler_prog" where
  "then_do (Returns r) k = k r"
| "then_do (Asks q f) k = Asks q (\<lambda>a. then_do (f a) k)"

text \<open>A port that is not wired is not called.\<close>

definition emitting :: "wiring \<Rightarrow> metric_op \<Rightarrow> handler_prog \<Rightarrow> handler_prog" where
  "emitting W m p = (if has_metrics W then Asks (Port (CMetric m)) (\<lambda>_. p) else p)"

definition recording_attempt ::
  "wiring \<Rightarrow> uuid \<Rightarrow> go_int \<Rightarrow> go_string \<Rightarrow> go_string \<Rightarrow> go_string \<Rightarrow> handler_prog \<Rightarrow> handler_prog" where
  "recording_attempt W mid attempt status errReason provResp p =
     (if has_attempts W then Asks (Port (CRecord mid attempt status errReason provResp)) (\<lambda>_. p) else p)"

section \<open>Handle\<close>

definition on_sent_prog :: "wiring \<Rightarrow> NotificationMessage \<Rightarrow> go_int \<Rightarrow> handler_prog" where
  "on_sent_prog W msg attempt =
     emitting W (MObserve DeliveryDuration [m_Channel msg, ''success''])
      (emitting W (MInc NotificationsDelivered [m_Channel msg, ''success''])
        (Asks (Port (CUpdateStatus (m_ID msg) StatusDelivered)) (\<lambda>x.
           case err_of x of
             Some err \<Rightarrow> Returns (Some err)
           | None \<Rightarrow> recording_attempt W (m_ID msg) attempt ''success'' [] [] (Returns None))))"

definition fail_without_retry_prog :: "wiring \<Rightarrow> NotificationMessage \<Rightarrow> goerror \<Rightarrow> handler_prog" where
  "fail_without_retry_prog W msg sendErr =
     (if errors_Is sendErr ErrDeliveryFailed then
        Asks (Port (CUpdateStatus (m_ID msg) StatusFailed)) (\<lambda>_.
          emitting W (MInc NotificationsDelivered [m_Channel msg, ''failed'']) (Returns None))
      else Returns (Some sendErr))"

definition route_retry_prog ::
  "wiring \<Rightarrow> go_string \<Rightarrow> go_string \<Rightarrow> go_int \<Rightarrow> go_string \<Rightarrow> NotificationMessage \<Rightarrow> goerror \<Rightarrow> handler_prog" where
  "route_retry_prog W body correlationID attempt priorityStr msg sendErr =
     (let isCircuitOpen = errors_Is sendErr ErrCircuitOpen;
          isDeliveryFailed = errors_Is sendErr ErrDeliveryFailed;
          retryLevel = attempt + 1;
          (status, errReason, provResp) =
            (if isCircuitOpen then (''circuit_open'', ''circuit_breaker_open'', [])
             else if isDeliveryFailed then (''retrying'', error_text sendErr, error_text sendErr)
             else (''retrying'', error_text sendErr, []))
      in Asks (Port (CRetry (m_Channel msg) priorityStr retryLevel retryLevel correlationID body)) (\<lambda>x.
           case err_of x of
             Some pubErr \<Rightarrow> Returns (Some (ErrorWrap ''retry publish: '' pubErr []))
           | None \<Rightarrow> recording_attempt W (m_ID msg) attempt status errReason provResp
               (emitting W (MInc NotificationsRetried [m_Channel msg, Itoa (sint retryLevel)]) (Returns None))))"

definition route_dlq_prog ::
  "wiring \<Rightarrow> go_string \<Rightarrow> go_string \<Rightarrow> go_int \<Rightarrow> go_string \<Rightarrow> go_string \<Rightarrow> NotificationMessage
     \<Rightarrow> goerror \<Rightarrow> handler_prog" where
  "route_dlq_prog W body correlationID attempt originalRoutingKey priorityStr msg sendErr =
     (let isCircuitOpen = errors_Is sendErr ErrCircuitOpen;
          routingKey = (if originalRoutingKey = [] then m_Channel msg @ ''.'' @ priorityStr
                        else originalRoutingKey);
          reason = (if isCircuitOpen then ''circuit_open'' else ''failed'');
          closing = recording_attempt W (m_ID msg) attempt ''dlq'' (error_text sendErr) []
            (emitting W (MInc NotificationsDLQ [m_Channel msg, reason])
              (emitting W (MInc NotificationsDelivered [m_Channel msg, ''failed'']) (Returns None)))
      in Asks (Port (CDLQ (m_Channel msg) attempt correlationID routingKey body)) (\<lambda>x.
           case err_of x of
             Some pubErr \<Rightarrow> Returns (Some (ErrorWrap ''dlq publish: '' pubErr []))
           | None \<Rightarrow> Asks (Port (CUpdateStatus (m_ID msg) StatusFailed)) (\<lambda>_.
               if has_processed W then Asks (Port (CDelete (m_ID msg))) (\<lambda>_. closing) else closing)))"

definition on_send_error_prog ::
  "wiring \<Rightarrow> go_string \<Rightarrow> go_string \<Rightarrow> go_int \<Rightarrow> go_string \<Rightarrow> NotificationMessage \<Rightarrow> goerror \<Rightarrow> handler_prog" where
  "on_send_error_prog W body correlationID attempt originalRoutingKey msg sendErr =
     (let outcome = (if errors_Is sendErr ErrCircuitOpen then ''circuit_open'' else ''failure'')
      in emitting W (MObserve DeliveryDuration [m_Channel msg, outcome])
        (Asks Ctx_Err (\<lambda>x.
           if err_of x \<noteq> None then Returns (Some sendErr)
           else if \<not> has_retry W then fail_without_retry_prog W msg sendErr
           else
             (let retryLevel = attempt + 1;
                  priorityStr = resolvePriority originalRoutingKey (m_Priority msg)
              in if sint retryLevel \<le> maxAttempts
                 then route_retry_prog W body correlationID attempt priorityStr msg sendErr
                 else route_dlq_prog W body correlationID attempt originalRoutingKey priorityStr
                        msg sendErr))))"

definition send_and_route_prog ::
  "wiring \<Rightarrow> go_string \<Rightarrow> go_string \<Rightarrow> go_int \<Rightarrow> go_string \<Rightarrow> NotificationMessage \<Rightarrow> handler_prog" where
  "send_and_route_prog W body correlationID attempt originalRoutingKey msg =
     Asks (Port (CSend (ToNotification msg))) (\<lambda>x.
       case err_of x of
         None \<Rightarrow> on_sent_prog W msg attempt
       | Some sendErr \<Rightarrow> on_send_error_prog W body correlationID attempt originalRoutingKey msg sendErr)"

definition handle_message_prog ::
  "wiring \<Rightarrow> go_string \<Rightarrow> go_string \<Rightarrow> go_int \<Rightarrow> go_string \<Rightarrow> NotificationMessage \<Rightarrow> handler_prog" where
  "handle_message_prog W body correlationID attempt originalRoutingKey msg =
     (if has_processed W \<and> attempt = 0 then
        Asks (Port (CMark (m_ID msg))) (\<lambda>x.
          case mark_of x of
            Inl err \<Rightarrow> Returns (Some (ErrorWrap ''idempotency check: '' err []))
          | Inr inserted \<Rightarrow>
              if \<not> inserted then Returns None
              else send_and_route_prog W body correlationID attempt originalRoutingKey msg)
      else send_and_route_prog W body correlationID attempt originalRoutingKey msg)"

definition handle_prog ::
  "uuid_lib \<Rightarrow> wiring \<Rightarrow> go_string \<Rightarrow> go_string \<Rightarrow> go_int \<Rightarrow> go_string \<Rightarrow> handler_prog" where
  "handle_prog U W body correlationID attempt originalRoutingKey =
     (case Unmarshal U body of
        None \<Rightarrow>
          if has_retry W then
            (let channel = channelFromRoutingKey originalRoutingKey
             in Asks (Port (CDLQ channel attempt correlationID originalRoutingKey body)) (\<lambda>_.
                  emitting W (MInc NotificationsDLQ [channel, ''poison'']) (Returns None)))
          else Returns (Some (ErrorWrap ''unmarshal message: '' unmarshal_error []))
      | Some msg \<Rightarrow>
          emitting W (MInc NotificationsInFlight [])
           (then_do (handle_message_prog W body correlationID attempt originalRoutingKey msg)
             (\<lambda>r. emitting W (MDec NotificationsInFlight []) (Returns r))))"

text \<open>The closure \<open>handler\<close> of \<open>RunWorker\<close>.\<close>

definition delivery_prog :: "uuid_lib \<Rightarrow> wiring \<Rightarrow> Delivery \<Rightarrow> handler_prog" where
  "delivery_prog U W d =
     handle_prog U W (d_Body d) (headerString (d_Headers d) ''correlation_id'')
       (scast (headerInt32 (d_Headers d) ''x-attempt'')) (d_RoutingKey d)"

section \<open>Running a program\<close>

definition errs :: "goerror option \<times> 'w \<Rightarrow> answer \<times> 'w" where
  "errs rw = (Errs (fst rw), snd rw)"

text \<open>One call of a port of \<open>u\<close>.\<close>

fun perform_call :: "'w DeliverUseCase \<Rightarrow> call \<Rightarrow> 'w \<Rightarrow> answer \<times> 'w" where
  "perform_call u (CSend n) w = errs (uc_provider u n w)"
| "perform_call u (CUpdateStatus i s) w = errs (uc_updater u i s w)"
| "perform_call u (CMark i) w =
     (case uc_processed u of None \<Rightarrow> (Errs None, w)
      | Some pm \<Rightarrow> (Marked (fst (MarkIfUnprocessed pm i w)), snd (MarkIfUnprocessed pm i w)))"
| "perform_call u (CDelete i) w =
     (case uc_processed u of None \<Rightarrow> (Errs None, w) | Some pm \<Rightarrow> errs (DeleteProcessed pm i w))"
| "perform_call u (CRecord i a s e p) w =
     (case uc_attempts u of None \<Rightarrow> (Errs None, w) | Some rec \<Rightarrow> errs (rec i a s e p w))"
| "perform_call u (CRetry c p l a i b) w =
     (case uc_retryPublisher u of None \<Rightarrow> (Errs None, w) | Some rp \<Rightarrow> errs (PublishRetry rp c p l a i b w))"
| "perform_call u (CDLQ c a i k b) w =
     (case uc_retryPublisher u of None \<Rightarrow> (Errs None, w) | Some rp \<Rightarrow> errs (PublishDLQ rp c a i k b w))"
| "perform_call u (CMetric m) w = (Errs None, emit u m w)"

fun perform :: "'w DeliverUseCase \<Rightarrow> ('w \<Rightarrow> goerror option) \<Rightarrow> question \<Rightarrow> 'w \<Rightarrow> answer \<times> 'w" where
  "perform u ctx (Port c) w = perform_call u c w"
| "perform u ctx Ctx_Err w = (Errs (ctx w), w)"

primrec exec_prog ::
  "'w DeliverUseCase \<Rightarrow> ('w \<Rightarrow> goerror option) \<Rightarrow> handler_prog \<Rightarrow> 'w \<Rightarrow> goerror option \<times> 'w" where
  "exec_prog u ctx (Returns r) = (\<lambda>w. (r, w))"
| "exec_prog u ctx (Asks q k) =
     (\<lambda>w. exec_prog u ctx (k (fst (perform u ctx q w))) (snd (perform u ctx q w)))"

definition wiring_of :: "'w DeliverUseCase \<Rightarrow> wiring" where
  "wiring_of u =
     \<lparr>has_processed = (uc_processed u \<noteq> None), has_retry = (uc_retryPublisher u \<noteq> None),
      has_attempts = (uc_attempts u \<noteq> None), has_metrics = (uc_metrics u \<noteq> None)\<rparr>"

section \<open>Uninterrupted, a program is \<open>Handle\<close>\<close>

lemma wiring_of_simps [simp]:
  "has_processed (wiring_of u) \<longleftrightarrow> uc_processed u \<noteq> None" "has_retry (wiring_of u) \<longleftrightarrow> uc_retryPublisher u \<noteq> None"
  "has_attempts (wiring_of u) \<longleftrightarrow> uc_attempts u \<noteq> None" "has_metrics (wiring_of u) \<longleftrightarrow> uc_metrics u \<noteq> None"
  by (simp_all add: wiring_of_def)

lemma exec_then_do:
  "exec_prog u ctx (then_do p k) w = (case exec_prog u ctx p w of (r, w') \<Rightarrow> exec_prog u ctx (k r) w')"
  by (induction p arbitrary: w) simp_all

lemma exec_emitting [simp]: "exec_prog u ctx (emitting (wiring_of u) m p) w = exec_prog u ctx p (emit u m w)"
  by (simp add: emitting_def emit_def)

lemma exec_recording_attempt [simp]:
  "exec_prog u ctx (recording_attempt (wiring_of u) i a s e r p) w = exec_prog u ctx p (recordAttempt u i a s e r w)"
  by (auto simp: recording_attempt_def recordAttempt_def errs_def)

lemma exec_on_sent: "exec_prog u ctx (on_sent_prog (wiring_of u) msg a) w = on_sent u msg a w"
  by (simp add: on_sent_prog_def on_sent_def errs_def Let_def split: prod.split option.split)

lemma exec_fail_without_retry:
  "exec_prog u ctx (fail_without_retry_prog (wiring_of u) msg e) w = fail_without_retry u msg e w"
  by (simp add: fail_without_retry_prog_def fail_without_retry_def errs_def split: prod.split)

lemma exec_route_retry:
  assumes "uc_retryPublisher u = Some rp"
  shows "exec_prog u ctx (route_retry_prog (wiring_of u) body corr a prio msg e) w = route_retry u rp body corr a prio msg e w"
  by (simp add: route_retry_prog_def route_retry_def errs_def assms Let_def split: prod.split option.split)

lemma exec_route_dlq:
  assumes "uc_retryPublisher u = Some rp"
  shows "exec_prog u ctx (route_dlq_prog (wiring_of u) body corr a key prio msg e) w
    = route_dlq u rp body corr a key prio msg e w"
  by (simp add: route_dlq_prog_def route_dlq_def errs_def assms Let_def split: prod.split option.split)

lemma exec_on_send_error:
  "exec_prog u ctx (on_send_error_prog (wiring_of u) body corr a key msg e) w
   = on_send_error u ctx body corr a key msg e w"
  by (auto simp: on_send_error_prog_def on_send_error_def Let_def exec_fail_without_retry exec_route_retry exec_route_dlq
      split: option.split)

lemma exec_send_and_route:
  "exec_prog u ctx (send_and_route_prog (wiring_of u) body corr a key msg) w
   = send_and_route u ctx body corr a key msg w"
  by (simp add: send_and_route_prog_def send_and_route_def errs_def exec_on_sent exec_on_send_error
      split: prod.split option.split)

lemma exec_handle_message:
  "exec_prog u ctx (handle_message_prog (wiring_of u) body corr a key msg) w
   = handle_message u ctx body corr a key msg w"
  by (auto simp: handle_message_prog_def handle_message_def exec_send_and_route
      split: prod.split option.split sum.split)

lemma exec_handle:
  "exec_prog u ctx (handle_prog U (wiring_of u) body corr a key) w = Handle U u ctx body corr a key w"
  by (auto simp: handle_prog_def Handle_def exec_then_do exec_handle_message errs_def Let_def
      split: prod.split option.split)

text \<open>Asked one call at a time and without interruption, the handler of a delivery makes the calls
  of \<open>RunWorker\<close>'s handler on \<open>Handle\<close> and returns what it returns, for every use case and every
  world.\<close>

theorem delivery_prog_is_handler:
  "exec_prog u ctx (delivery_prog U (wiring_of u) d) w = worker_handler U u ctx d w"
  by (simp add: delivery_prog_def worker_handler_def exec_handle Let_def)

end
