(* ===== verification/Plant.thy ===== *)
theory Plant
  imports Handle_Steps System_Invariant Journey
begin

text \<open>
  The whole plant: the API, the broker with the queues of the topology, and handler goroutines of
  any number of consumers and worker processes, which act on one world call by call and in any
  order. A handler can die between two calls; the broker then delivers its message again.
\<close>

section \<open>The queues of the broker\<close>

type_synonym queues = "go_string \<Rightarrow> Delivery list"

text \<open>A message of a queue is a delivery without its tag.\<close>

definition enqueue :: "(go_string \<Rightarrow> go_string \<Rightarrow> bool) \<Rightarrow> publication \<Rightarrow> queues \<Rightarrow> queues" where
  "enqueue matches pub Q =
     (case pub of (ex, key, hs, body) \<Rightarrow>
        fold (\<lambda>q Q. Q(q := Q q @ [delivery_of pub])) (routed_to matches ProductionTopology ex key) Q)"

text \<open>Where the broker sends a message that has outlived the TTL of its queue.\<close>

definition dead_letter_of :: "go_string \<Rightarrow> (go_string \<times> go_string) option" where
  "dead_letter_of q =
     (case queue_args ProductionTopology q of
        [args] \<Rightarrow>
          (case (map_of args ''x-message-ttl'', map_of args ''x-dead-letter-exchange'',
                 map_of args ''x-dead-letter-routing-key'') of
             (Some (VInt32 ms), Some (VString ex), Some (VString key)) \<Rightarrow> Some (ex, key)
           | _ \<Rightarrow> None)
      | _ \<Rightarrow> None)"

definition work_queues :: "go_string list" where
  "work_queues = map qb_Queue (t_Bindings ProductionTopology)"

definition dlq_queues :: "go_string list" where
  "dlq_queues = map (DLQQueueName ProductionTopology) topo_channels"

section \<open>The state\<close>

text \<open>\<open>ag_log\<close> is what the handler has asked so far and was answered.\<close>

record agent =
  ag_queue :: go_string
  ag_delivery :: Delivery
  ag_prog :: handler_prog
  ag_log :: "(question \<times> answer) list"

text \<open>\<open>pl_settled\<close> are the handlers that have returned and whose message the broker has removed on
  their ack or nack, \<open>pl_taken\<close> what an administrator has removed from a dead letter queue.
  \<open>pl_started\<close> and \<open>pl_calls\<close> record the deliveries handlers were started with and all their calls
  with the answers.\<close>

record 'c plant =
  pl_world :: "'c world"
  pl_queues :: queues
  pl_agents :: "agent list"
  pl_settled :: "agent list"
  pl_taken :: "Delivery list"
  pl_started :: "Delivery list"
  pl_calls :: "(question \<times> answer) list"

definition plant_start :: "'c world \<Rightarrow> queues \<Rightarrow> 'c plant" where
  "plant_start w Q =
     \<lparr>pl_world = w, pl_queues = Q, pl_agents = [], pl_settled = [], pl_taken = [],
      pl_started = [], pl_calls = []\<rparr>"

text \<open>The world moves on, and the broker routes what has been published.\<close>

definition published_since :: "'c world \<Rightarrow> 'c world \<Rightarrow> publication list" where
  "published_since w w' = drop (length (mq_log (wd_mq w))) (mq_log (wd_mq w'))"

definition moves :: "(go_string \<Rightarrow> go_string \<Rightarrow> bool) \<Rightarrow> 'c world \<Rightarrow> 'c plant \<Rightarrow> 'c plant" where
  "moves matches w' s =
     s\<lparr>pl_world := w', pl_queues := fold (enqueue matches) (published_since (pl_world s) w') (pl_queues s)\<rparr>"

abbreviation worker_prog :: "'c outside \<Rightarrow> WebhookOptions \<Rightarrow> CBConfig \<Rightarrow> Delivery \<Rightarrow> handler_prog" where
  "worker_prog X opts cfg \<equiv> delivery_prog (os_uuid X) (wiring_of (the (worker_use_case X opts cfg)))"

section \<open>The steps\<close>

text \<open>
  A context may turn out cancelled whenever a handler asks. A handler that dies leaves its message
  unacknowledged; this covers a killed process, a lost connection and a lost ack.
\<close>

inductive plant_step ::
  "(go_string \<Rightarrow> go_string \<Rightarrow> bool) \<Rightarrow> 'c outside \<Rightarrow> 'c front \<Rightarrow> WebhookOptions \<Rightarrow> CBConfig \<Rightarrow> 'c plant \<Rightarrow> 'c plant \<Rightarrow> bool"
  for matches X Y opts cfg where
  serves:
    "api_handle X Y req empty_response (pl_world s) = (p, r, w')
     \<Longrightarrow> plant_step matches X Y opts cfg s (moves matches w' s)"
| elapses:
    "plant_step matches X Y opts cfg s (s\<lparr>pl_world := (pl_world s)\<lparr>wd_breakers := c\<rparr>\<rparr>)"
| expires:
    "pl_queues s q = d # ds \<Longrightarrow> dead_letter_of q = Some (ex, key)
     \<Longrightarrow> plant_step matches X Y opts cfg s
          (s\<lparr>pl_queues := enqueue matches (ex, key, d_Headers d, d_Body d) ((pl_queues s)(q := ds))\<rparr>)"
| starts:
    "q \<in> set work_queues \<Longrightarrow> pl_queues s q = xs @ d # ys
     \<Longrightarrow> plant_step matches X Y opts cfg s
          (s\<lparr>pl_queues := (pl_queues s)(q := xs @ ys), pl_started := pl_started s @ [d],
             pl_agents := pl_agents s @
               [\<lparr>ag_queue = q, ag_delivery = d, ag_prog = worker_prog X opts cfg d, ag_log = []\<rparr>]\<rparr>)"
| asks:
    "pl_agents s = as @ g # bs \<Longrightarrow> ag_prog g = Asks (Port c) k
     \<Longrightarrow> perform_call (the (worker_use_case X opts cfg)) c (pl_world s) = (a, w')
     \<Longrightarrow> plant_step matches X Y opts cfg s
          (moves matches w' (s\<lparr>pl_agents := as @ g\<lparr>ag_prog := k a, ag_log := ag_log g @ [(Port c, a)]\<rparr> # bs,
                               pl_calls := pl_calls s @ [(Port c, a)]\<rparr>))"
| asks_context:
    "pl_agents s = as @ g # bs \<Longrightarrow> ag_prog g = Asks Ctx_Err k
     \<Longrightarrow> plant_step matches X Y opts cfg s
          (s\<lparr>pl_agents := as @ g\<lparr>ag_prog := k (Errs e), ag_log := ag_log g @ [(Ctx_Err, Errs e)]\<rparr> # bs\<rparr>)"
| returns:
    "pl_agents s = as @ g # bs \<Longrightarrow> ag_prog g = Returns r
     \<Longrightarrow> plant_step matches X Y opts cfg s (s\<lparr>pl_agents := as @ bs, pl_settled := pl_settled s @ [g]\<rparr>)"
| dies:
    "pl_agents s = as @ g # bs
     \<Longrightarrow> plant_step matches X Y opts cfg s
          (s\<lparr>pl_agents := as @ bs,
             pl_queues := (pl_queues s)(ag_queue g := pl_queues s (ag_queue g) @ [ag_delivery g])\<rparr>)"
| taken:
    "q \<in> set dlq_queues \<Longrightarrow> pl_queues s q = xs @ d # ys
     \<Longrightarrow> plant_step matches X Y opts cfg s
          (s\<lparr>pl_queues := (pl_queues s)(q := xs @ ys), pl_taken := pl_taken s @ [d]\<rparr>)"

lemma moves_fields [simp]:
  "pl_world (moves matches w' s) = w'" "pl_agents (moves matches w' s) = pl_agents s"
  "pl_settled (moves matches w' s) = pl_settled s" "pl_taken (moves matches w' s) = pl_taken s"
  "pl_started (moves matches w' s) = pl_started s" "pl_calls (moves matches w' s) = pl_calls s"
  by (simp_all add: moves_def)

section \<open>A handler that is left alone\<close>

text \<open>A handler that runs without interruption does what the handler of \<open>RunWorker\<close> does in one step.\<close>

lemma runs_alone:
  assumes "pl_agents s = as @ g # bs"
    and "exec_prog (the (worker_use_case X opts cfg)) (os_ctx X) (ag_prog g) (pl_world s) = (r, w')"
  shows "\<exists>s' g'. (plant_step matches X Y opts cfg)\<^sup>*\<^sup>* s s' \<and> pl_agents s' = as @ g' # bs \<and> ag_prog g' = Returns r
    \<and> ag_delivery g' = ag_delivery g \<and> ag_queue g' = ag_queue g \<and> pl_world s' = w' \<and> pl_started s' = pl_started s"
  using assms
proof (induction "ag_prog g" arbitrary: s g)
  case (Returns r')
  then show ?case by (intro exI [of _ s] exI [of _ g]) (simp flip: Returns(1))
next
  case (Asks q k)
  let ?u = "the (worker_use_case X opts cfg)"
  obtain a w1 where a: "perform ?u (os_ctx X) q (pl_world s) = (a, w1)" by fastforce
  let ?g = "g\<lparr>ag_prog := k a, ag_log := ag_log g @ [(q, a)]\<rparr>"
  have "exec_prog ?u (os_ctx X) (k a) w1 = (r, w')"
    using Asks.prems(2) a unfolding Asks.hyps(2) [symmetric] by simp
  moreover have "\<exists>s1. plant_step matches X Y opts cfg s s1 \<and> pl_agents s1 = as @ ?g # bs \<and> pl_world s1 = w1
      \<and> pl_started s1 = pl_started s"
  proof (cases q)
    case (Port c)
    show ?thesis
      by (rule exI, rule conjI, rule plant_step.asks [OF Asks.prems(1), where c = c and k = k and a = a and w' = w1])
        (use Port a Asks.hyps(2) in simp_all)
  next
    case Ctx_Err
    show ?thesis
      by (rule exI, rule conjI, rule plant_step.asks_context [OF Asks.prems(1), where k = k and e = "os_ctx X (pl_world s)"])
        (use Ctx_Err a Asks.hyps(2) in auto)
  qed
  ultimately obtain s1 where s1: "plant_step matches X Y opts cfg s s1" "pl_agents s1 = as @ ?g # bs" "pl_world s1 = w1"
    "pl_started s1 = pl_started s" "exec_prog ?u (os_ctx X) (k a) (pl_world s1) = (r, w')" by blast
  have "ag_prog ?g \<in> range k" by simp
  from Asks.hyps(1) [OF this s1(2)] s1(5)
  obtain s' g' where "(plant_step matches X Y opts cfg)\<^sup>*\<^sup>* s1 s'" "pl_agents s' = as @ g' # bs" "ag_prog g' = Returns r"
    "ag_delivery g' = ag_delivery g" "ag_queue g' = ag_queue g" "pl_world s' = w'" "pl_started s' = pl_started s"
    using s1(4) by auto
  then show ?case using s1(1) converse_rtranclp_into_rtranclp by metis
qed

lemma delivers_alone:
  assumes "pl_agents s = as @ g # bs" and "ag_prog g = worker_prog X opts cfg d"
    and "worker_deliver X opts cfg d (pl_world s) = (r, w')"
  shows "\<exists>s' g'. (plant_step matches X Y opts cfg)\<^sup>*\<^sup>* s s' \<and> pl_agents s' = as @ g' # bs \<and> ag_prog g' = Returns r
    \<and> ag_delivery g' = ag_delivery g \<and> ag_queue g' = ag_queue g \<and> pl_world s' = w' \<and> pl_started s' = pl_started s"
  by (rule runs_alone [OF assms(1)])
    (use assms(2,3) in \<open>simp add: worker_deliver_def worker_handler_def delivery_prog_def exec_handle Let_def\<close>)

end
