(* ===== verification/Plant_Order.thy ===== *)
theory Plant_Order
  imports Plant "HOL-Library.Sublist"
begin

text \<open>
  What the API does to the rest of the plant when it serves a request: it posts nothing, removes no
  mark, and what it publishes goes to the main exchange under the key of a work queue and as a
  first attempt. The locales of \<open>Step_Order\<close> and \<open>Http_Order\<close> are interpreted on this order.
\<close>

section \<open>Well-formed publications\<close>

text \<open>What the topology is made for: new messages and replays for the work queues, retries of level 1 to
  3, and dead letters that know the work queue they came from.\<close>

definition new_pub :: "publication \<Rightarrow> bool" where
  "new_pub pub = (case pub of (ex, key, hs, body) \<Rightarrow>
     ex = ExchangeNotifications \<and> key \<in> set work_queues \<and> headerInt32 hs ''x-attempt'' = 0
     \<and> headerString hs ''x-original-routing-key'' = [])"

definition retry_pub :: "publication \<Rightarrow> bool" where
  "retry_pub pub = (case pub of (ex, key, hs, body) \<Rightarrow>
     ex = ExchangeRetry \<and> headerString hs ''x-original-routing-key'' = []
     \<and> list_ex (\<lambda>ch. list_ex (\<lambda>p. list_ex (\<lambda>level.
           key = retry_routing_key ch p level \<and> sint (headerInt32 hs ''x-attempt'') = level)
         [1, 2, 3]) topo_priorities) topo_channels)"

definition dlq_pub :: "publication \<Rightarrow> bool" where
  "dlq_pub pub = (case pub of (ex, key, hs, body) \<Rightarrow>
     ex = ExchangeDLQ \<and> key \<in> set topo_channels
     \<and> headerString hs ''x-original-routing-key'' \<in> set work_queues)"

definition pub_ok :: "publication \<Rightarrow> bool" where
  "pub_ok pub \<longleftrightarrow> new_pub pub \<or> retry_pub pub \<or> dlq_pub pub"

definition log_ok :: "'c world \<Rightarrow> bool" where
  "log_ok w = list_all pub_ok (mq_log (wd_mq w))"

lemma work_queues_eq: "work_queues = [ch @ ''.'' @ p. ch \<leftarrow> topo_channels, p \<leftarrow> topo_priorities]"
  by code_simp

lemma work_queue_iff: "q \<in> set work_queues \<longleftrightarrow> (\<exists>ch p. Channel_Valid ch \<and> Priority_Valid p \<and> q = ch @ ''.'' @ p)"
  by (auto simp: work_queues_eq channel_mem priority_mem)

lemma RoutingKey_work: "Channel_Valid ch \<Longrightarrow> p = [] \<or> Priority_Valid p \<Longrightarrow> RoutingKey ch p \<in> set work_queues"
  unfolding work_queue_iff RoutingKey_eq by (auto simp: Priority_Valid_iff)

section \<open>The order\<close>

definition serves_up :: "'c outside \<Rightarrow> 'c world \<Rightarrow> 'c world \<Rightarrow> bool" where
  "serves_up X w w' \<longleftrightarrow> rises X w w' \<and> wd_posts w' = wd_posts w \<and> pg_seen (wd_pg w) \<subseteq> pg_seen (wd_pg w')
     \<and> prefix (mq_log (wd_mq w)) (mq_log (wd_mq w')) \<and> (integrity X w \<and> log_ok w \<longrightarrow> log_ok w')"

interpretation up: world_order "serves_up X" for X
proof unfold_locales
  fix w1 w2 w3 :: "'a world"
  assume "serves_up X w1 w2" "serves_up X w2 w3"
  moreover from this have "integrity X w1 \<longrightarrow> integrity X w2" by (simp add: serves_up_def rises_def)
  ultimately show "serves_up X w1 w3"
    unfolding serves_up_def using sys.le_trans prefix_order.order_trans by (metis subset_trans)
qed (simp add: serves_up_def sys.le_refl)

lemma up_rises: "serves_up X w w' \<Longrightarrow> rises X w w'"
  by (simp add: serves_up_def)

lemma up_same:
  "wd_pg w' = wd_pg w \<Longrightarrow> mq_log (wd_mq w') = mq_log (wd_mq w) \<Longrightarrow> wd_posts w' = wd_posts w \<Longrightarrow> serves_up X w w'"
  by (simp add: serves_up_def rises_same log_ok_def)

lemma up_pg:
  assumes "\<And>msg. holds_msg msg (pg_db (wd_pg w)) \<Longrightarrow> holds_msg msg (pg_db (snd (f (wd_pg w))))"
    and "db_ok (pg_db (wd_pg w)) \<Longrightarrow> db_ok (pg_db (snd (f (wd_pg w))))"
    and "\<And>i. i \<in> set (tb_processed (pg_db (wd_pg w))) \<Longrightarrow> i \<in> set (tb_processed (pg_db (snd (f (wd_pg w)))))"
  shows "serves_up X w (snd (on_pg f w))"
  using assms by (auto simp: serves_up_def rises_pg log_ok_def pg_seen_def)

lemma up_publish:
  assumes "backed X body w" and "integrity X w \<Longrightarrow> log_ok w \<Longrightarrow> pub_ok (ex, key, hs, body)"
  shows "serves_up X w (snd (PublishToExchange (world_publisher X) ex key hs body w))"
proof -
  let ?w' = "snd (PublishToExchange (world_publisher X) ex key hs body w)"
  obtain L where L: "mq_log (wd_mq ?w') = mq_log (wd_mq w) @ L" "set L \<subseteq> {(ex, key, hs, body)}"
    using PublishToExchange_log by blast
  then have "integrity X w \<and> log_ok w \<longrightarrow> log_ok ?w'" using assms(2) by (auto simp: log_ok_def list_all_iff)
  then show ?thesis using L publish_rises [OF assms(1)] by (simp add: serves_up_def PublishToExchange_frame)
qed

section \<open>The API keeps it\<close>

lemma in_db_routes: "in_db (MessageFrom n) w \<Longrightarrow> RoutingKey (n_Channel n) (n_Priority n) \<in> set work_queues"
  by (rule RoutingKey_work) (auto simp: in_db_def holds_msg_def list_ex_iff sendable_def well_formed_def MessageFrom_def)

lemma service_up:
  fixes X :: "'c outside"
  shows "service_order (serves_up (solo X)) (os_uuid (solo X)) (api_service (solo X)) (\<lambda>n. in_db (MessageFrom n))"
proof unfold_locales
  fix n w w'
  show "in_db (MessageFrom n) w \<Longrightarrow> serves_up (solo X) w w' \<Longrightarrow> in_db (MessageFrom n) w'"
    by (rule rises_in_db) (rule up_rises)
next
  fix n w w'
  show "creatable n \<Longrightarrow> repo_Insert (svc_repo (api_service (solo X))) n w = (None, w') \<Longrightarrow> in_db (MessageFrom n) w'"
    by (rule solo_service.insert_held)
next
  fix n ns b w w'
  show "creatable n \<Longrightarrow> n \<in> set ns \<Longrightarrow> repo_InsertBatch (svc_repo (api_service (solo X))) b ns w = (None, w')
      \<Longrightarrow> in_db (MessageFrom n) w'"
    by (rule solo_service.insert_batch_held)
next
  fix n and w :: "'c world"
  assume n: "in_db (MessageFrom n) w"
  let ?hs = "[(''notification_id'', VString (uuid_String (os_uuid X) (n_ID n))),
    (''correlation_id'', VString (uuid_String (os_uuid X) (n_CorrelationID n)))]"
  have "backed (solo X) (Marshal (os_uuid X) (MessageFrom n)) w" using n unfolding backed_def by auto
  moreover have "new_pub (ExchangeNotifications, RoutingKey (n_Channel n) (n_Priority n), ?hs, b)" for b
    using in_db_routes [OF n] by (simp add: new_pub_def headerInt32_def headerString_def)
  ultimately show "serves_up (solo X) w (snd (publishOne (os_uuid (solo X)) (api_service (solo X)) n w))"
    unfolding publishOne_def Publish_def Let_def api_service_simps by (auto simp: world_publisher_def [of "solo X"] pub_ok_def
      intro!: up_publish [where X = "solo X", unfolded world_publisher_def])
qed (simp_all add: api_repo_simps up_same up_pg dedup.operation_keeps db_rises rows_stay_def)

interpretation up_service: service_order "serves_up (solo X)" "os_uuid (solo X)" "api_service (solo X)" "\<lambda>n. in_db (MessageFrom n)" for X
  by (rule service_up)

interpretation up_handlers: handler_order "serves_up (solo X)"
  "NewNotificationHandler (rd_Service (front_deps (solo X) Y)) (rd_RateLimiter (front_deps (solo X) Y))
     (rd_Metrics (front_deps (solo X) Y))" "front_env (solo X) Y" for X Y
  by (rule handlers_over_service [OF service_up up_same])

text \<open>A message the admin handler gets has been published before; its replay is a new message.\<close>

definition replayable :: "'c outside \<Rightarrow> Delivery \<Rightarrow> 'c world \<Rightarrow> bool" where
  "replayable X d w \<longleftrightarrow> (integrity X w \<longrightarrow> backed X (d_Body d) w)
     \<and> (log_ok w \<longrightarrow> headerString (d_Headers d) ''x-original-routing-key'' \<in> insert [] (set work_queues))"

lemma replay_new:
  assumes "Channel_Valid ch" and "headerString (d_Headers d) ''x-original-routing-key'' \<in> insert [] (set work_queues)"
  shows "new_pub (ExchangeNotifications, replay_key ch d, replay_headers d, body)"
proof -
  have "ch @ ''.normal'' \<in> set work_queues"
    using assms(1) unfolding work_queue_iff by (intro exI [of _ ch] exI [of _ PriorityNormal]) (simp add: Priority_Valid_iff)
  then show ?thesis using assms(2)
    by (auto simp: new_pub_def replay_key_def replay_headers_def headerInt32_def headerString_def Let_def)
qed

lemma got_replayable:
  assumes "ac_Get (front_channel Y) q w = (Inr (Some d), w')"
  shows "replayable X d w'"
proof -
  obtain i where i: "i < length (mq_log (wd_mq w))" "d = delivery_of (mq_log (wd_mq w) ! i)" "w' = count_call w"
    using assms by (auto simp: front_channel_def split: sum.splits option.splits if_splits)
  obtain ex key hs body where p: "mq_log (wd_mq w) ! i = (ex, key, hs, body)" by (metis prod_cases4)
  have "(ex, key, hs, body) \<in> set (mq_log (wd_mq w'))"
    using i p nth_mem by (fastforce simp: count_call_def)
  then have "log_ok w' \<Longrightarrow> pub_ok (ex, key, hs, body)" by (simp add: log_ok_def list_all_iff)
  then show ?thesis using got_backed [OF assms, of X] i p
    by (auto simp: replayable_def pub_ok_def new_pub_def retry_pub_def dlq_pub_def)
qed

lemma count_call_up: "serves_up X w (count_call w)"
  by (rule up_same) (simp_all add: count_call_def)

lemma admin_up:
  "admin_order (serves_up X) (the (deps_admin (front_deps X Y))) (\<lambda>ch. ch = front_channel Y) (replayable X)"
proof unfold_locales
  fix d :: Delivery and w :: "'a world" and channel
  assume ok: "replayable X d w" and ch: "Channel_Valid channel"
  let ?w' = "snd (PublishToExchange (world_publisher X) ExchangeNotifications (replay_key channel d) (replay_headers d) (d_Body d) w)"
  have "serves_up X w ?w'"
  proof (cases "integrity X w")
    case True
    then show ?thesis using ok replay_new [OF ch, of d "d_Body d"]
      by (intro up_publish) (auto simp: replayable_def pub_ok_def)
  next
    case False
    obtain L where "mq_log (wd_mq ?w') = mq_log (wd_mq w) @ L" using PublishToExchange_log by blast
    then show ?thesis using False by (simp add: serves_up_def rises_def in_db_def PublishToExchange_frame)
  qed
  then show "serves_up X w (snd (ah_publisher (the (deps_admin (front_deps X Y)))
      (ah_mainExchange (the (deps_admin (front_deps X Y)))) (replay_key channel d) (replay_headers d) (d_Body d) w))"
    by simp
qed (auto simp: front_open_def front_channel_def count_call_up split: option.splits
  intro: got_replayable [unfolded front_channel_def])

interpretation up_admin: admin_order "serves_up X" "the (deps_admin (front_deps X Y))" "\<lambda>ch. ch = front_channel Y"
  "replayable X" for X Y
  by (rule admin_up)

lemma api_handle_up: "serves_up (solo X) w (snd (snd (api_handle (solo X) Y req r w)))"
  unfolding api_handle_def
proof (rule up.deps_router_le [OF up_handlers.handler_order_axioms])
  show "list_all (\<lambda>c. \<forall>w. serves_up (solo X) w (snd (snd c w))) (rd_Checkers (front_deps (solo X) Y))"
    by (simp add: pgChecker_def rmqChecker_def up.le_refl)
  fix a
  assume "deps_admin (front_deps (solo X) Y) = Some a"
  then show "admin_order (serves_up (solo X)) a (\<lambda>ch. ch = front_channel Y) (replayable (solo X))"
    using admin_up [of "solo X" Y] by simp
qed

end
