(* ===== verification/Plant_Posts.thy ===== *)
theory Plant_Posts
  imports Plant_Order Redelivery
begin

text \<open>
  How often the webhook is asked to send one notification when handlers run at the same time. The
  calls of a handler are bounded by a budget that some answers add to: a first delivery may send
  only after its mark was new, a retry starts with one send.
\<close>

section \<open>Budgets\<close>

text \<open>With budget \<open>n\<close> the program can go on: it spends one on each call in \<open>spend\<close> and gains one when a
  call is answered as \<open>gain\<close> says.\<close>

primrec within :: "(call \<Rightarrow> bool) \<Rightarrow> (call \<Rightarrow> answer \<Rightarrow> bool) \<Rightarrow> handler_prog \<Rightarrow> nat \<Rightarrow> bool" where
  "within spend gain (Returns r) n = True"
| "within spend gain (Asks q k) n =
     (case q of
        Ctx_Err \<Rightarrow> (\<forall>a. within spend gain (k a) n)
      | Port c \<Rightarrow> (spend c \<longrightarrow> 0 < n) \<and> (\<forall>a. within spend gain (k a) (n - of_bool (spend c) + of_bool (gain c a))))"

lemma within_more: "within spend gain p n \<Longrightarrow> n \<le> n' \<Longrightarrow> within spend gain p n'"
proof (induction p arbitrary: n n')
  case (Asks q k)
  show ?case
  proof (cases q)
    case (Port c)
    have "within spend gain (k a) (n' - of_bool (spend c) + of_bool (gain c a))" for a
      by (rule Asks.IH [of _ "n - of_bool (spend c) + of_bool (gain c a)"]) (use Asks.prems Port in auto)
    then show ?thesis using Asks.prems Port by auto
  next
    case Ctx_Err
    then show ?thesis using Asks.prems Asks.IH [OF rangeI] by (auto simp: Ctx_Err)
  qed
qed simp

lemma within_then_do:
  assumes "\<And>r n. within spend gain (f r) n"
  shows "within spend gain (then_do p f) n = within spend gain p n"
  using assms
proof (induction p arbitrary: n)
  case (Asks q k)
  then show ?case by (auto split: question.split)
qed simp

text \<open>Metrics and audit rows cost nothing.\<close>

definition plain_budget :: "(call \<Rightarrow> bool) \<Rightarrow> (call \<Rightarrow> answer \<Rightarrow> bool) \<Rightarrow> bool" where
  "plain_budget spend gain \<longleftrightarrow> (\<forall>c a. \<not> essential_call c \<longrightarrow> \<not> spend c \<and> \<not> gain c a)"

lemma within_emitting [simp]: "plain_budget spend gain \<Longrightarrow> within spend gain (emitting W m p) n = within spend gain p n"
  by (simp add: emitting_def plain_budget_def)

lemma within_recording [simp]:
  "plain_budget spend gain \<Longrightarrow> within spend gain (recording_attempt W j a s e r p) n = within spend gain p n"
  by (simp add: recording_attempt_def plain_budget_def)

text \<open>The budget of all handlers together: what they have spent and still hold was granted at their start
  or gained.\<close>

definition count_calls :: "(call \<Rightarrow> answer \<Rightarrow> bool) \<Rightarrow> (question \<times> answer) list \<Rightarrow> nat" where
  "count_calls P h = length (filter (\<lambda>(q, a). case q of Ctx_Err \<Rightarrow> False | Port c \<Rightarrow> P c a) h)"

lemma count_calls_simps [simp]:
  "count_calls P [] = 0" "count_calls P (h @ h') = count_calls P h + count_calls P h'"
  "count_calls P [(Port c, a)] = of_bool (P c a)"
  by (simp_all add: count_calls_def)

definition in_budget :: "(call \<Rightarrow> bool) \<Rightarrow> (call \<Rightarrow> answer \<Rightarrow> bool) \<Rightarrow> (Delivery \<Rightarrow> nat) \<Rightarrow> 'c plant \<Rightarrow> bool" where
  "in_budget spend gain grant s \<longleftrightarrow>
     (\<exists>ps. list_all2 (\<lambda>g. within spend gain (ag_prog g)) (pl_agents s) ps
        \<and> count_calls (\<lambda>c a. spend c) (pl_calls s) + sum_list ps
          \<le> sum_list (map grant (pl_started s)) + count_calls gain (pl_calls s))"

lemma in_budgetE:
  assumes "in_budget spend gain grant s"
  obtains ps where "list_all2 (\<lambda>g. within spend gain (ag_prog g)) (pl_agents s) ps"
    "count_calls (\<lambda>c a. spend c) (pl_calls s) + sum_list ps
      \<le> sum_list (map grant (pl_started s)) + count_calls gain (pl_calls s)"
  using assms unfolding in_budget_def by (elim exE conjE)

lemma within_middle:
  assumes "list_all2 (\<lambda>g. within spend gain (ag_prog g)) (as @ g # bs) ps"
  obtains ps1 n ps2 where "ps = ps1 @ n # ps2" "list_all2 (\<lambda>g. within spend gain (ag_prog g)) as ps1"
    "within spend gain (ag_prog g) n" "list_all2 (\<lambda>g. within spend gain (ag_prog g)) bs ps2"
  using assms unfolding list_all2_append1 list_all2_Cons1 by blast

lemma in_budget_step:
  assumes "plant_step matches X Y opts cfg s s'" and "in_budget spend gain grant s"
    and start: "\<And>d. within spend gain (worker_prog X opts cfg d) (grant d)"
  shows "in_budget spend gain grant s'"
proof -
  obtain ps where ps: "list_all2 (\<lambda>g. within spend gain (ag_prog g)) (pl_agents s) ps"
    "count_calls (\<lambda>c a. spend c) (pl_calls s) + sum_list ps
      \<le> sum_list (map grant (pl_started s)) + count_calls gain (pl_calls s)"
    using assms(2) by (rule in_budgetE)
  show ?thesis using assms(1)
  proof (cases rule: plant_step.cases)
    case (starts q xs d ys)
    let ?g = "\<lparr>ag_queue = q, ag_delivery = d, ag_prog = worker_prog X opts cfg d, ag_log = []\<rparr>"
    have "list_all2 (\<lambda>g. within spend gain (ag_prog g)) (pl_agents s @ [?g]) (ps @ [grant d])"
      by (rule list_all2_appendI [OF ps(1)]) (simp add: start)
    then show ?thesis using ps(2) unfolding in_budget_def by (intro exI [of _ "ps @ [grant d]"]) (simp add: starts(1))
  next
    case (asks as g bs c k a w')
    obtain ps1 n ps2 where sp: "ps = ps1 @ n # ps2" "list_all2 (\<lambda>g. within spend gain (ag_prog g)) as ps1"
      "within spend gain (ag_prog g) n" "list_all2 (\<lambda>g. within spend gain (ag_prog g)) bs ps2"
      using ps(1) unfolding asks(2) by (rule within_middle)
    let ?n = "n - of_bool (spend c) + of_bool (gain c a)"
    have "within spend gain (k a) ?n" "spend c \<longrightarrow> 0 < n" using sp(3) asks(3) by simp_all
    then show ?thesis using ps(2) sp unfolding in_budget_def
      by (intro exI [of _ "ps1 @ ?n # ps2"]) (auto simp: asks(1) list_all2_appendI)
  next
    case (asks_context as g bs k e)
    obtain ps1 n ps2 where "ps = ps1 @ n # ps2" "list_all2 (\<lambda>g. within spend gain (ag_prog g)) as ps1"
      "within spend gain (ag_prog g) n" "list_all2 (\<lambda>g. within spend gain (ag_prog g)) bs ps2"
      using ps(1) unfolding asks_context(2) by (rule within_middle)
    then show ?thesis using ps(2) asks_context(3) unfolding in_budget_def
      by (intro exI [of _ ps]) (simp add: asks_context(1) list_all2_appendI)
  next
    case (returns as g bs r)
    obtain ps1 n ps2 where "ps = ps1 @ n # ps2" "list_all2 (\<lambda>g. within spend gain (ag_prog g)) as ps1"
      "list_all2 (\<lambda>g. within spend gain (ag_prog g)) bs ps2"
      using ps(1) unfolding returns(2) by (rule within_middle)
    then show ?thesis using ps(2) unfolding in_budget_def
      by (intro exI [of _ "ps1 @ ps2"]) (simp add: returns(1) list_all2_appendI)
  next
    case (dies as g bs)
    obtain ps1 n ps2 where "ps = ps1 @ n # ps2" "list_all2 (\<lambda>g. within spend gain (ag_prog g)) as ps1"
      "list_all2 (\<lambda>g. within spend gain (ag_prog g)) bs ps2"
      using ps(1) unfolding dies(2) by (rule within_middle)
    then show ?thesis using ps(2) unfolding in_budget_def
      by (intro exI [of _ "ps1 @ ps2"]) (simp add: dies(1) list_all2_appendI)
  qed (use ps in \<open>auto simp: in_budget_def\<close>)
qed

lemma in_budget_reached:
  assumes "(plant_step matches X Y opts cfg)\<^sup>*\<^sup>* (plant_start w0 Q) s"
    and "\<And>d. within spend gain (worker_prog X opts cfg d) (grant d)"
  shows "count_calls (\<lambda>c a. spend c) (pl_calls s) \<le> sum_list (map grant (pl_started s)) + count_calls gain (pl_calls s)"
proof -
  have "in_budget spend gain grant s"
    using assms(1)
  proof (induction rule: rtranclp_induct)
    case base
    show ?case by (simp add: in_budget_def plant_start_def)
  next
    case (step s1 s2)
    then show ?case using in_budget_step assms(2) by blast
  qed
  then show ?thesis by (rule in_budgetE) simp
qed

section \<open>The budgets of \<open>Handle\<close>\<close>

fun sends_for :: "uuid \<Rightarrow> call \<Rightarrow> bool" where
  "sends_for i (CSend n) = (n_ID n = i)"
| "sends_for i c = False"

definition marks_new :: "uuid \<Rightarrow> call \<Rightarrow> answer \<Rightarrow> bool" where
  "marks_new i c a \<longleftrightarrow> c = CMark i \<and> mark_of a = Inr True"

definition unmarks :: "uuid \<Rightarrow> call \<Rightarrow> bool" where
  "unmarks i c \<longleftrightarrow> c = CDelete i"

lemma plain_budgets [simp]:
  "plain_budget (sends_for i) (marks_new i)" "plain_budget (unmarks i) (\<lambda>c a. False)"
proof -
  have "essential_call c" if "sends_for i c \<or> marks_new i c a \<or> unmarks i c" for c a
    using that by (cases c) (auto simp: marks_new_def unmarks_def)
  then show "plain_budget (sends_for i) (marks_new i)" "plain_budget (unmarks i) (\<lambda>c a. False)"
    unfolding plain_budget_def by blast+
qed

text \<open>The delivery of a retry of \<open>i\<close>.\<close>

definition retries_id :: "uuid_lib \<Rightarrow> uuid \<Rightarrow> Delivery \<Rightarrow> bool" where
  "retries_id U i d \<longleftrightarrow> (scast (headerInt32 (d_Headers d) ''x-attempt'') :: go_int) \<noteq> 0
     \<and> (case Unmarshal U (d_Body d) of None \<Rightarrow> False | Some msg \<Rightarrow> m_ID msg = i)"

lemmas error_progs = fail_without_retry_prog_def route_retry_prog_def route_dlq_prog_def on_send_error_prog_def

text \<open>After its send a handler needs no further send; it unmarks at most once, and only after a retry.\<close>

lemma after_send:
  "within (sends_for i) (marks_new i) (on_sent_prog W msg a) n"
  "within (sends_for i) (marks_new i) (on_send_error_prog W body corr a key msg e) n"
  by (simp_all add: on_sent_prog_def error_progs Let_def marks_new_def split: option.split)

lemma send_budget:
  assumes "m_ID msg = i \<Longrightarrow> 0 < n"
  shows "within (sends_for i) (marks_new i) (send_and_route_prog W body corr a key msg) n"
  using assms by (auto simp: send_and_route_prog_def ToNotification_def marks_new_def after_send split: option.split)

lemma delivery_sends:
  assumes "has_processed W"
  shows "within (sends_for i) (marks_new i) (delivery_prog U W d) (of_bool (retries_id U i d))"
proof (cases "Unmarshal U (d_Body d)")
  case None
  then show ?thesis by (simp add: delivery_prog_def handle_prog_def marks_new_def Let_def)
next
  case (Some msg)
  have "within (sends_for i) (marks_new i)
      (handle_message_prog W body corr (scast (headerInt32 (d_Headers d) ''x-attempt'')) key msg) (of_bool (retries_id U i d))"
    for body corr key
    using assms by (auto simp: handle_message_prog_def retries_id_def Some marks_new_def intro!: send_budget split: sum.split)
  then show ?thesis by (simp add: delivery_prog_def handle_prog_def Some within_then_do)
qed

lemma unmark_budget:
  assumes "a \<noteq> 0 \<Longrightarrow> m_ID msg = i \<Longrightarrow> 0 < n"
  shows "within (unmarks i) (\<lambda>c a. False) (handle_message_prog W body corr a key msg) n"
proof -
  have "3 < sint (a + 1) \<Longrightarrow> a \<noteq> 0" by auto
  then show ?thesis using assms
    by (auto simp: handle_message_prog_def send_and_route_prog_def on_sent_prog_def error_progs maxAttempts_def unmarks_def
        Let_def split: option.split sum.split)
qed

lemma delivery_unmarks:
  "within (unmarks i) (\<lambda>c a. False) (delivery_prog U W d) (of_bool (retries_id U i d))"
proof (cases "Unmarshal U (d_Body d)")
  case None
  then show ?thesis by (simp add: delivery_prog_def handle_prog_def unmarks_def Let_def)
next
  case (Some msg)
  have "within (unmarks i) (\<lambda>c a. False)
      (handle_message_prog W body corr (scast (headerInt32 (d_Headers d) ''x-attempt'')) key msg) (of_bool (retries_id U i d))"
    for body corr key
    by (rule unmark_budget) (simp add: retries_id_def Some)
  then show ?thesis by (simp add: delivery_prog_def handle_prog_def Some within_then_do)
qed

section \<open>What the calls of the worker change\<close>

abbreviation wd_seen :: "'c world \<Rightarrow> uuid set" where
  "wd_seen w \<equiv> pg_seen (wd_pg w)"

abbreviation solo_use_case :: "'c outside \<Rightarrow> WebhookOptions \<Rightarrow> CBConfig \<Rightarrow> 'c world DeliverUseCase" where
  "solo_use_case X opts cfg \<equiv> the (worker_use_case (solo X) opts cfg)"

fun call_effect :: "'c outside \<Rightarrow> call \<Rightarrow> answer \<Rightarrow> 'c world \<Rightarrow> 'c world \<Rightarrow> bool" where
  "call_effect X (CSend n) a w w' \<longleftrightarrow>
     wd_seen w' = wd_seen w \<and> wd_posts w' \<in> {wd_posts w, wd_posts w @ [world_body X n]}"
| "call_effect X (CMark i) a w w' \<longleftrightarrow>
     wd_posts w' = wd_posts w \<and> wd_seen w \<subseteq> wd_seen w' \<and> (mark_of a = Inr True \<longrightarrow> i \<notin> wd_seen w \<and> i \<in> wd_seen w')"
| "call_effect X (CDelete i) a w w' \<longleftrightarrow> wd_posts w' = wd_posts w \<and> wd_seen w - {i} \<subseteq> wd_seen w'"
| "call_effect X c a w w' \<longleftrightarrow> wd_posts w' = wd_posts w \<and> wd_seen w' = wd_seen w"

lemma world_mark:
  assumes "on_pg (Repo_MarkIfUnprocessed (alone F) i) w = (r, w')"
  shows "call_effect X (CMark i) (Marked r) w w'"
proof -
  obtain p where p: "Repo_MarkIfUnprocessed (alone F) i (wd_pg w) = (r, p)" "w' = w\<lparr>wd_pg := p\<rparr>"
    using assms by (auto simp: on_pg_def split: prod.splits)
  show ?thesis using p pg_dedup.mark_answer [of F i "wd_pg w" _ p] pg_dedup.mark_error [of F i "wd_pg w" _ p]
    by (cases r) auto
qed

lemma world_delete:
  assumes "on_pg (Repo_DeleteProcessed (alone F) i) w = (r, w')"
  shows "call_effect X (CDelete i) a w w'"
proof -
  obtain p where p: "Repo_DeleteProcessed (alone F) i (wd_pg w) = (r, p)" "w' = w\<lparr>wd_pg := p\<rparr>"
    using assms by (auto simp: on_pg_def split: prod.splits)
  show ?thesis using p pg_dedup.delete_nil [of F i "wd_pg w" p] pg_dedup.delete_error [of F i "wd_pg w" _ p]
    by (cases r) auto
qed

lemma perform_effect:
  assumes "perform_call (solo_use_case X opts cfg) c w = (a, w')"
  shows "call_effect X c a w w'"
proof (cases c)
  case (CSend n)
  then show ?thesis using assms provider_frame [of "solo X" opts cfg n w]
    by (auto simp: errs_def worker_use_case_eq world_body_def)
next
  case (CMark i)
  then show ?thesis using assms world_mark [of "os_server X" i w _ w' X]
    by (auto simp: worker_use_case_eq prod_eq_iff)
next
  case (CDelete i)
  then show ?thesis using assms world_delete [of "os_server X" i w _ w' X a]
    by (auto simp: worker_use_case_eq errs_def prod_eq_iff)
qed (use assms in \<open>auto simp: worker_use_case_eq errs_def emit_def UpdateStatus_seen RecordAttempt_seen Adapter_frame\<close>)

section \<open>Marks and posts of the plant\<close>

text \<open>New marks of \<open>i\<close> are covered by its deletions and by its row in the dedup table; posts for \<open>i\<close> by
  the sends for it.\<close>

definition posts_ok :: "'c outside \<Rightarrow> 'c world \<Rightarrow> 'c plant \<Rightarrow> bool" where
  "posts_ok X w0 s \<longleftrightarrow>
     (\<forall>i. count_calls (marks_new i) (pl_calls s) + of_bool (i \<in> wd_seen w0)
        \<le> count_calls (\<lambda>c a. unmarks i c) (pl_calls s) + of_bool (i \<in> wd_seen (pl_world s)))
     \<and> (\<exists>ns. wd_posts (pl_world s) = wd_posts w0 @ map (world_body X) ns
        \<and> (\<forall>i. count_list (map n_ID ns) i \<le> count_calls (\<lambda>c a. sends_for i c) (pl_calls s)))"

lemma posts_ok_same:
  assumes "posts_ok X w0 s" and "wd_posts (pl_world s') = wd_posts (pl_world s)"
    and "wd_seen (pl_world s) \<subseteq> wd_seen (pl_world s')" and "pl_calls s' = pl_calls s"
  shows "posts_ok X w0 s'"
proof -
  have "(of_bool (i \<in> wd_seen (pl_world s)) :: nat) \<le> of_bool (i \<in> wd_seen (pl_world s'))" for i using assms(3) by auto
  then show ?thesis using assms(1) unfolding posts_ok_def assms(2,4) by (meson add_left_mono le_trans)
qed

lemma posts_ok_call:
  assumes "posts_ok X w0 s" and "call_effect X c a (pl_world s) w'"
    and "pl_world s' = w'" "pl_calls s' = pl_calls s @ [(Port c, a)]"
  shows "posts_ok X w0 s'"
proof -
  obtain ns where ns: "wd_posts (pl_world s) = wd_posts w0 @ map (world_body X) ns"
    "\<And>i. count_list (map n_ID ns) i \<le> count_calls (\<lambda>c a. sends_for i c) (pl_calls s)"
    using assms(1) unfolding posts_ok_def by blast
  have "\<exists>ns'. wd_posts w' = wd_posts w0 @ map (world_body X) (ns @ ns')
      \<and> (\<forall>i. count_list (map n_ID ns') i \<le> of_bool (sends_for i c))"
  proof (cases "wd_posts w' = wd_posts (pl_world s)")
    case True
    then show ?thesis using ns(1) by (intro exI [of _ "[]"]) simp
  next
    case False
    then obtain m where "c = CSend m" "wd_posts w' = wd_posts (pl_world s) @ [world_body X m]"
      using assms(2) by (cases c) auto
    then show ?thesis using ns(1) by (intro exI [of _ "[m]"]) simp
  qed
  then obtain ns' where "wd_posts w' = wd_posts w0 @ map (world_body X) (ns @ ns')"
    "\<And>i. count_list (map n_ID ns') i \<le> of_bool (sends_for i c)" by blast
  then have "\<exists>ns. wd_posts w' = wd_posts w0 @ map (world_body X) ns
      \<and> (\<forall>i. count_list (map n_ID ns) i \<le> count_calls (\<lambda>c a. sends_for i c) (pl_calls s) + of_bool (sends_for i c))"
    using ns(2) by (intro exI [of _ "ns @ ns'"]) (simp add: add_mono)
  moreover have "count_calls (marks_new i) (pl_calls s) + of_bool (marks_new i c a) + of_bool (i \<in> wd_seen w0)
      \<le> count_calls (\<lambda>c a. unmarks i c) (pl_calls s) + of_bool (unmarks i c) + of_bool (i \<in> wd_seen w')" for i
  proof -
    have "of_bool (marks_new i c a) + of_bool (i \<in> wd_seen (pl_world s))
        \<le> (of_bool (unmarks i c) + of_bool (i \<in> wd_seen w') :: nat)"
      using assms(2) by (cases c) (auto simp: marks_new_def unmarks_def)
    moreover have "count_calls (marks_new i) (pl_calls s) + of_bool (i \<in> wd_seen w0)
        \<le> count_calls (\<lambda>c a. unmarks i c) (pl_calls s) + of_bool (i \<in> wd_seen (pl_world s))"
      using assms(1) unfolding posts_ok_def by blast
    ultimately show ?thesis by linarith
  qed
  ultimately show ?thesis unfolding posts_ok_def assms(3,4) count_calls_simps by blast
qed

lemma posts_ok_step:
  assumes "plant_step matches (solo X) Y opts cfg s s'" and "posts_ok X w0 s"
  shows "posts_ok X w0 s'"
  using assms(1)
proof (cases rule: plant_step.cases)
  case (serves req p r w')
  have "serves_up (solo X) (pl_world s) w'"
    using api_handle_up [of X "pl_world s" Y req empty_response] serves(2) by simp
  then show ?thesis using serves(1) by (intro posts_ok_same [OF assms(2)]) (simp_all add: serves_up_def)
next
  case (asks as g bs c k a w')
  show ?thesis by (rule posts_ok_call [OF assms(2) perform_effect [OF asks(4)]]) (simp_all add: asks(1))
qed (auto intro!: posts_ok_same [OF assms(2)])

lemma posts_ok_reached:
  assumes "(plant_step matches (solo X) Y opts cfg)\<^sup>*\<^sup>* (plant_start w0 Q) s"
  shows "posts_ok X w0 s"
  using assms
proof (induction rule: rtranclp_induct)
  case base
  show ?case by (auto simp: posts_ok_def plant_start_def intro: exI [of _ "[]"])
next
  case (step s1 s2)
  then show ?case using posts_ok_step by blast
qed

section \<open>Properties\<close>

definition retries_started :: "'c outside \<Rightarrow> uuid \<Rightarrow> 'c plant \<Rightarrow> nat" where
  "retries_started X i s = length (filter (retries_id (os_uuid X) i) (pl_started s))"

lemma sum_of_bool: "sum_list (map (\<lambda>d. of_bool (P d)) ds) = length (filter P ds)"
  by (induction ds) auto

text \<open>C3: Let handlers of any number of consumers and worker processes run at the same time, their calls
  interleaved in any way with each other and with the API, with handlers dying and messages
  delivered again, and with any calls failing. Then the webhook is asked to send a notification
  at most once more than there were retries of it started and dedup rows of it deleted, and not even
  that if it had been marked before. Each retry deletes at most one row; so if only first
  deliveries of it are started, it is posted at most once, however many of them there are.\<close>

theorem concurrent_posts_bounded:
  assumes "(plant_step matches (solo X) Y opts cfg)\<^sup>*\<^sup>* (plant_start w Q) s"
  shows "\<exists>ns. wd_posts (pl_world s) = wd_posts w @ map (world_body X) ns
    \<and> (\<forall>i. count_list (map n_ID ns) i + of_bool (i \<in> wd_seen w)
           \<le> 1 + retries_started X i s + count_calls (\<lambda>c a. unmarks i c) (pl_calls s)
         \<and> count_calls (\<lambda>c a. unmarks i c) (pl_calls s) \<le> retries_started X i s)"
proof -
  obtain ns where ns: "wd_posts (pl_world s) = wd_posts w @ map (world_body X) ns"
    "\<And>i. count_list (map n_ID ns) i \<le> count_calls (\<lambda>c a. sends_for i c) (pl_calls s)"
    "\<And>i. count_calls (marks_new i) (pl_calls s) + of_bool (i \<in> wd_seen w)
        \<le> count_calls (\<lambda>c a. unmarks i c) (pl_calls s) + of_bool (i \<in> wd_seen (pl_world s))"
    using posts_ok_reached [OF assms] unfolding posts_ok_def by blast
  have sends: "count_calls (\<lambda>c a. sends_for i c) (pl_calls s)
      \<le> retries_started X i s + count_calls (marks_new i) (pl_calls s)" for i
    unfolding retries_started_def sum_of_bool [symmetric]
    by (rule in_budget_reached [OF assms]) (simp add: delivery_sends)
  have "count_calls (\<lambda>c a. unmarks i c) (pl_calls s) \<le> retries_started X i s + count_calls (\<lambda>c a. False) (pl_calls s)" for i
    unfolding retries_started_def sum_of_bool [symmetric]
    by (rule in_budget_reached [OF assms]) (simp add: delivery_unmarks)
  moreover have "count_calls (\<lambda>c a. False) h = 0" for h by (auto simp: count_calls_def filter_empty_conv split: question.splits)
  ultimately have "count_calls (\<lambda>c a. unmarks i c) (pl_calls s) \<le> retries_started X i s" for i by simp
  moreover have "count_list (map n_ID ns) i + of_bool (i \<in> wd_seen w)
      \<le> 1 + retries_started X i s + count_calls (\<lambda>c a. unmarks i c) (pl_calls s)" for i
    using ns(2,3) [of i] sends [of i] by (cases "i \<in> wd_seen (pl_world s)") auto
  ultimately show ?thesis using ns(1) by blast
qed

text \<open>A message and a second copy of it, which two handlers have been started with.\<close>

abbreviation sample_first :: Delivery where
  "sample_first \<equiv> delivery_of (api_message (all_works Confirms) sample_new)"

abbreviation sample_opts :: WebhookOptions where
  "sample_opts \<equiv> \<lparr>wo_URL = ''u'', wo_Timeout = 0\<rparr>"

definition two_copies :: queues where
  "two_copies q = (if q = ''sms.normal'' then [sample_first, sample_first] else [])"

definition fresh_agent :: "'c outside \<Rightarrow> WebhookOptions \<Rightarrow> CBConfig \<Rightarrow> go_string \<Rightarrow> Delivery \<Rightarrow> agent" where
  "fresh_agent X opts cfg q d = \<lparr>ag_queue = q, ag_delivery = d, ag_prog = worker_prog X opts cfg d, ag_log = []\<rparr>"

lemma starts_next:
  assumes "q \<in> set work_queues" and "pl_queues s q = d # ds"
  shows "\<exists>s'. plant_step matches X Y opts cfg s s' \<and> pl_world s' = pl_world s \<and> pl_queues s' = (pl_queues s)(q := ds)
    \<and> pl_agents s' = pl_agents s @ [fresh_agent X opts cfg q d]"
  unfolding fresh_agent_def
  by (rule exI, rule conjI, rule plant_step.starts [where xs = "[]", OF assms(1)]) (simp_all add: assms(2))

lemma two_handlers:
  "\<exists>s. (plant_step (=) (solo (all_works Confirms)) idle_front sample_opts DefaultCBConfig)\<^sup>*\<^sup>*
      (plant_start waiting_world two_copies) s
    \<and> length (pl_agents s) = 2 \<and> wd_posts (pl_world s) = [world_body (all_works Confirms) sample_new]"
proof -
  let ?X = "all_works Confirms" and ?d = sample_first
  let ?step = "plant_step (=) (solo ?X) idle_front sample_opts DefaultCBConfig"
  let ?g = "fresh_agent (solo ?X) sample_opts DefaultCBConfig ''sms.normal'' ?d"
  let ?s0 = "plant_start waiting_world two_copies"
  have solo: "solo ?X = ?X" by (rule calm_solo) (rule all_works_calm)
  have q: "''sms.normal'' \<in> set work_queues" by (simp add: work_queues_eq topo_channels_def topo_priorities_def)
  have q0: "pl_queues ?s0 ''sms.normal'' = [?d, ?d]" by (simp add: plant_start_def two_copies_def)
  obtain s1 where s1: "?step ?s0 s1" "pl_world s1 = waiting_world" "pl_queues s1 ''sms.normal'' = [?d]" "pl_agents s1 = [?g]"
    using starts_next [OF q q0, of "(=)" "solo ?X" idle_front sample_opts DefaultCBConfig] by (auto simp: plant_start_def)
  obtain s2 where s2: "?step s1 s2" "pl_world s2 = waiting_world" "pl_agents s2 = [] @ ?g # [?g]"
    using starts_next [OF q s1(3), of "(=)" "solo ?X" idle_front sample_opts DefaultCBConfig] s1(2,4) by auto
  obtain w1 where w1: "worker_deliver (solo ?X) sample_opts DefaultCBConfig ?d (pl_world s2) = (None, w1)"
    "wd_posts w1 = [world_body ?X sample_new]" using waiting_delivered s2(2) solo by metis
  have "ag_prog ?g = worker_prog (solo ?X) sample_opts DefaultCBConfig ?d" by (simp add: fresh_agent_def)
  from delivers_alone [OF s2(3) this w1(1), of "(=)" idle_front]
  obtain s3 g' where "?step\<^sup>*\<^sup>* s2 s3" "pl_agents s3 = [] @ g' # [?g]" "pl_world s3 = w1" by blast
  then show ?thesis using s1(1) s2(1) w1(2)
    by (intro exI [of _ s3]) (auto intro: converse_rtranclp_into_rtranclp)
qed

theorem concurrent_posts_bounded_witness:
  "\<exists>s ns. (plant_step (=) (solo (all_works Confirms)) idle_front sample_opts DefaultCBConfig)\<^sup>*\<^sup>*
      (plant_start waiting_world two_copies) s
    \<and> length (pl_agents s) = 2 \<and> wd_posts (pl_world s) = [world_body (all_works Confirms) sample_new]
    \<and> wd_posts (pl_world s) = wd_posts waiting_world @ map (world_body (all_works Confirms)) ns
    \<and> (\<forall>i. count_list (map n_ID ns) i + of_bool (i \<in> wd_seen waiting_world)
           \<le> 1 + retries_started (all_works Confirms) i s + count_calls (\<lambda>c a. unmarks i c) (pl_calls s)
         \<and> count_calls (\<lambda>c a. unmarks i c) (pl_calls s) \<le> retries_started (all_works Confirms) i s)"
  using two_handlers concurrent_posts_bounded
    [of "(=)" "all_works Confirms" idle_front sample_opts DefaultCBConfig waiting_world two_copies] by metis

end
