(* ===== verification/Plant_Tracking.thy ===== *)
theory Plant_Tracking
  imports Plant_Posts
begin

text \<open>
  Where the messages of the plant are. Every message the broker has accepted is in a queue, in the
  hands of a handler, taken out of a dead letter queue by an administrator, or settled by a
  handler that had recorded it as delivered, found it to be a duplicate, or failed.
\<close>

section \<open>The queues of the topology\<close>

definition declared_queues :: "(go_string \<times> amqp_table) list" where
  "declared_queues =
     concat (map (\<lambda>d. case fst d of QueueDeclare q dur del excl nowait args \<Rightarrow> [(q, args)] | _ \<Rightarrow> [])
       (topology_decls ProductionTopology))"

lemma queue_args_declared: "queue_args ProductionTopology q = map snd (filter (\<lambda>x. fst x = q) declared_queues)"
proof -
  have "concat (map (\<lambda>d. case fst d of QueueDeclare q' dur del excl nowait args \<Rightarrow> if q' = q then [args] else [] | _ \<Rightarrow> []) ds)
    = map snd (filter (\<lambda>x. fst x = q)
        (concat (map (\<lambda>d. case fst d of QueueDeclare q dur del excl nowait args \<Rightarrow> [(q, args)] | _ \<Rightarrow> []) ds)))" for ds :: "(amqp_decl \<times> go_string) list"
    by (induction ds) (auto split: amqp_decl.split)
  then show ?thesis by (simp add: queue_args_def declared_queues_def)
qed

text \<open>The retry queues, and where their messages go when the TTL is over.\<close>

definition retry_table :: "(go_string \<times> go_string) list" where
  "retry_table = [(RetryQueueName ProductionTopology ch p level, ch @ ''.'' @ p).
     ch \<leftarrow> topo_channels, p \<leftarrow> topo_priorities, level \<leftarrow> [1, 2, 3]]"

lemma dead_letter_declared:
  "list_all (\<lambda>x. dead_letter_of (fst x) = map_option (\<lambda>k. (ExchangeNotifications, k)) (map_of retry_table (fst x))) declared_queues"
  by code_simp

lemma retry_declared: "list_all (\<lambda>x. fst x \<in> fst ` set declared_queues) retry_table"
  by code_simp

lemma dead_letter_eq: "dead_letter_of q = map_option (\<lambda>k. (ExchangeNotifications, k)) (map_of retry_table q)"
proof (cases "q \<in> fst ` set declared_queues")
  case True
  then show ?thesis using dead_letter_declared by (auto simp: list_all_iff)
next
  case False
  then have "filter (\<lambda>x. fst x = q) declared_queues = []" by (auto simp: filter_empty_conv)
  then have "dead_letter_of q = None" by (simp add: dead_letter_of_def queue_args_declared)
  moreover have "map_of retry_table q = None"
    using False retry_declared by (fastforce simp: list_all_iff map_of_eq_None_iff)
  ultimately show ?thesis by simp
qed

lemma retry_table_ok:
  "list_all (\<lambda>x. fst x \<notin> set work_queues \<and> snd x \<in> set work_queues) retry_table"
  by code_simp

lemma dead_letter_work:
  assumes "dead_letter_of q = Some (ex, key)"
  shows "ex = ExchangeNotifications" "key \<in> set work_queues" "q \<notin> set work_queues"
proof -
  have k: "map_of retry_table q = Some key" "ex = ExchangeNotifications" using assms by (auto simp: dead_letter_eq)
  then have "(q, key) \<in> set retry_table" by (simp add: map_of_SomeD)
  then show "ex = ExchangeNotifications" "key \<in> set work_queues" "q \<notin> set work_queues"
    using k(2) retry_table_ok by (auto simp: list_all_iff)
qed

lemma dlq_table_ok: "list_all (\<lambda>q. q \<notin> set work_queues \<and> map_of retry_table q = None) dlq_queues"
  by code_simp

section \<open>Arrivals\<close>

text \<open>A message that fits its queue: in a work queue its key is one of the work queues', there and in a
  retry queue its attempt is 0 to 3.\<close>

definition attempt_of :: "Delivery \<Rightarrow> int" where
  "attempt_of d = sint (headerInt32 (d_Headers d) ''x-attempt'')"

definition fits :: "go_string \<Rightarrow> Delivery \<Rightarrow> bool" where
  "fits q d \<longleftrightarrow> (q \<in> set work_queues \<longrightarrow> d_RoutingKey d \<in> set work_queues)
     \<and> (q \<in> set work_queues \<or> dead_letter_of q \<noteq> None \<longrightarrow> 0 \<le> attempt_of d \<and> attempt_of d \<le> 3)"

text \<open>A message goes to one queue and fits it.\<close>

definition lands :: "(go_string \<Rightarrow> go_string \<Rightarrow> bool) \<Rightarrow> publication \<Rightarrow> go_string \<Rightarrow> bool" where
  "lands matches pub q \<longleftrightarrow> routed_to matches ProductionTopology (fst pub) (fst (snd pub)) = [q] \<and> fits q (delivery_of pub)"

lemma enqueue_lands: "lands matches pub q \<Longrightarrow> enqueue matches pub Q = Q(q := Q q @ [delivery_of pub])"
  by (cases pub) (simp add: lands_def enqueue_def)

lemma work_lands:
  assumes "topic_literal matches" and "key \<in> set work_queues"
    and "0 \<le> sint (headerInt32 hs ''x-attempt'')" "sint (headerInt32 hs ''x-attempt'') \<le> 3"
  shows "lands matches (ExchangeNotifications, key, hs, body) key"
proof -
  obtain ch p where "ch \<in> set topo_channels" "p \<in> set topo_priorities" "key = ch @ ''.'' @ p"
    using assms(2) by (auto simp: work_queues_eq)
  then have "routed_to matches ProductionTopology ExchangeNotifications key = [key]"
    using main_routes unfolding production_routes [OF assms(1)] list_all_iff by auto
  then show ?thesis using assms by (simp add: lands_def fits_def attempt_of_def)
qed

lemma pub_lands:
  assumes "topic_literal matches" and "pub_ok pub"
  shows "\<exists>q. lands matches pub q"
proof -
  obtain ex key hs body where p: "pub = (ex, key, hs, body)" by (metis prod_cases4)
  consider (new) "new_pub pub" | (retry) "retry_pub pub" | (dlq) "dlq_pub pub" using assms(2) by (auto simp: pub_ok_def)
  then show ?thesis
  proof cases
    case new
    then show ?thesis unfolding p
      by (intro exI [of _ key]) (auto simp: new_pub_def intro!: work_lands [OF assms(1)])
  next
    case retry
    then obtain ch pr level where c: "ch \<in> set topo_channels" "pr \<in> set topo_priorities" "level \<in> set [1, 2, 3]"
      "key = retry_routing_key ch pr level" "sint (headerInt32 hs ''x-attempt'') = level" "ex = ExchangeRetry"
      unfolding p retry_pub_def prod.case list_ex_iff by auto
    then have r: "routed_to matches ProductionTopology ExchangeRetry key = [RetryQueueName ProductionTopology ch pr level]"
      using retry_routes unfolding production_routes [OF assms(1)] list_all_iff by auto
    have "(RetryQueueName ProductionTopology ch pr level, ch @ ''.'' @ pr) \<in> set retry_table"
      using c(1-3) unfolding retry_table_def by auto
    then have "RetryQueueName ProductionTopology ch pr level \<notin> set work_queues" using retry_table_ok by (auto simp: list_all_iff)
    then have "lands matches pub (RetryQueueName ProductionTopology ch pr level)"
      using r c by (auto simp: p lands_def fits_def attempt_of_def)
    then show ?thesis ..
  next
    case dlq
    then have c: "key \<in> set topo_channels" "ex = ExchangeDLQ" by (auto simp: p dlq_pub_def)
    then have "routed_to matches ProductionTopology ExchangeDLQ key = [DLQQueueName ProductionTopology key]"
      using dlq_routes unfolding production_routes [OF assms(1)] list_all_iff by auto
    moreover have "DLQQueueName ProductionTopology key \<in> set dlq_queues" using c by (simp add: dlq_queues_def)
    ultimately have "lands matches pub (DLQQueueName ProductionTopology key)"
      using dlq_table_ok c by (auto simp: p lands_def fits_def dead_letter_eq list_all_iff)
    then show ?thesis ..
  qed
qed

text \<open>The queues after some publications: what was there stays, and everything new fits its queue.\<close>

definition grown :: "publication list \<Rightarrow> queues \<Rightarrow> queues \<Rightarrow> bool" where
  "grown pubs Q Q' \<longleftrightarrow>
     (\<forall>q. set (Q q) \<subseteq> set (Q' q) \<and> (\<forall>d \<in> set (Q' q). d \<in> set (Q q) \<or> fits q d \<and> d \<in> delivery_of ` set pubs))
     \<and> (\<forall>pub \<in> set pubs. \<exists>q. delivery_of pub \<in> set (Q' q))"

lemma grownD:
  assumes "grown pubs Q Q'"
  shows "d \<in> set (Q q) \<Longrightarrow> d \<in> set (Q' q)"
    and "d \<in> set (Q' q) \<Longrightarrow> d \<in> set (Q q) \<or> fits q d \<and> d \<in> delivery_of ` set pubs"
    and "pub \<in> set pubs \<Longrightarrow> \<exists>q. delivery_of pub \<in> set (Q' q)"
  using assms unfolding grown_def by blast+

lemma fold_enqueue:
  assumes "topic_literal matches" and "list_all pub_ok pubs"
  shows "grown pubs Q (fold (enqueue matches) pubs Q)"
  using assms(2)
proof (induction pubs arbitrary: Q)
  case (Cons x pubs)
  have "pub_ok x" using Cons.prems by simp
  then obtain q0 where q0: "lands matches x q0" using pub_lands [OF assms(1)] by blast
  let ?Q = "Q(q0 := Q q0 @ [delivery_of x])" and ?Q' = "fold (enqueue matches) (x # pubs) Q"
  have "grown pubs ?Q (fold (enqueue matches) pubs ?Q)" by (rule Cons.IH) (use Cons.prems in simp)
  moreover have "?Q' = fold (enqueue matches) pubs ?Q" by (simp add: enqueue_lands [OF q0])
  ultimately have g: "grown pubs ?Q ?Q'" by simp
  have fx: "fits q0 (delivery_of x)" using q0 by (simp add: lands_def)
  have new: "delivery_of x \<in> set (?Q' q0)" by (rule grownD(1) [OF g]) simp
  have "d \<in> set (?Q' q)" if "d \<in> set (Q q)" for d q
    by (rule grownD(1) [OF g]) (use that in \<open>cases "q = q0"; simp\<close>)
  moreover have "d \<in> set (Q q) \<or> fits q d \<and> d \<in> delivery_of ` set (x # pubs)" if "d \<in> set (?Q' q)" for d q
    using grownD(2) [OF g that] fx by (cases "q = q0") auto
  moreover have "\<exists>q. delivery_of pub \<in> set (?Q' q)" if p: "pub \<in> set (x # pubs)" for pub
  proof -
    consider "pub = x" | "pub \<in> set pubs" using p by auto
    then show ?thesis using new grownD(3) [OF g] by cases blast+
  qed
  ultimately show ?case unfolding grown_def by blast
qed (simp add: grown_def)

section \<open>What a handler may still ask\<close>

primrec all_calls :: "(call \<Rightarrow> bool) \<Rightarrow> handler_prog \<Rightarrow> bool" where
  "all_calls P (Returns r) = True"
| "all_calls P (Asks q k) = ((case q of Port c \<Rightarrow> P c | Ctx_Err \<Rightarrow> True) \<and> (\<forall>a. all_calls P (k a)))"

lemma all_calls_then_do:
  "(\<And>r. all_calls P (f r)) \<Longrightarrow> all_calls P (then_do p f) = all_calls P p"
  by (induction p) auto

text \<open>The calls of a handler of \<open>msg\<close>, whose body is \<open>body\<close>: it sends and publishes nothing but that, with
  keys and levels the topology knows.\<close>

fun call_fits :: "NotificationMessage \<Rightarrow> go_string \<Rightarrow> call \<Rightarrow> bool" where
  "call_fits msg body (CSend n) \<longleftrightarrow> n = ToNotification msg"
| "call_fits msg body (CRetry ch p l a corr b) \<longleftrightarrow>
     b = body \<and> ch \<in> set topo_channels \<and> p \<in> set topo_priorities \<and> l = a \<and> 1 \<le> sint l \<and> sint l \<le> 3"
| "call_fits msg body (CDLQ ch a corr key b) \<longleftrightarrow> b = body \<and> ch \<in> set topo_channels \<and> key \<in> set work_queues"
| "call_fits msg body c \<longleftrightarrow> True"

definition handed_over :: "(question \<times> answer) list \<Rightarrow> bool" where
  "handed_over h \<longleftrightarrow> list_ex (\<lambda>(q, a). case q of Port c \<Rightarrow> is_publish c \<and> err_of a = None | Ctx_Err \<Rightarrow> False) h"

definition found_duplicate :: "uuid \<Rightarrow> (question \<times> answer) list \<Rightarrow> bool" where
  "found_duplicate i h \<longleftrightarrow> list_ex (\<lambda>(q, a). q = Port (CMark i) \<and> mark_of a = Inr False) h"

definition recorded_delivered :: "uuid \<Rightarrow> (question \<times> answer) list \<Rightarrow> bool" where
  "recorded_delivered i h \<longleftrightarrow> list_ex (\<lambda>(q, a). q = Port (CUpdateStatus i StatusDelivered) \<and> err_of a = None) h"

lemmas log_facts = handed_over_def found_duplicate_def recorded_delivered_def

text \<open>\<open>ensures Q p h\<close>: whatever \<open>p\<close> is answered, it returns a result \<open>r\<close> with a log such that \<open>Q r\<close>.\<close>

primrec ensures ::
  "(goerror option \<Rightarrow> (question \<times> answer) list \<Rightarrow> bool) \<Rightarrow> handler_prog \<Rightarrow> (question \<times> answer) list \<Rightarrow> bool" where
  "ensures Q (Returns r) h = Q r h"
| "ensures Q (Asks q k) h = (\<forall>a. ensures Q (k a) (h @ [(q, a)]))"

definition accounted_for :: "uuid \<Rightarrow> goerror option \<Rightarrow> (question \<times> answer) list \<Rightarrow> bool" where
  "accounted_for i r h \<longleftrightarrow>
     (case r of None \<Rightarrow> handed_over h \<or> found_duplicate i h \<or> recorded_delivered i h | Some e \<Rightarrow> True)"

lemma accounted_append: "accounted_for i r h \<Longrightarrow> accounted_for i r (h @ h')"
  by (auto simp: accounted_for_def log_facts split: option.splits)

lemma ensures_then_do:
  "(\<And>r h. Q r h \<Longrightarrow> ensures Q (f r) h) \<Longrightarrow> ensures Q p h \<Longrightarrow> ensures Q (then_do p f) h"
  by (induction p arbitrary: h) auto

text \<open>Both hold of the handler of a message whose key is that of a work queue, with attempt 0 to 3 and a
  channel that exists.\<close>

lemma all_calls_simps [simp]:
  "all_calls (call_fits msg body) (emitting W m p) = all_calls (call_fits msg body) p"
  "all_calls (call_fits msg body) (recording_attempt W i a s e r p) = all_calls (call_fits msg body) p"
  by (simp_all add: emitting_def recording_attempt_def)

lemma handle_calls_fit:
  fixes x :: go_int32
  assumes "Channel_Valid (m_Channel msg)" and "key \<in> set work_queues" and "0 \<le> sint x" "sint x \<le> 3"
  shows "all_calls (call_fits msg body) (handle_message_prog W body corr (scast x) key msg)"
proof -
  have s: "sint (scast x + 1 :: go_int) = sint x + 1" by (rule sint_succ_int32)
  have pr: "resolvePriority key p \<in> set topo_priorities" for p
    using resolvePriority_valid by (simp add: priority_mem)
  have k: "key \<noteq> []" using assms(2) by (auto simp: work_queue_iff)
  show ?thesis
    using assms(1-3) k pr s
    by (auto simp: handle_message_prog_def send_and_route_prog_def on_sent_prog_def error_progs maxAttempts_def channel_mem
        Let_def split: option.split sum.split)
qed

lemma ensures_passing:
  assumes "\<And>h. G h \<Longrightarrow> ensures Q p h" and "\<And>h l. G h \<Longrightarrow> G (h @ l)" and "G h"
  shows "ensures Q (emitting W m p) h" "ensures Q (recording_attempt W j a s e r p) h"
  using assms by (simp_all add: emitting_def recording_attempt_def)

lemmas passing_any = ensures_passing [where G = "\<lambda>h. True", simplified]
lemmas passing_done = ensures_passing [where G = "accounted_for i None" for i, OF _ accounted_append]

lemma accounted_simps [simp]:
  "accounted_for i (Some e) h"
  "is_publish c \<Longrightarrow> err_of a = None \<Longrightarrow> accounted_for i None (h @ (Port c, a) # l)"
  "err_of a = None \<Longrightarrow> accounted_for i None (h @ [(Port (CUpdateStatus i ''delivered''), a)])"
  "mark_of a = Inr False \<Longrightarrow> accounted_for i None (h @ [(Port (CMark i), a)])"
  by (simp_all add: accounted_for_def log_facts)

lemma on_sent_ensures: "ensures (accounted_for (m_ID msg)) (on_sent_prog W msg a) h"
  unfolding on_sent_prog_def
  by (intro passing_any) (auto intro!: passing_done split: option.split)

lemma route_ensures:
  "ensures (accounted_for i) (route_retry_prog W body corr a prio msg e) h"
  "ensures (accounted_for i) (route_dlq_prog W body corr a key prio msg e) h"
proof -
  have recorded: "accounted_for i None h' \<Longrightarrow> ensures (accounted_for i) (recording_attempt W j a s r p (emitting W m (Returns None))) h'"
    for h' j s r p m by (intro passing_done [where i = i]) simp_all
  show "ensures (accounted_for i) (route_retry_prog W body corr a prio msg e) h"
    by (auto simp: route_retry_prog_def Let_def intro!: recorded split: option.split)
  have fin: "accounted_for i None h' \<Longrightarrow> ensures (accounted_for i) (recording_attempt W j a s r p
      (emitting W m (emitting W m' (Returns None)))) h'" for h' j s r p m m'
    by (intro passing_done [where i = i]) simp_all
  show "ensures (accounted_for i) (route_dlq_prog W body corr a key prio msg e) h"
    by (auto simp: route_dlq_prog_def Let_def intro!: fin split: option.split)
qed

lemma send_ensures:
  assumes "has_retry W"
  shows "ensures (accounted_for (m_ID msg)) (send_and_route_prog W body corr a key msg) h"
proof -
  have "ensures (accounted_for (m_ID msg)) (on_send_error_prog W body corr a key msg e) h" for e h
    unfolding on_send_error_prog_def Let_def by (intro passing_any) (simp add: assms route_ensures)
  then show ?thesis by (auto simp: send_and_route_prog_def on_sent_ensures split: option.split)
qed

lemma handle_ensures:
  "has_retry W \<Longrightarrow> ensures (accounted_for (m_ID msg)) (handle_message_prog W body corr a key msg) h"
  by (auto simp: handle_message_prog_def send_ensures split: sum.split)

lemma delivery_calls_fit:
  assumes "Unmarshal U (d_Body d) = Some msg" and "Channel_Valid (m_Channel msg)" and "d_RoutingKey d \<in> set work_queues"
    and "0 \<le> attempt_of d" "attempt_of d \<le> 3"
  shows "all_calls (call_fits msg (d_Body d)) (delivery_prog U W d)"
  using handle_calls_fit [OF assms(2,3), of "headerInt32 (d_Headers d) ''x-attempt''"] assms
  by (simp add: delivery_prog_def handle_prog_def all_calls_then_do attempt_of_def)

lemma delivery_ensures:
  assumes "Unmarshal U (d_Body d) = Some msg" and "has_retry W"
  shows "ensures (accounted_for (m_ID msg)) (delivery_prog U W d) []"
proof -
  have "ensures (accounted_for (m_ID msg)) (then_do (handle_message_prog W (d_Body d) corr a key msg)
      (\<lambda>r. emitting W (MDec NotificationsInFlight []) (Returns r))) h" for corr a key h
    by (rule ensures_then_do [OF _ handle_ensures [OF assms(2)]]) (simp add: emitting_def accounted_append)
  then show ?thesis unfolding delivery_prog_def handle_prog_def assms(1) option.case by (rule passing_any)
qed

end
