(* ===== verification/Plant_Account.thy ===== *)
theory Plant_Account
  imports Plant_Tracking Http_Properties
begin

text \<open>
  The invariant of the plant that follows its messages, and what it comes to: nothing that was
  accepted disappears, except through the ways the handlers have.
\<close>

section \<open>What a call publishes\<close>

lemma backed_parses:
  assumes "backed X body w" and "uuid_lib_ok (os_uuid X)"
  obtains msg where "Unmarshal (os_uuid X) body = Some msg" "in_db msg w" "Channel_Valid (m_Channel msg)"
proof -
  obtain m where m: "body = Marshal (os_uuid X) m" "in_db m w" using assms(1) unfolding backed_def by blast
  then obtain n where n: "MessageFrom n = m" "sendable n" by (auto simp: in_db_def holds_msg_def list_ex_iff)
  then have "sanitize_message m = m"
    by (intro sanitize_message_valid) (auto simp: MessageFrom_def sendable_def well_formed_def)
  then have "Unmarshal (os_uuid X) body = Some m" using m(1) Unmarshal_Marshal [OF assms(2)] by simp
  moreover have "Channel_Valid (m_Channel m)" using n by (auto simp: MessageFrom_def sendable_def well_formed_def)
  ultimately show ?thesis using that m(2) by blast
qed

lemma PublishToExchange_accepted:
  assumes "PublishToExchange (world_publisher X) ex key hs body w = (None, w')"
  shows "mq_log (wd_mq w') = mq_log (wd_mq w) @ [(ex, key, hs, body)]"
  using assms
  by (cases "os_broker X (mq_calls (wd_mq w))")
    (auto simp: PublishToExchange_def world_publisher_def world_channel_def mq_channel_def on_mq_def mq_Publish_def
      mq_Wait_def Let_def)

lemma retry_is_pub:
  assumes "ch \<in> set topo_channels" and "p \<in> set topo_priorities" and "1 \<le> sint l" "sint l \<le> 3"
  shows "retry_pub (ExchangeRetry, publish_retry_key ch p l, retry_headers ch l corr, body)"
proof -
  have "scast (headerInt32 (retry_headers ch l corr) ''x-attempt'') = l"
    using assms(3,4) int32_roundtrip [of l] by (simp add: headerInt32_def retry_headers_def)
  then have "sint (scast (headerInt32 (retry_headers ch l corr) ''x-attempt'') :: go_int) = sint l" by simp
  then have "sint (headerInt32 (retry_headers ch l corr) ''x-attempt'') = sint l" by (simp add: sint_up_scast is_up)
  moreover have "publish_retry_key ch p l = retry_routing_key ch p (sint l)"
    by (simp add: publish_retry_key_def retry_routing_key_def)
  moreover have "sint l \<in> set [1, 2, 3]" using assms(3,4) by auto
  moreover have "headerString (retry_headers ch l corr) ''x-original-routing-key'' = []"
    by (simp add: headerString_def retry_headers_def)
  ultimately show ?thesis using assms(1,2) unfolding retry_pub_def prod.case list_ex_iff by blast
qed

lemma dlq_is_pub:
  assumes "ch \<in> set topo_channels" and "key \<in> set work_queues"
  shows "dlq_pub (ExchangeDLQ, ch, dlq_headers ch a corr key, body)"
  using assms by (simp add: dlq_pub_def dlq_headers_def headerString_def)

text \<open>The world after a call: what was published fits the topology, and a publication that was answered
  without an error is there.\<close>

definition calls_up :: "'c outside \<Rightarrow> go_string \<Rightarrow> bool \<Rightarrow> 'c world \<Rightarrow> 'c world \<Rightarrow> bool" where
  "calls_up X body published w w' \<longleftrightarrow> rises X w w'
     \<and> (\<exists>pubs. mq_log (wd_mq w') = mq_log (wd_mq w) @ pubs \<and> list_all pub_ok pubs
        \<and> (published \<longrightarrow> body \<in> (\<lambda>p. snd (snd (snd p))) ` set pubs))"

lemma calls_up_quiet:
  "rises X w w' \<Longrightarrow> mq_log (wd_mq w') = mq_log (wd_mq w) \<Longrightarrow> calls_up X body False w w'"
  by (auto simp: calls_up_def)

lemma calls_up_publish:
  assumes "PublishToExchange (world_publisher X) ex key hs body w = (r, w')" and "backed X body w"
    and "pub_ok (ex, key, hs, body)"
  shows "calls_up X body (r = None) w w'"
proof -
  have "rises X w w'" using publish_rises [OF assms(2), of ex key hs] assms(1) by simp
  moreover have "\<exists>pubs. mq_log (wd_mq w') = mq_log (wd_mq w) @ pubs \<and> set pubs \<subseteq> {(ex, key, hs, body)}"
    using PublishToExchange_log [of X ex key hs body w] assms(1) by simp
  moreover have "r = None \<Longrightarrow> mq_log (wd_mq w') = mq_log (wd_mq w) @ [(ex, key, hs, body)]"
    using PublishToExchange_accepted assms(1) by blast
  ultimately show ?thesis using assms(3) unfolding calls_up_def by (cases "r = None") (auto simp: list_all_iff)
qed

lemma Adapter_results:
  assumes "Adapter_PublishRetry p ch pr l a corr body w = (r, w')"
  obtains r' where "PublishToExchange p ExchangeRetry (publish_retry_key ch pr l) (retry_headers ch a corr) body w = (r', w')"
    "r = None \<longleftrightarrow> r' = None"
  using assms by (auto simp: Adapter_PublishRetry_def publish_retry_key_def Let_def split: prod.splits option.splits)

lemma Adapter_dlq_results:
  assumes "Adapter_PublishDLQ p ch a corr key body w = (r, w')"
  obtains r' where "PublishToExchange p ExchangeDLQ ch (dlq_headers ch a corr key) body w = (r', w')" "r = None \<longleftrightarrow> r' = None"
  using assms by (auto simp: Adapter_PublishDLQ_def Let_def split: prod.splits option.splits)

lemma perform_up:
  assumes c: "perform_call (solo_use_case X opts cfg) c w = (a, w')" and fit: "call_fits msg body c"
    and b: "backed (solo X) body w" and m: "Unmarshal (os_uuid X) body = Some msg" and U: "uuid_lib_ok (os_uuid X)"
  shows "calls_up (solo X) body (is_publish c \<and> err_of a = None) w w'"
proof -
  have D: "deliver_order (rises (solo X)) (os_uuid (solo X)) (solo_use_case X opts cfg) (backed (solo X))"
    by (rule deliver_in_order) (simp_all add: rows_stay_def U)
  show ?thesis
  proof (cases c)
    case (CSend n)
    have "rises (solo X) w w'" using deliver_order.send [OF D b, of msg] m c fit by (simp add: CSend errs_def)
    moreover have "wd_mq w' = wd_mq w"
      using c fit provider_frame [of "solo X" opts cfg n w] by (auto simp: CSend errs_def)
    ultimately show ?thesis using CSend by (simp add: calls_up_quiet)
  next
    case (CUpdateStatus i s)
    then have "rises (solo X) w w'" using deliver_order.update [OF D, of w i s] c by (auto simp: errs_def)
    then show ?thesis using CUpdateStatus c by (auto simp: errs_def intro: calls_up_quiet)
  next
    case (CMark i)
    then show ?thesis using c deliver_order.mark [OF D, of _ w i] by (auto simp: intro!: calls_up_quiet)
  next
    case (CDelete i)
    then show ?thesis using c deliver_order.unmark [OF D, of _ w i] by (auto simp: errs_def intro!: calls_up_quiet)
  next
    case (CRecord i a s e p)
    then show ?thesis using c deliver_order.record_row [OF D, of _ w i a s e p]
      by (auto simp: worker_use_case_eq errs_def intro!: calls_up_quiet)
  next
    case (CRetry ch p l at corr b')
    obtain r where r: "Adapter_PublishRetry (world_publisher (solo X)) ch p l at corr b' w = (r, w')" "a = Errs r"
      using c by (auto simp: CRetry worker_use_case_eq errs_def prod_eq_iff)
    obtain r' where r': "PublishToExchange (world_publisher (solo X)) ExchangeRetry (publish_retry_key ch p l)
        (retry_headers ch at corr) b' w = (r', w')" "r = None \<longleftrightarrow> r' = None"
      using r(1) by (rule Adapter_results)
    have f: "b' = body" "at = l" "retry_pub (ExchangeRetry, publish_retry_key ch p l, retry_headers ch at corr, body)"
      using fit retry_is_pub by (auto simp: CRetry)
    show ?thesis using calls_up_publish [OF r'(1)] b f r(2) r'(2) by (simp add: CRetry pub_ok_def)
  next
    case (CDLQ ch at corr k b')
    obtain r where r: "Adapter_PublishDLQ (world_publisher (solo X)) ch at corr k b' w = (r, w')" "a = Errs r"
      using c by (auto simp: CDLQ worker_use_case_eq errs_def prod_eq_iff)
    obtain r' where r': "PublishToExchange (world_publisher (solo X)) ExchangeDLQ ch (dlq_headers ch at corr k) b' w = (r', w')"
      "r = None \<longleftrightarrow> r' = None"
      using r(1) by (rule Adapter_dlq_results)
    have f: "b' = body" "dlq_pub (ExchangeDLQ, ch, dlq_headers ch at corr k, body)"
      using fit dlq_is_pub by (auto simp: CDLQ)
    show ?thesis using calls_up_publish [OF r'(1)] b f r(2) r'(2) by (simp add: CDLQ pub_ok_def)
  next
    case (CMetric x)
    then show ?thesis using c by (auto simp: emit_def worker_use_case_eq intro!: calls_up_quiet rises_same)
  qed
qed

section \<open>The invariant\<close>

definition queues_ok :: "'c world \<Rightarrow> queues \<Rightarrow> bool" where
  "queues_ok w Q \<longleftrightarrow> (\<forall>q. \<forall>d \<in> set (Q q). d_Body d \<in> bodies w \<and> fits q d)"

text \<open>What is left of a handler's program and what it has asked fit the message it was started with.\<close>

definition handler_ok :: "uuid_lib \<Rightarrow> agent \<Rightarrow> bool" where
  "handler_ok U g \<longleftrightarrow>
     (\<exists>msg. Unmarshal U (d_Body (ag_delivery g)) = Some msg \<and> all_calls (call_fits msg (d_Body (ag_delivery g))) (ag_prog g)
        \<and> ensures (accounted_for (m_ID msg)) (ag_prog g) (ag_log g))"

definition agent_ok :: "'c outside \<Rightarrow> 'c world \<Rightarrow> agent \<Rightarrow> bool" where
  "agent_ok X w g \<longleftrightarrow> d_Body (ag_delivery g) \<in> bodies w \<and> fits (ag_queue g) (ag_delivery g) \<and> handler_ok (os_uuid X) g"

definition carries :: "go_string \<Rightarrow> agent \<Rightarrow> bool" where
  "carries body g \<longleftrightarrow> d_Body (ag_delivery g) = body \<and> \<not> handed_over (ag_log g)"

text \<open>Where a message is that no handler has handed over.\<close>

definition held_somewhere :: "go_string \<Rightarrow> 'c plant \<Rightarrow> bool" where
  "held_somewhere body s \<longleftrightarrow>
     (\<exists>q. body \<in> d_Body ` set (pl_queues s q)) \<or> (\<exists>g \<in> set (pl_agents s). carries body g)
     \<or> body \<in> d_Body ` set (pl_taken s) \<or> (\<exists>g \<in> set (pl_settled s). carries body g)"

definition plant_ok :: "'c outside \<Rightarrow> 'c plant \<Rightarrow> bool" where
  "plant_ok X s \<longleftrightarrow> integrity (solo X) (pl_world s) \<and> log_ok (pl_world s)
     \<and> queues_ok (pl_world s) (pl_queues s) \<and> list_all (agent_ok X (pl_world s)) (pl_agents s)
     \<and> list_all (\<lambda>g. handler_ok (os_uuid X) g \<and> (\<exists>r. ag_prog g = Returns r)) (pl_settled s)
     \<and> (\<forall>body \<in> bodies (pl_world s). held_somewhere body s)"

text \<open>The broker routes what has been published: the queues grow, nothing else changes.\<close>

lemma bodies_grow:
  assumes "mq_log (wd_mq w') = mq_log (wd_mq w) @ pubs"
  shows "bodies w' = bodies w \<union> (\<lambda>p. snd (snd (snd p))) ` set pubs"
  using assms by (auto simp: bodies_def)

lemma delivery_body: "d_Body (delivery_of p) = snd (snd (snd p))"
  by (cases p) simp

lemma queues_ok_moves:
  assumes "topic_literal matches" and "queues_ok (pl_world s) (pl_queues s)"
    and "mq_log (wd_mq w') = mq_log (wd_mq (pl_world s)) @ pubs" and "list_all pub_ok pubs"
  shows "queues_ok w' (pl_queues (moves matches w' s))"
    and "d \<in> set (pl_queues s q) \<Longrightarrow> d \<in> set (pl_queues (moves matches w' s) q)"
    and "body \<in> bodies w' \<Longrightarrow> body \<in> bodies (pl_world s) \<or> (\<exists>q. body \<in> d_Body ` set (pl_queues (moves matches w' s) q))"
    and "body \<in> (\<lambda>p. snd (snd (snd p))) ` set pubs \<Longrightarrow> \<exists>q. body \<in> d_Body ` set (pl_queues (moves matches w' s) q)"
proof -
  let ?Q = "pl_queues s" and ?Q' = "pl_queues (moves matches w' s)"
  have g: "grown pubs ?Q ?Q'"
    using fold_enqueue [OF assms(1,4), of ?Q] by (simp add: moves_def published_since_def assms(3))
  have b: "bodies w' = bodies (pl_world s) \<union> (\<lambda>p. snd (snd (snd p))) ` set pubs" by (rule bodies_grow [OF assms(3)])
  show "queues_ok w' ?Q'"
    unfolding queues_ok_def
  proof (intro allI ballI)
    fix q d
    assume "d \<in> set (?Q' q)"
    then consider "d \<in> set (?Q q)" | p where "p \<in> set pubs" "d = delivery_of p" "fits q d"
      using grownD(2) [OF g, of d q] by blast
    then show "d_Body d \<in> bodies w' \<and> fits q d"
    proof cases
      case 1
      then show ?thesis using assms(2) by (simp add: queues_ok_def b)
    next
      case (2 p)
      then have "d_Body d \<in> (\<lambda>p. snd (snd (snd p))) ` set pubs" by (metis delivery_body imageI)
      then show ?thesis using 2(3) by (simp add: b)
    qed
  qed
  show "d \<in> set (?Q q) \<Longrightarrow> d \<in> set (?Q' q)" by (rule grownD(1) [OF g])
  show new: "\<exists>q. body \<in> d_Body ` set (?Q' q)" if new: "body \<in> (\<lambda>p. snd (snd (snd p))) ` set pubs" for body
  proof -
    obtain p where p: "p \<in> set pubs" "body = d_Body (delivery_of p)" using new by (auto simp: delivery_body)
    then show ?thesis using grownD(3) [OF g p(1)] by blast
  qed
  show "body \<in> bodies (pl_world s) \<or> (\<exists>q. body \<in> d_Body ` set (?Q' q))" if "body \<in> bodies w'"
    using that new unfolding b by blast
qed

lemma agent_ok_grows: "bodies w \<subseteq> bodies w' \<Longrightarrow> agent_ok X w g \<Longrightarrow> agent_ok X w' g"
  by (auto simp: agent_ok_def)

section \<open>The steps keep it\<close>

lemma fits_work: "fits q d \<Longrightarrow> q \<in> set work_queues \<Longrightarrow> d_RoutingKey d \<in> set work_queues \<and> 0 \<le> attempt_of d \<and> attempt_of d \<le> 3"
  by (simp add: fits_def)

lemma worker_wired: "has_retry (wiring_of (solo_use_case X opts cfg))"
  by (simp add: worker_use_case_eq)

lemma fresh_ok:
  assumes "integrity (solo X) w" and "d_Body d \<in> bodies w" and "fits q d" and "q \<in> set work_queues"
    and "uuid_lib_ok (os_uuid X)"
  shows "agent_ok X w \<lparr>ag_queue = q, ag_delivery = d, ag_prog = worker_prog (solo X) opts cfg d, ag_log = []\<rparr>"
proof -
  have "backed (solo X) (d_Body d) w" using assms(1,2) by (simp add: integrity_def)
  then obtain msg where m: "Unmarshal (os_uuid X) (d_Body d) = Some msg" "Channel_Valid (m_Channel msg)"
    using backed_parses [of "solo X"] assms(5) by (metis solo_simps(2))
  then show ?thesis
    using assms(2,3) fits_work [OF assms(3,4)] delivery_calls_fit [OF m] delivery_ensures [OF m(1) worker_wired]
    by (simp add: agent_ok_def handler_ok_def)
qed

lemma handler_next:
  assumes "handler_ok U g" and "ag_prog g = Asks q k"
  shows "handler_ok U (g\<lparr>ag_prog := k a, ag_log := ag_log g @ [(q, a)]\<rparr>)"
  using assms by (auto simp: handler_ok_def)

text \<open>A step that moves the world and routes, and perhaps lets one handler go on.\<close>

lemma plant_ok_moves:
  assumes "plant_ok X s" and matches: "topic_literal matches"
    and "mq_log (wd_mq w') = mq_log (wd_mq (pl_world s)) @ pubs" and "list_all pub_ok pubs"
    and "rises (solo X) (pl_world s) w'"
    and "list_all (agent_ok X (pl_world s)) gs"
    and held: "\<And>body g. g \<in> set (pl_agents s) \<Longrightarrow> carries body g
      \<Longrightarrow> (\<exists>g \<in> set gs. carries body g) \<or> body \<in> (\<lambda>p. snd (snd (snd p))) ` set pubs"
  shows "plant_ok X (moves matches w' (s\<lparr>pl_agents := gs, pl_calls := calls\<rparr>))"
proof -
  let ?s = "s\<lparr>pl_agents := gs, pl_calls := calls\<rparr>"
  let ?s' = "moves matches w' ?s"
  have ok: "integrity (solo X) (pl_world s)" "log_ok (pl_world s)" "queues_ok (pl_world ?s) (pl_queues ?s)"
    and somewhere: "\<And>body. body \<in> bodies (pl_world s) \<Longrightarrow> held_somewhere body s"
    using assms(1) by (simp_all add: plant_ok_def)
  have log: "mq_log (wd_mq w') = mq_log (wd_mq (pl_world ?s)) @ pubs" using assms(3) by simp
  note q = queues_ok_moves [OF matches ok(3) log assms(4)]
  have sub: "bodies (pl_world s) \<subseteq> bodies w'" unfolding bodies_grow [OF assms(3)] by blast
  have "held_somewhere body ?s'" if b: "body \<in> bodies w'" for body
  proof (cases "\<exists>q. body \<in> d_Body ` set (pl_queues ?s' q)")
    case True
    then show ?thesis by (simp add: held_somewhere_def)
  next
    case False
    then have "held_somewhere body s" using q(3) [OF b] somewhere by simp
    moreover have "\<not> (\<exists>q. body \<in> d_Body ` set (pl_queues s q))" using False q(2) by fastforce
    ultimately consider g where "g \<in> set (pl_agents s)" "carries body g" | "body \<in> d_Body ` set (pl_taken s)"
      | "\<exists>g \<in> set (pl_settled s). carries body g"
      unfolding held_somewhere_def by blast
    then show ?thesis
    proof cases
      case (1 g)
      then have "(\<exists>g \<in> set gs. carries body g) \<or> body \<in> (\<lambda>p. snd (snd (snd p))) ` set pubs" by (rule held)
      then show ?thesis using q(4) False by (auto simp: held_somewhere_def)
    qed (auto simp: held_somewhere_def)
  qed
  moreover have "list_all (agent_ok X w') gs"
    using assms(6) agent_ok_grows [OF sub] by (auto simp: list_all_iff)
  moreover have "log_ok w'" using ok(2) assms(3,4) by (simp add: log_ok_def)
  moreover have "integrity (solo X) w'" using ok(1) assms(5) by (simp add: rises_def)
  ultimately show ?thesis using assms(1) q(1) by (simp add: plant_ok_def)
qed

lemma plant_ok_asks:
  assumes "plant_ok X s" and matches: "topic_literal matches" and U: "uuid_lib_ok (os_uuid X)"
    and g: "pl_agents s = as @ g # bs" "ag_prog g = Asks (Port c) k"
    and c: "perform_call (solo_use_case X opts cfg) c (pl_world s) = (a, w')"
  shows "plant_ok X (moves matches w' (s\<lparr>pl_agents := as @ g\<lparr>ag_prog := k a, ag_log := ag_log g @ [(Port c, a)]\<rparr> # bs,
      pl_calls := calls\<rparr>))"
proof -
  let ?g = "g\<lparr>ag_prog := k a, ag_log := ag_log g @ [(Port c, a)]\<rparr>" and ?body = "d_Body (ag_delivery g)"
  have "agent_ok X (pl_world s) g" "integrity (solo X) (pl_world s)" and others: "list_all (agent_ok X (pl_world s)) (as @ bs)"
    using assms(1) g(1) by (simp_all add: plant_ok_def)
  then have ok: "handler_ok (os_uuid X) g" and b: "backed (solo X) ?body (pl_world s)" and in_q: "fits (ag_queue g) (ag_delivery g)"
    and body: "?body \<in> bodies (pl_world s)"
    by (simp_all add: agent_ok_def integrity_def)
  obtain msg where m: "Unmarshal (os_uuid X) ?body = Some msg" "call_fits msg ?body c"
    using ok g(2) by (auto simp: handler_ok_def)
  have "calls_up (solo X) ?body (is_publish c \<and> err_of a = None) (pl_world s) w'"
    by (rule perform_up [OF c m(2) b m(1) U])
  then obtain pubs where up: "rises (solo X) (pl_world s) w'" "mq_log (wd_mq w') = mq_log (wd_mq (pl_world s)) @ pubs"
    "list_all pub_ok pubs" "is_publish c \<and> err_of a = None \<longrightarrow> ?body \<in> (\<lambda>p. snd (snd (snd p))) ` set pubs"
    unfolding calls_up_def by blast
  show ?thesis
  proof (rule plant_ok_moves [OF assms(1) matches up(2,3,1)])
    have "agent_ok X (pl_world s) ?g" using handler_next [OF ok g(2), of a] in_q body by (simp add: agent_ok_def)
    then show "list_all (agent_ok X (pl_world s)) (as @ ?g # bs)" using others by simp
    fix body h
    assume h: "h \<in> set (pl_agents s)" "carries body h"
    show "(\<exists>g \<in> set (as @ ?g # bs). carries body g) \<or> body \<in> (\<lambda>p. snd (snd (snd p))) ` set pubs"
    proof (cases "h = g \<and> is_publish c \<and> err_of a = None")
      case True
      then show ?thesis using up(4) h(2) by (simp add: carries_def)
    next
      case False
      then have "h \<in> set (as @ bs) \<or> carries body ?g"
        using h g(1) by (auto simp: carries_def handed_over_def)
      then show ?thesis using h(2) by auto
    qed
  qed
qed

text \<open>A step that leaves the world alone: a message may change its place.\<close>

lemma held_at:
  "d \<in> set (pl_queues s q) \<Longrightarrow> held_somewhere (d_Body d) s"
  "g \<in> set (pl_agents s) \<Longrightarrow> carries body g \<Longrightarrow> held_somewhere body s"
  "d \<in> set (pl_taken s) \<Longrightarrow> held_somewhere (d_Body d) s"
  "g \<in> set (pl_settled s) \<Longrightarrow> carries body g \<Longrightarrow> held_somewhere body s"
  unfolding held_somewhere_def by blast+

lemma plant_ok_local:
  assumes ok: "plant_ok X s" and "pl_world s' = pl_world s"
    and queues: "\<And>q d. d \<in> set (pl_queues s' q) \<Longrightarrow> d \<in> set (pl_queues s q) \<or> d_Body d \<in> bodies (pl_world s) \<and> fits q d"
    and "list_all (agent_ok X (pl_world s)) (pl_agents s')"
    and "list_all (\<lambda>g. handler_ok (os_uuid X) g \<and> (\<exists>r. ag_prog g = Returns r)) (pl_settled s')"
    and from_queue: "\<And>q d. d \<in> set (pl_queues s q) \<Longrightarrow> held_somewhere (d_Body d) s'"
    and from_agent: "\<And>body g. g \<in> set (pl_agents s) \<Longrightarrow> carries body g \<Longrightarrow> held_somewhere body s'"
    and "set (pl_taken s) \<subseteq> set (pl_taken s')" and "set (pl_settled s) \<subseteq> set (pl_settled s')"
  shows "plant_ok X s'"
proof -
  have "queues_ok (pl_world s) (pl_queues s')"
    using ok queues unfolding plant_ok_def queues_ok_def by blast
  moreover have "held_somewhere body s'" if "held_somewhere body s" for body
    using that from_queue from_agent held_at(3,4) [of _ s'] assms(8,9) unfolding held_somewhere_def [of _ s] by blast
  ultimately show ?thesis using assms(1,2,4,5) by (simp add: plant_ok_def)
qed

lemma queue_mem: "plant_ok X s \<Longrightarrow> d \<in> set (pl_queues s q) \<Longrightarrow> d_Body d \<in> bodies (pl_world s) \<and> fits q d"
  by (simp add: plant_ok_def queues_ok_def)

lemma plant_ok_expires:
  assumes ok: "plant_ok X s" and matches: "topic_literal matches"
    and q: "pl_queues s q = d # ds" "dead_letter_of q = Some (ex, key)"
  shows "plant_ok X (s\<lparr>pl_queues := enqueue matches (ex, key, d_Headers d, d_Body d) ((pl_queues s)(q := ds))\<rparr>)"
proof -
  let ?new = "delivery_of (ex, key, d_Headers d, d_Body d)" and ?Q = "(pl_queues s)(q := ds)"
  have d: "d_Body d \<in> bodies (pl_world s)" "fits q d" using queue_mem [OF ok, of d q] q(1) by simp_all
  have w: "ex = ExchangeNotifications" "key \<in> set work_queues" using dead_letter_work [OF q(2)] by simp_all
  have "0 \<le> attempt_of d \<and> attempt_of d \<le> 3" using d(2) q(2) by (simp add: fits_def)
  then have l: "lands matches (ex, key, d_Headers d, d_Body d) key"
    using work_lands [OF matches w(2), of "d_Headers d" "d_Body d"] w(1) by (simp add: attempt_of_def)
  then have fit: "fits key ?new" by (simp add: lands_def)
  let ?s' = "s\<lparr>pl_queues := ?Q(key := ?Q key @ [?new])\<rparr>"
  have Q: "x \<in> set (pl_queues ?s' q') \<longleftrightarrow> x \<in> set (?Q q') \<or> q' = key \<and> x = ?new" for x q' by auto
  have old: "x \<in> set (pl_queues s q') \<Longrightarrow> x \<in> set (?Q q') \<or> x = d" for x q' using q(1) by auto
  have new: "held_somewhere (d_Body d) ?s'" using held_at(1) [of ?new ?s' key] Q by simp
  show ?thesis unfolding enqueue_lands [OF l]
  proof (rule plant_ok_local [OF ok])
    fix q' x
    assume "x \<in> set (pl_queues ?s' q')"
    then show "x \<in> set (pl_queues s q') \<or> d_Body x \<in> bodies (pl_world s) \<and> fits q' x"
      unfolding Q using q(1) fit d(1) by (auto split: if_splits)
  next
    fix q' x
    assume "x \<in> set (pl_queues s q')"
    then show "held_somewhere (d_Body x) ?s'" using old [of x q'] new held_at(1) [of x ?s' q'] Q by blast
  qed (use ok in \<open>auto simp: plant_ok_def intro: held_at(2)\<close>)
qed

lemma plant_ok_step:
  assumes "plant_step matches (solo X) Y opts cfg s s'" and ok: "plant_ok X s"
    and matches: "topic_literal matches" and U: "uuid_lib_ok (os_uuid X)"
  shows "plant_ok X s'"
  using assms(1)
proof (cases rule: plant_step.cases)
  case (serves req p r w')
  have up: "serves_up (solo X) (pl_world s) w'"
    using api_handle_up [of X "pl_world s" Y req empty_response] serves(2) by simp
  then obtain pubs where pubs: "mq_log (wd_mq w') = mq_log (wd_mq (pl_world s)) @ pubs"
    by (auto simp: serves_up_def prefix_def)
  have "list_all pub_ok pubs" using up ok pubs by (auto simp: serves_up_def plant_ok_def log_ok_def)
  then have "plant_ok X (moves matches w' (s\<lparr>pl_agents := pl_agents s, pl_calls := pl_calls s\<rparr>))"
    using ok up pubs by (intro plant_ok_moves [OF ok matches pubs]) (auto simp: plant_ok_def serves_up_def)
  then show ?thesis using serves(1) by simp
next
  case (elapses c)
  let ?w = "(pl_world s)\<lparr>wd_breakers := c\<rparr>"
  have "plant_ok X (moves matches ?w (s\<lparr>pl_agents := pl_agents s, pl_calls := pl_calls s\<rparr>))"
    using ok by (intro plant_ok_moves [OF ok matches, of _ "[]"]) (auto simp: plant_ok_def intro: rises_same)
  then show ?thesis by (simp add: elapses moves_def published_since_def)
next
  case (expires q d ds ex key)
  show ?thesis unfolding expires(1) by (rule plant_ok_expires [OF ok matches expires(2,3)])
next
  case (starts q xs d ys)
  have d: "d_Body d \<in> bodies (pl_world s)" "fits q d" using queue_mem [OF ok, of d q] starts(3) by simp_all
  let ?g = "\<lparr>ag_queue = q, ag_delivery = d, ag_prog = worker_prog (solo X) opts cfg d, ag_log = []\<rparr>"
  have "agent_ok X (pl_world s) ?g" using ok by (intro fresh_ok d starts(2) U) (simp add: plant_ok_def)
  moreover have "carries (d_Body d) ?g" by (simp add: carries_def handed_over_def)
  moreover have "held_somewhere (d_Body x) s'" if x: "x \<in> set (pl_queues s q')" for x q'
  proof (cases "x = d")
    case True
    then show ?thesis using held_at(2) [of ?g s'] \<open>carries (d_Body d) ?g\<close> by (simp add: starts(1))
  next
    case False
    then have "x \<in> set (pl_queues s' q')" using x starts(3) by (auto simp: starts(1))
    then show ?thesis by (rule held_at(1))
  qed
  ultimately show ?thesis using ok starts(3)
    by (intro plant_ok_local [OF ok]) (auto simp: starts(1) plant_ok_def intro: held_at(2) split: if_splits)
next
  case (asks as g bs c k a w')
  show ?thesis unfolding asks(1) by (rule plant_ok_asks [OF ok matches U asks(2-4)])
next
  case (asks_context as g bs k e)
  have "agent_ok X (pl_world s) g" using ok asks_context(2) by (simp add: plant_ok_def)
  then have "agent_ok X (pl_world s) (g\<lparr>ag_prog := k (Errs e), ag_log := ag_log g @ [(Ctx_Err, Errs e)]\<rparr>)"
    using handler_next [OF _ asks_context(3)] by (simp add: agent_ok_def)
  moreover have "carries body (g\<lparr>ag_prog := k (Errs e), ag_log := ag_log g @ [(Ctx_Err, Errs e)]\<rparr>) = carries body g" for body
    by (simp add: carries_def handed_over_def)
  ultimately show ?thesis using ok asks_context(2) held_at(2) [of _ s']
    by (intro plant_ok_local [OF ok]) (auto simp: asks_context(1) plant_ok_def intro: held_at(1))
next
  case (returns as g bs r)
  then show ?thesis using ok held_at(2,4) [of _ s']
    by (intro plant_ok_local [OF ok]) (auto simp: plant_ok_def agent_ok_def intro: held_at(1))
next
  case (dies as g bs)
  have "agent_ok X (pl_world s) g" using ok dies(2) by (simp add: plant_ok_def)
  moreover have "held_somewhere (d_Body (ag_delivery g)) s'"
    by (rule held_at(1) [of _ _ "ag_queue g"]) (simp add: dies(1))
  moreover have "held_somewhere (d_Body x) s'" if "x \<in> set (pl_queues s q)" for x q
    by (rule held_at(1) [of _ _ q]) (use that in \<open>auto simp: dies(1)\<close>)
  ultimately show ?thesis using ok dies(2) held_at(2) [of _ s']
    by (intro plant_ok_local [OF ok]) (auto simp: dies(1) plant_ok_def agent_ok_def carries_def split: if_splits)
next
  case (taken q xs d ys)
  have "held_somewhere (d_Body x) s'" if x: "x \<in> set (pl_queues s q')" for x q'
  proof (cases "x = d")
    case True
    then show ?thesis by (intro held_at(3)) (simp add: taken(1))
  next
    case False
    then have "x \<in> set (pl_queues s' q')" using x taken(3) by (auto simp: taken(1))
    then show ?thesis by (rule held_at(1))
  qed
  then show ?thesis using ok taken(3)
    by (intro plant_ok_local [OF ok]) (auto simp: taken(1) plant_ok_def intro: held_at(2) split: if_splits)
qed

lemma plant_ok_start:
  "mq_log (wd_mq w) = [] \<Longrightarrow> wd_posts w = [] \<Longrightarrow> plant_ok X (plant_start w (\<lambda>q. []))"
  by (simp add: plant_ok_def plant_start_def integrity_start log_ok_def queues_ok_def bodies_def)

lemma plant_ok_reached:
  assumes "(plant_step matches (solo X) Y opts cfg)\<^sup>*\<^sup>* s0 s" and "plant_ok X s0"
    and "topic_literal matches" and "uuid_lib_ok (os_uuid X)"
  shows "plant_ok X s"
  using assms(1)
proof (induction rule: rtranclp_induct)
  case base
  show ?case by (rule assms(2))
next
  case (step s1 s2)
  show ?case by (rule plant_ok_step [OF step(2,3) assms(3,4)])
qed

section \<open>A request that is accepted\<close>

definition create_front :: "unit front" where
  "create_front = idle_front\<lparr>fr_http := (fr_http idle_front)\<lparr>hl_match := (\<lambda>rs req. Some CreateOne)\<rparr>\<rparr>"

definition asked_for :: createNotificationRequest where
  "asked_for = createNotificationRequest_zero\<lparr>cr_To := ''+905551112233'', cr_Channel := ''sms'', cr_Content := ''hello''\<rparr>"

lemma sample_request_decodes:
  "DecodeLimited (2 ^ 20) create_fields createNotificationRequest_zero (rq_Body sample_request) = Some asked_for"
proof -
  let ?body = "encode_object [(''to'', ''+905551112233''), (''channel'', ''sms''), (''content'', ''hello'')]"
  let ?v = "JObj [(''to'', JStr ''+905551112233''), (''channel'', JStr ''sms''), (''content'', JStr ''hello'')]"
  have "parse_prefix ?body = Some (?v, [])" "length ?body = 56" by code_simp+
  moreover have "decode_struct create_fields createNotificationRequest_zero ?v = Some asked_for"
    unfolding asked_for_def by code_simp
  ultimately show ?thesis by (simp add: sample_request_def DecodeLimited_def)
qed

lemma asked_for_valid: "Validate (new_notification i c None None t (create_input c' asked_for)) = None"
proof -
  have "new_notification i c None None t (create_input c' asked_for)
      = sample_new\<lparr>n_ID := i, n_CorrelationID := c, n_CreatedAt := t, n_UpdatedAt := t\<rparr>"
    by (simp add: new_notification_def create_input_def asked_for_def createNotificationRequest_zero_def sample_new_def
        sample_input_def default_priority_def)
  then show ?thesis using sample_new_valid by (simp add: Validate_None_iff well_formed_def)
qed

text \<open>The endpoint, on the request with the correlation id the middleware gives it.\<close>

lemma sample_request_routed:
  assumes "pg_rows (wd_pg w) = []" and "mq_log (wd_mq w) = []"
  shows "\<exists>r2 w'. routed (front_deps (all_works Confirms) create_front) (front_env (all_works Confirms) create_front) (fr_http create_front)
        (sample_request\<lparr>rq_CorrelationID := Some [], rq_RequestID := rid\<rparr>) r w = (False, r2, w')
      \<and> mq_log (wd_mq w') = [api_message (all_works Confirms) (new_notification 1 0 None None 5 (create_input 0 asked_for))]"
proof -
  let ?X = "all_works Confirms" and ?Y = create_front and ?inp = "create_input 0 asked_for"
  define H where "H = NewNotificationHandler (rd_Service (front_deps ?X ?Y)) (rd_RateLimiter (front_deps ?X ?Y)) (rd_Metrics (front_deps ?X ?Y))"
  let ?req = "sample_request\<lparr>rq_CorrelationID := Some [], rq_RequestID := rid\<rparr>"
  obtain n w' where c: "Create (os_uuid ?X) (api_service ?X) ?inp w = (Inr n, w')"
    "mq_log (wd_mq w') = [api_message ?X (new_notification 1 0 None None 5 ?inp)]"
    using Create_calm [OF all_works_calm [of Confirms], where inp = ?inp and w = w] assms asked_for_valid [of 1 0 5 0]
    by (auto simp: storable_def create_input_def asked_for_def new_notification_def notification_texts_def default_priority_def
        text_ok_def valid_utf8_ascii createNotificationRequest_zero_def)
  have lim: "nh_rateLimiter H = Some l \<Longrightarrow> l ch k w = ((True, 0), w)" for l ch k w
    by (auto simp: H_def NewNotificationHandler_def front_deps_def api_deps_def create_front_def idle_front_def on_cb_def)
  obtain l where l: "nh_rateLimiter H = Some l"
    by (simp add: H_def NewNotificationHandler_def front_deps_def api_deps_def)
  have svc: "sp_Create (nh_svc H) = Create (os_uuid ?X) (api_service ?X)"
    by (simp add: H_def NewNotificationHandler_def front_deps_def api_deps_def)
  have cid: "request_cid (front_env ?X ?Y) ?req w = (0, w)"
    by (simp add: request_cid_def front_env_def correlationIDFrom_def all_works_def binary_uuid_def)
  have key: "TrimSpace (rq_Header sample_request ''Idempotency-Key'') = []"
    by (simp add: sample_request_def TrimSpace_empty_iff)
  have quiet: "mq_log (wd_mq (nh_emit H x w)) = mq_log (wd_mq w)" for x w
    by (simp add: nh_emit_def H_def NewNotificationHandler_def front_deps_def api_deps_def)
  have "\<exists>r2 w'. create H (front_env ?X ?Y) ?req r w = (r2, w')
      \<and> mq_log (wd_mq w') = [api_message ?X (new_notification 1 0 None None 5 ?inp)]"
    using sample_request_decodes c(2)
    by (simp add: create_def l lim create_allowed_def cid key create_without_key_def svc c(1) create_accepted_def quiet Let_def)
  then show ?thesis by (simp add: routed_def create_front_def run_endpoint_def H_def Let_def)
qed

lemma sample_request_published:
  "\<exists>p r w'. api_handle (all_works Confirms) create_front sample_request empty_response (world_with []) = (p, r, w')
    \<and> mq_log (wd_mq w') = [api_message (all_works Confirms) (new_notification 1 0 None None 5 (create_input 0 asked_for))]"
proof -
  let ?X = "all_works Confirms" and ?Y = create_front and ?inp = "create_input 0 asked_for"
  let ?routed = "routed (front_deps ?X ?Y) (front_env ?X ?Y) (fr_http ?Y)"
  define w1 where "w1 = (world_with [])\<lparr>wd_ids := 1\<rparr>"
  define emit where "emit = (\<lambda>x w. (w::unit world)\<lparr>wd_metrics := wd_metrics w @ [x]\<rparr>)"
  have log: "mq_log (wd_mq (emit x w)) = mq_log (wd_mq w)" for x w by (simp add: emit_def)
  have env: "he_uuid (front_env ?X ?Y) = binary_uuid" "he_newID (front_env ?X ?Y) = svc_newID (api_service ?X)"
    by (simp_all add: front_env_def all_works_def)
  have met: "rd_Metrics (front_deps ?X ?Y) = Some emit" by (simp add: front_deps_def api_deps_def emit_def)
  obtain rid r1 where c: "CorrelationID binary_uuid (svc_newID (api_service ?X)) nxt sample_request empty_response (world_with [])
      = nxt (sample_request\<lparr>rq_CorrelationID := Some [], rq_RequestID := rid\<rparr>) r1 w1" for nxt :: "unit world Handler"
    by (simp add: CorrelationID_def sample_request_def binary_uuid_def api_service_def NewNotificationService_def Let_def w1_def)
  obtain r2 w2 where r: "?routed (sample_request\<lparr>rq_CorrelationID := Some [], rq_RequestID := rid\<rparr>) r1 (emit (MInc HTTPRequestsInFlight []) w1)
        = (False, r2, w2)" "mq_log (wd_mq w2) = [api_message ?X (new_notification 1 0 None None 5 ?inp)]"
    using sample_request_routed [of "emit (MInc HTTPRequestsInFlight []) w1" rid r1] by (auto simp: emit_def w1_def world_with_def pg_rows_def empty_db_def)
  have "\<exists>p r w'. api_handle ?X ?Y sample_request empty_response (world_with []) = (p, r, w')
      \<and> mq_log (wd_mq w') = mq_log (wd_mq w2)"
    unfolding api_handle_def deps_router_def NewRouter_def met
    by (simp add: Recoverer_def env c RequestLogger_def Metrics_middleware_def r(1) log Let_def) blast
  then show ?thesis using r(2)
    by simp
qed
section \<open>Properties\<close>

text \<open>How a handler has settled a message it did not hand over: with an error, upon which the broker has
  dropped it, as a duplicate, or with the status delivered recorded.\<close>

definition settled_with :: "go_string \<Rightarrow> uuid \<Rightarrow> agent \<Rightarrow> bool" where
  "settled_with body i g \<longleftrightarrow> d_Body (ag_delivery g) = body
     \<and> (case ag_prog g of
          Returns (Some e) \<Rightarrow> True
        | Returns None \<Rightarrow> found_duplicate i (ag_log g) \<or> recorded_delivered i (ag_log g)
        | Asks q k \<Rightarrow> False)"

definition queued :: "go_string \<Rightarrow> 'c plant \<Rightarrow> bool" where
  "queued body s \<longleftrightarrow> (\<exists>q. body \<in> d_Body ` set (pl_queues s q))"

definition in_hand :: "go_string \<Rightarrow> 'c plant \<Rightarrow> bool" where
  "in_hand body s \<longleftrightarrow> list_ex (carries body) (pl_agents s)"

lemma held_places:
  assumes "plant_ok X s" and "held_somewhere body s" and "Unmarshal (os_uuid X) body = Some msg"
  shows "queued body s \<or> in_hand body s \<or> body \<in> d_Body ` set (pl_taken s)
    \<or> list_ex (settled_with body (m_ID msg)) (pl_settled s)"
proof -
  have "settled_with body (m_ID msg) g" if g: "g \<in> set (pl_settled s)" "carries body g" for g
  proof -
    have "handler_ok (os_uuid X) g" "\<exists>r. ag_prog g = Returns r"
      using assms(1) g(1) by (auto simp: plant_ok_def list_all_iff)
    then obtain r where "ag_prog g = Returns r" "accounted_for (m_ID msg) r (ag_log g)"
      using g(2) assms(3) by (auto simp: handler_ok_def carries_def)
    then show ?thesis using g(2) by (auto simp: settled_with_def accounted_for_def carries_def split: option.split)
  qed
  then show ?thesis using assms(2) unfolding held_somewhere_def queued_def in_hand_def list_ex_iff by blast
qed

text \<open>C2: Start the API, the broker with empty queues and workers, and let them act in any order, with any
  calls failing and handlers dying at any point. Every message the broker has ever accepted,
  published by the API, for a retry or as a dead letter, is that of a validated notification in the database, and
  it is still in a queue, or in the hands of a running handler that has not passed it on, or an
  administrator has taken it out of a dead letter queue, or a handler has settled it: it recorded it as
  delivered, found it to be a duplicate, or failed, upon which the broker dropped it.\<close>

theorem no_message_vanishes:
  assumes "(plant_step matches (solo X) Y opts cfg)\<^sup>*\<^sup>* (plant_start w (\<lambda>q. [])) s"
    and "mq_log (wd_mq w) = []" and "wd_posts w = []"
    and "topic_literal matches" and "uuid_lib_ok (os_uuid X)" and "body \<in> bodies (pl_world s)"
  shows "\<exists>msg. Unmarshal (os_uuid X) body = Some msg \<and> in_db msg (pl_world s)
    \<and> (queued body s \<or> in_hand body s \<or> body \<in> d_Body ` set (pl_taken s)
      \<or> list_ex (settled_with body (m_ID msg)) (pl_settled s))"
proof -
  have ok: "plant_ok X s" by (rule plant_ok_reached [OF assms(1) plant_ok_start [OF assms(2,3)] assms(4,5)])
  then have "backed (solo X) body (pl_world s)" "held_somewhere body s"
    using assms(6) by (simp_all add: plant_ok_def integrity_def)
  moreover obtain msg where "Unmarshal (os_uuid X) body = Some msg" "in_db msg (pl_world s)"
    using backed_parses [OF \<open>backed (solo X) body (pl_world s)\<close>] assms(5) by (metis solo_simps(2))
  ultimately show ?thesis using held_places [OF ok] by blast
qed

theorem no_message_vanishes_witness:
  "\<exists>s body msg. (plant_step (=) (solo (all_works Confirms)) create_front sample_opts DefaultCBConfig)\<^sup>*\<^sup>*
        (plant_start (world_with []) (\<lambda>q. [])) s
    \<and> body \<in> bodies (pl_world s) \<and> Unmarshal (os_uuid (all_works Confirms)) body = Some msg \<and> in_db msg (pl_world s)
    \<and> (queued body s \<or> in_hand body s \<or> body \<in> d_Body ` set (pl_taken s)
      \<or> list_ex (settled_with body (m_ID msg)) (pl_settled s))"
proof -
  let ?X = "all_works Confirms"
  obtain p r w' where w: "api_handle (solo ?X) create_front sample_request empty_response
      (pl_world (plant_start (world_with []) (\<lambda>q. []))) = (p, r, w')"
    "mq_log (wd_mq w') = [api_message ?X (new_notification 1 0 None None 5 (create_input 0 asked_for))]"
    using sample_request_published calm_solo [OF all_works_calm [of Confirms]] by (auto simp: plant_start_def)
  let ?s = "moves (=) w' (plant_start (world_with []) (\<lambda>q. []))"
  have steps: "(plant_step (=) (solo ?X) create_front sample_opts DefaultCBConfig)\<^sup>*\<^sup>* (plant_start (world_with []) (\<lambda>q. [])) ?s"
    by (rule r_into_rtranclp, rule plant_step.serves [OF w(1)])
  obtain body where b: "body \<in> bodies (pl_world ?s)" using w(2) by (auto simp: bodies_def)
  have "uuid_lib_ok (os_uuid ?X)" by (simp add: all_works_def binary_uuid_ok)
  from no_message_vanishes [OF steps _ _ topic_literal_eq this b]
  show ?thesis using steps b by (simp del: moves_fields) blast
qed

end
