(* ===== verification/Spec2Isabelle.thy ===== *)
theory Spec2Isabelle
  imports Prelude Go_Text Go_Strings Go_Regexp Domain Json Message Message_Properties Metrics
    Deliver Deliver_Trace Deliver_Properties Rabbitmq Rabbitmq_Properties App_Types Ports
    Postgres Postgres_List Postgres_Invariant Postgres_Properties Postgres_Ports
    Service Service_Properties Consumer Worker Supervisor Journey Provider Provider_Properties Breaker_Properties
    Go_Time Ratelimit Http_Core Http_Notifications Http_Admin Http_Admin_Properties
    Http_Properties System First_Delivery System_Properties Redelivery Http_Limits Startup Startup_Properties
    Router Step_Order Http_Order System_Invariant Handle_Steps Plant Plant_Order Plant_Posts
    Plant_Tracking Plant_Account
begin

text \<open>
  The notification dispatcher is two processes over one Postgres database and one RabbitMQ broker.
  The API (\<open>cmd/api\<close>) takes notifications over HTTP, validates and rate-limits them, stores them as
  pending and publishes a message for each to a topic exchange. The worker (\<open>cmd/worker\<close>) consumes
  nine work queues (three channels, three priorities), guards each message against a second
  delivery by a table of processed ids, sends it through a circuit breaker to a webhook, and on a
  failure puts it into one of the retry queues, whose TTL leads back to the work queue, or at last
  into the dead letter queue of the channel. An administrator can replay a dead letter queue.

  \<^bold>\<open>Go.\<close> \<open>Prelude\<close> has the types all theories use: a Go string is a list of bytes, \<open>int\<close> a 64 bit
  word read by \<open>sint\<close>, a time the nanoseconds since year 1, an error a tree whose \<open>errors_Is\<close> and
  text are those of \<open>errors.New\<close>, \<open>fmt.Errorf\<close> and the wrapped sentinels. \<open>Go_Text\<close> (UTF-8),
  \<open>Go_Strings\<close>, \<open>Go_Regexp\<close> (matching by derivatives), \<open>Go_Time\<close> (RFC 3339, calendar) and \<open>Json\<close>
  (the encoder and decoder of \<open>encoding/json\<close> for the types used) model what the source uses of the
  standard library.

  \<^bold>\<open>Domain and application.\<close> \<open>Domain\<close> is \<open>internal/domain\<close>. \<open>Message\<close>, \<open>App_Types\<close>, \<open>Service\<close>, \<open>Deliver\<close>
  and \<open>Worker\<close> are \<open>message.go\<close>, \<open>types.go\<close>, \<open>notification_service.go\<close>, \<open>deliver.go\<close> and
  \<open>worker.go\<close> of \<open>internal/app\<close>. An interface of the source is a record of functions on a state of
  the world, which each operation threads in the order of the source's calls. The body of \<open>Handle\<close> is
  split along its branches: \<open>handle_message\<close>, \<open>send_and_route\<close>, \<open>on_sent\<close>, \<open>on_send_error\<close>,
  \<open>route_retry\<close>, \<open>route_dlq\<close>.

  \<^bold>\<open>Adapters.\<close> \<open>Postgres\<close> is \<open>internal/adapter/postgres\<close> on the schema of \<open>migrations/\<close>: each
  query is a statement on the tables that checks the constraints, each operation runs its
  statements on a server that may fail before or after a statement and that lets other sessions act
  in between. \<open>Rabbitmq\<close> is \<open>topology.go\<close>, \<open>publisher.go\<close> and \<open>retry_publisher.go\<close>, \<open>Consumer\<close> is
  \<open>consumer.go\<close>, whose goroutines are a step relation, \<open>Provider\<close> is \<open>internal/adapter/provider\<close>,
  \<open>Ratelimit\<close> and \<open>Metrics\<close> are the packages of \<open>internal/platform\<close>. \<open>Http_Core\<close>,
  \<open>Http_Notifications\<close> and \<open>Http_Admin\<close> are \<open>internal/adapter/http\<close>: requests and responses as
  \<open>net/http\<close> and \<open>chi\<close> hand them over, every handler, the middlewares and the table of routes; \<open>Router\<close>
  puts them together with the dependencies \<open>cmd/api\<close> passes.

  \<^bold>\<open>Processes.\<close> \<open>Startup\<close> is the configuration, \<open>connection.go\<close>, \<open>db.go\<close>, the log level and \<open>run\<close> of
  both processes with the order in which deferred calls close what was opened. \<open>Supervisor\<close> puts the
  supervisor's loop, the steps of its consumer, the handler and the broker's side of a queue
  together, for one consumer and for the pool \<open>RunWorker\<close> starts. \<open>System\<close> wires the
  service and the worker over one world of database, broker and webhook. \<open>Handle_Steps\<close> is \<open>Handle\<close> as a
  program of single calls, and \<open>Plant\<close> lets any number of such handlers, the requests of the API, the
  queues of the broker with their TTLs, and deaths of handlers act on one world in any order.

  \<^bold>\<open>Interfaces.\<close> \<open>Ports\<close> states as locales what the application relies on: a store of processed
  ids, a store of statuses, a store of notifications, a publisher with confirms. \<open>Postgres_Ports\<close>
  interprets the first three on the repositories and \<open>System\<close> the last on the publisher.
  \<open>Postgres_Invariant\<close> has a locale for predicates that every statement keeps, interpreted on the
  constraints of the schema and on the growth of the dedup table. \<open>First_Delivery\<close> extends the dedup
  contract to a whole worker and is interpreted on the worker of \<open>System\<close>. \<open>Step_Order\<close> and \<open>Http_Order\<close>
  have a locale for each of use case, service, handlers and admin handlers: if every port only moves
  the world up in an order, so does every operation. \<open>System_Invariant\<close> interprets them on the wired
  processes, and \<open>Plant_Order\<close> once more on the growth of what was published.

  \<^bold>\<open>What the lemmas show.\<close>
  \<^item> \<open>Deliver_Trace\<close>, \<open>Deliver_Properties\<close>: one run of \<open>Handle\<close> in an environment that answers
    each call from the whole history. It makes the calls of one of the verdicts of a protocol, so a
    delivery is acknowledged exactly when it is accounted for, the provider is asked at most once,
    retry levels are 1 to 3 and the gauge is balanced.
  \<^item> \<open>Journey\<close>: the chain of copies a message makes through the retry queues ends after four
    handlings at most, in the dead letter queue if no provider accepts. A second delivery of one copy
    is the matter of \<open>Redelivery\<close> and the plant.
  \<^item> \<open>Service_Properties\<close>, \<open>Http_Properties\<close>: what the create operations publish has been stored;
    each HTTP answer says what happened; a batch is stored whole, item by item as requested, or not
    at all.
  \<^item> \<open>Postgres_Invariant\<close>, \<open>Postgres_List\<close>, \<open>Postgres_Properties\<close>: the schema is an invariant under
    concurrent sessions and failures; marks win once, batches are atomic, pages are slices of the
    matching rows.
  \<^item> \<open>Rabbitmq_Properties\<close>: which queue each key reaches, and that the topology is declared in order.
  \<^item> \<open>Consumer\<close>, \<open>Worker\<close>: deliveries are settled once, the handlers of the receive loop keep to the
    concurrency over any number of runs while those of the drain need not, crashed consumers are
    restarted with growing delays.
  \<^item> \<open>Supervisor\<close>: each supervisor restarts its crashed consumer with the delays of the backoff
    until it is cancelled, as \<open>RunWorker\<close> computes from the results of the runs; no message is lost between broker and handlers; a closed AMQP channel is never replaced.
  \<^item> \<open>Provider_Properties\<close>, \<open>Breaker_Properties\<close>: one send makes at most one request; a failing
    channel is cut off at the threshold.
  \<^item> \<open>Http_Admin_Properties\<close>, \<open>Http_Limits\<close>: replays up to their first failure, the middlewares,
    and the limits at their edges.
  \<^item> \<open>First_Delivery\<close>, \<open>System_Properties\<close>: a created notification is delivered when nothing fails;
    first deliveries post at most once whatever fails; what a lost publication and a
    cancellation lead to.
  \<^item> \<open>Redelivery\<close>: what the dedup table does when the broker delivers a message again.
  \<^item> \<open>System_Invariant\<close>: in every state that requests, deliveries and failures can reach, what was
    published or posted stands for a validated row of the database.
  \<^item> \<open>Handle_Steps\<close>: run without interruption, the program of calls is the handler of \<open>RunWorker\<close>;
    \<open>Plant\<close>: so is a handler of the plant that is left alone.
  \<^item> \<open>Plant_Posts\<close>: however handlers interleave, a notification is posted once, and once more for each
    retry started and each removal of its mark.
  \<^item> \<open>Plant_Order\<close>, \<open>Plant_Tracking\<close>, \<open>Plant_Account\<close>: what is published fits the topology, and no
    accepted message leaves the plant but by a handler that delivered it, found a duplicate or
    failed, or by an administrator.
  \<^item> \<open>Startup_Properties\<close>: a start serves in full or not at all and releases what it opened, but for
    a broker connection that reports itself closed.

  \<^bold>\<open>Bounds.\<close> Recursion follows lists, strings that get shorter, or a number: the replay loop and the
  supervisor count down the limit and the turns they are given. The JSON decoder works with fuel of
  twice the length of its input; every value it reads shortens the rest, and \<open>Json\<close> shows that more
  fuel never changes a result. Nothing else is cut off; what the environment may do without end (ticks, turns, deliveries) is a list of
  arbitrary length.

  \<^bold>\<open>Assumptions.\<close> Third-party code is a parameter: \<open>google/uuid\<close>, \<open>pgx\<close> and the server, the AMQP
  client and the matching of topic patterns, \<open>sony/gobreaker\<close>, \<open>x/time/rate\<close>, \<open>chi\<close>, the
  HTTP client and server, \<open>caarlos0/env\<close>. What a property needs of it is a named hypothesis
  (\<open>uuid_ok\<close>, \<open>topic_literal\<close>, \<open>gobreaker_ok\<close>, \<open>burst_lib_ok\<close>, \<open>calm\<close> and others), met by a
  concrete instance in its witness.

  \<^bold>\<open>Not modelled.\<close> Log lines; histogram buckets and help texts; the text of \<open>openapi.yaml\<close> and the
  exposition format behind \<open>/metrics\<close>; the passing of time, so that a timeout is an error a port may
  answer with; signals beyond their effect on contexts; tests, migrations other than the
  constraints, and the deployment files. Context cancellation is a function of the state of the
  world, and in the plant any answer. Goroutines interleave step by step in the consumer and among the supervisors, statement
  by statement in the database, and call by call among the handlers of the plant; a request to the
  API is one step of the plant.
\<close>

end
